theory Spec2Isabelle
  imports Main "HOL-Library.Word" "HOL-Library.Monad_Syntax"
begin

unbundle bit_operations_syntax

section \<open>Data model\<close>

text \<open>The number modes of \<^verbatim>\<open>infovars.go\<close> (\<^verbatim>\<open>decMode\<close>, \<^verbatim>\<open>hexMode\<close>, \<^verbatim>\<open>octMode\<close>).\<close>

datatype numberMode = decMode | hexMode | octMode

text \<open>Go's \<^verbatim>\<open>reflect.Kind\<close>; \<^verbatim>\<open>reflectInvalid\<close> is the kind \<^verbatim>\<open>0\<close>.\<close>

datatype kind =
    reflectInvalid | reflectBool
  | reflectInt | reflectInt8 | reflectInt16 | reflectInt32 | reflectInt64
  | reflectUint | reflectUint8 | reflectUint16 | reflectUint32 | reflectUint64
  | reflectUintptr | reflectFloat32 | reflectFloat64
  | reflectComplex64 | reflectComplex128
  | reflectArray | reflectChan | reflectFunc | reflectInterface | reflectMap
  | reflectPtr | reflectSlice | reflectString | reflectStruct | reflectUnsafePointer

text \<open>
  The raw snapshot \<^verbatim>\<open>api.Variable\<close> of the debugger service, with the fields that
  \<^verbatim>\<open>infovars.go\<close> reads or writes. \<^verbatim>\<open>Value\<close> and \<^verbatim>\<open>Children\<close> of the raw snapshot are
  called \<open>api_Value\<close> and \<open>api_Children\<close>, since the display node has fields of the same
  names that hide them.
\<close>

datatype api_Variable = ApiVariable
  (Name: string)
  (Addr: "64 word")
  (OnlyAddr: bool)
  (Type: string)
  (Kind: kind)
  (api_Value: string)
  (Len: int)
  (Cap: int)
  (api_Children: "api_Variable list")
  (Unreadable: string)

text \<open>
  The display node \<^verbatim>\<open>Variable\<close>. The embedded \<^verbatim>\<open>*api.Variable\<close> is the field
  \<open>Variable\<close>; a \<^verbatim>\<open>nil\<close> child is \<open>None\<close>.
\<close>

datatype Variable = MkVariable
  (Variable: api_Variable)
  (Width: int)
  (Value: string)
  (IntMode: numberMode)
  (FloatFmt: string)
  (loading: bool)
  (Varname: string)
  (ShortType: string)
  (DisplayName: string)
  (Expression: string)
  (Children: "Variable option list")

text \<open>Field assignments.\<close>

fun set_Name :: "string \<Rightarrow> api_Variable \<Rightarrow> api_Variable" where
  "set_Name x (ApiVariable n a oa t k v l c cs u) = ApiVariable x a oa t k v l c cs u"

fun set_Len :: "int \<Rightarrow> api_Variable \<Rightarrow> api_Variable" where
  "set_Len x (ApiVariable n a oa t k v l c cs u) = ApiVariable n a oa t k v x c cs u"

fun set_Unreadable :: "string \<Rightarrow> api_Variable \<Rightarrow> api_Variable" where
  "set_Unreadable x (ApiVariable n a oa t k v l c cs u) = ApiVariable n a oa t k v l c cs x"

fun set_api_Children :: "api_Variable list \<Rightarrow> api_Variable \<Rightarrow> api_Variable" where
  "set_api_Children x (ApiVariable n a oa t k v l c cs u) = ApiVariable n a oa t k v l c x u"

fun set_Variable :: "api_Variable \<Rightarrow> Variable \<Rightarrow> Variable" where
  "set_Variable x (MkVariable av w v im ff ld vn st dn e cs) = MkVariable x w v im ff ld vn st dn e cs"

fun set_Value :: "string \<Rightarrow> Variable \<Rightarrow> Variable" where
  "set_Value x (MkVariable av w v im ff ld vn st dn e cs) = MkVariable av w x im ff ld vn st dn e cs"

fun set_IntMode :: "numberMode \<Rightarrow> Variable \<Rightarrow> Variable" where
  "set_IntMode x (MkVariable av w v im ff ld vn st dn e cs) = MkVariable av w v x ff ld vn st dn e cs"

fun set_FloatFmt :: "string \<Rightarrow> Variable \<Rightarrow> Variable" where
  "set_FloatFmt x (MkVariable av w v im ff ld vn st dn e cs) = MkVariable av w v im x ld vn st dn e cs"

fun set_Varname :: "string \<Rightarrow> Variable \<Rightarrow> Variable" where
  "set_Varname x (MkVariable av w v im ff ld vn st dn e cs) = MkVariable av w v im ff ld x st dn e cs"

fun set_ShortType :: "string \<Rightarrow> Variable \<Rightarrow> Variable" where
  "set_ShortType x (MkVariable av w v im ff ld vn st dn e cs) = MkVariable av w v im ff ld vn x dn e cs"

fun set_DisplayName :: "string \<Rightarrow> Variable \<Rightarrow> Variable" where
  "set_DisplayName x (MkVariable av w v im ff ld vn st dn e cs) = MkVariable av w v im ff ld vn st x e cs"

fun set_Children :: "Variable option list \<Rightarrow> Variable \<Rightarrow> Variable" where
  "set_Children x (MkVariable av w v im ff ld vn st dn e cs) = MkVariable av w v im ff ld vn st dn e x"

text \<open>
  The formatters themselves (\<^verbatim>\<open>intFormatter\<close>, \<^verbatim>\<open>uintFormatter\<close>, the \<^verbatim>\<open>Format\<close> method of a
  custom formatter) and the tables \<^verbatim>\<open>varFormat\<close> and \<^verbatim>\<open>conf.CustomFormatters\<close> are declared
  outside \<^verbatim>\<open>infovars.go\<close> and \<^verbatim>\<open>commands.go\<close>, so they are parameters. A formatter reads the
  node under construction and decides its formatting fields: the shown value, the number
  mode and the float format.
\<close>

type_synonym formatter = "Variable \<Rightarrow> string \<times> numberMode \<times> string"

definition applyFormatter :: "formatter \<Rightarrow> Variable \<Rightarrow> Variable" where
  "applyFormatter f r =
     (case f r of (val, im, ff) \<Rightarrow> set_FloatFmt ff (set_IntMode im (set_Value val r)))"

text \<open>
  The environment of the wrapping functions: the two formatter tables, and two functions
  of other packages, \<^verbatim>\<open>prettyprint.ShortenType\<close> and the quoting of a string by the verb
  \<^verbatim>\<open>%q\<close> of \<^verbatim>\<open>fmt.Sprintf\<close> (\<^verbatim>\<open>strconv.Quote\<close>, which depends on the Unicode tables).
\<close>

record env =
  varFormat :: "64 word \<rightharpoonup> formatter"
  CustomFormatters :: "string \<rightharpoonup> formatter"
  ShortenType :: "string \<Rightarrow> string"
  Quote :: "string \<Rightarrow> string"

section \<open>Strings and numbers of the Go library\<close>

text \<open>\<^verbatim>\<open>strings.HasPrefix\<close>, \<^verbatim>\<open>strings.HasSuffix\<close> and the slice expression \<^verbatim>\<open>x[a:b]\<close>.\<close>

definition HasPrefix :: "string \<Rightarrow> string \<Rightarrow> bool" where
  "HasPrefix s p = (length p \<le> length s \<and> take (length p) s = p)"

definition HasSuffix :: "string \<Rightarrow> string \<Rightarrow> bool" where
  "HasSuffix s p = (length p \<le> length s \<and> drop (length s - length p) s = p)"

definition sliceStr :: "string \<Rightarrow> nat \<Rightarrow> nat \<Rightarrow> string" where
  "sliceStr x a b = take (b - a) (drop a x)"

text \<open>The verb \<^verbatim>\<open>%d\<close>: a decimal numeral, with a minus sign when negative.\<close>

definition digit :: "int \<Rightarrow> char" where
  "digit d = char_of (48 + d)"

function digits :: "int \<Rightarrow> string" where
  "digits n = (if n < 10 then [digit n] else digits (n div 10) @ [digit (n mod 10)])"
  by pat_completeness auto
termination
  by (relation "measure nat") auto

definition itoa :: "int \<Rightarrow> string" where
  "itoa x = (if x < 0 then CHR ''-'' # digits (- x) else digits x)"

text \<open>The verb \<^verbatim>\<open>%+d\<close>: the sign is always written.\<close>

definition itoa_plus :: "int \<Rightarrow> string" where
  "itoa_plus x = (if x < 0 then CHR ''-'' # digits (- x) else CHR ''+'' # digits x)"

text \<open>The verb \<^verbatim>\<open>%#x\<close> on an unsigned integer: lower-case hexadecimal after \<^verbatim>\<open>0x\<close>.\<close>

definition hexdigit :: "int \<Rightarrow> char" where
  "hexdigit d = (if d < 10 then char_of (48 + d) else char_of (87 + d))"

function hexdigits :: "int \<Rightarrow> string" where
  "hexdigits n = (if n < 16 then [hexdigit n] else hexdigits (n div 16) @ [hexdigit (n mod 16)])"
  by pat_completeness auto
termination
  by (relation "measure nat") auto

definition fmt_hex :: "64 word \<Rightarrow> string" where
  "fmt_hex a = ''0x'' @ hexdigits (uint a)"

text \<open>
  The verb \<^verbatim>\<open>%q\<close> on an integer in the printable ASCII range: the character between
  single quotes, a quote or a backslash escaped by a backslash.
\<close>

definition quoteRune :: "int \<Rightarrow> string" where
  "quoteRune n =
     (let c = char_of n in
      if c = CHR 0x27 \<or> c = CHR 0x5C then [CHR 0x27, CHR 0x5C, c, CHR 0x27]
      else [CHR 0x27, c, CHR 0x27])"

text \<open>
  \<^verbatim>\<open>strconv.ParseUint(s, 10, 64)\<close>: the digits are read from left to right; a character
  that is no digit is a syntax error, a value beyond 64 bits is a range error, whichever
  comes first. The result is the value with the error, if any.
\<close>

datatype NumError = ErrSyntax | ErrRange

definition maxUint64 :: int where
  "maxUint64 = 2 ^ 64 - 1"

definition isDigit :: "char \<Rightarrow> bool" where
  "isDigit c = (48 \<le> (of_char c :: int) \<and> (of_char c :: int) \<le> 57)"

fun parseUintLoop :: "int \<Rightarrow> string \<Rightarrow> int \<times> NumError option" where
  "parseUintLoop n [] = (n, None)"
| "parseUintLoop n (c # cs) =
     (if \<not> isDigit c then (0, Some ErrSyntax)
      else if n \<ge> maxUint64 div 10 + 1 then (maxUint64, Some ErrRange)
      else let n1 = n * 10 + (of_char c - 48) in
           if n1 > maxUint64 then (maxUint64, Some ErrRange) else parseUintLoop n1 cs)"

definition ParseUint :: "string \<Rightarrow> int \<times> NumError option" where
  "ParseUint s = (if s = [] then (0, Some ErrSyntax) else parseUintLoop 0 s)"

text \<open>
  \<^verbatim>\<open>strconv.ParseInt(s, 10, 64)\<close>: an optional sign, then \<^verbatim>\<open>ParseUint\<close>; a value outside
  the signed 64-bit range is a range error and the result is the nearest bound.
\<close>

definition ParseInt :: "string \<Rightarrow> int \<times> NumError option" where
  "ParseInt s =
     (if s = [] then (0, Some ErrSyntax)
      else let neg = (hd s = CHR ''-'');
               s1 = (if hd s = CHR ''+'' \<or> hd s = CHR ''-'' then tl s else s);
               (un, err) = ParseUint s1
           in if err = Some ErrSyntax then (0, err)
              else if \<not> neg \<and> un \<ge> 2 ^ 63 then (2 ^ 63 - 1, Some ErrRange)
              else if neg \<and> un > 2 ^ 63 then (- (2 ^ 63), Some ErrRange)
              else (if neg then - un else un, None))"

text \<open>
  \<^verbatim>\<open>strconv.Atoi\<close> on a 64-bit platform is \<^verbatim>\<open>ParseInt(s, 10, 0)\<close>; its shortcut for strings
  of fewer than 19 bytes computes the same value.
\<close>

definition Atoi :: "string \<Rightarrow> int \<times> NumError option" where
  "Atoi s = ParseInt s"

subsection \<open>Times\<close>

text \<open>
  A \<^verbatim>\<open>time.Time\<close> in UTC is modelled by its number of nanoseconds since
  1 January of year 1, 00:00:00 UTC, the zero value of \<^verbatim>\<open>time.Time\<close>. The calendar is the
  proleptic Gregorian calendar with a year 0, as the package \<^verbatim>\<open>time\<close> documents it.
\<close>

type_synonym gotime = int

definition time_Unix :: "int \<Rightarrow> gotime" where
  "time_Unix sec = (sec + 62135596800) * 1000000000"

definition time_Add :: "gotime \<Rightarrow> int \<Rightarrow> gotime" where
  "time_Add t d = t + d"

text \<open>The date of a day, counted from 1 January of year 1: year, month and day of the month.\<close>

definition civil :: "int \<Rightarrow> int \<times> int \<times> int" where
  "civil d =
     (let z = d + 306;
          era = z div 146097;
          doe = z - era * 146097;
          yoe = (doe - doe div 1460 + doe div 36524 - doe div 146096) div 365;
          doy = doe - (365 * yoe + yoe div 4 - yoe div 100);
          mp = (5 * doy + 2) div 153;
          dd = doy - (153 * mp + 2) div 5 + 1;
          m = (if mp < 10 then mp + 3 else mp - 9);
          y = yoe + era * 400 + (if m \<le> 2 then 1 else 0)
      in (y, m, dd))"

text \<open>\<^verbatim>\<open>appendInt\<close> of the package \<^verbatim>\<open>time\<close>: a sign, then the digits padded with zeros.\<close>

definition appendInt :: "int \<Rightarrow> nat \<Rightarrow> string" where
  "appendInt x width =
     (let ds = digits \<bar>x\<bar> in
      (if x < 0 then ''-'' else []) @ replicate (width - length ds) (CHR ''0'') @ ds)"

text \<open>\<^verbatim>\<open>t.Format(time.RFC3339)\<close> of a time in UTC.\<close>

definition Format_RFC3339 :: "gotime \<Rightarrow> string" where
  "Format_RFC3339 t =
     (let secs = t div 1000000000;
          (y, m, d) = civil (secs div 86400);
          rem = secs mod 86400
      in appendInt y 4 @ ''-'' @ appendInt m 2 @ ''-'' @ appendInt d 2 @ ''T''
         @ appendInt (rem div 3600) 2 @ '':'' @ appendInt (rem mod 3600 div 60) 2 @ '':''
         @ appendInt (rem mod 60) 2 @ ''Z'')"

section \<open>The time decoder\<close>

text \<open>\<^verbatim>\<open>fieldVariable\<close>: the first child of that name, \<open>None\<close> for \<^verbatim>\<open>nil\<close>.\<close>

fun fieldVariableFrom :: "api_Variable list \<Rightarrow> string \<Rightarrow> api_Variable option" where
  "fieldVariableFrom [] name = None"
| "fieldVariableFrom (c # cs) name = (if Name c = name then Some c else fieldVariableFrom cs name)"

definition fieldVariable :: "api_Variable \<Rightarrow> string \<Rightarrow> api_Variable option" where
  "fieldVariable v name = fieldVariableFrom (api_Children v) name"

text \<open>The constants of \<^verbatim>\<open>formatTime\<close>.\<close>

definition timeTimeWallHasMonotonicBit :: "64 word" where
  "timeTimeWallHasMonotonicBit = push_bit 63 1"

definition maxAddSeconds :: int where
  "maxAddSeconds = (2 ^ 63 - 1) div 1000000000 * 1000000000"

definition wallNsecShift :: nat where
  "wallNsecShift = 30"

definition unixTimestampOfWallEpoch :: int where
  "unixTimestampOfWallEpoch = - 2682288000"

text \<open>
  The loop of the branch without monotonic reading: while \<open>ext\<close> exceeds the largest number
  of seconds that \<^verbatim>\<open>Add\<close> takes, advance \<open>t\<close> by that much.
\<close>

function addLoop :: "gotime \<Rightarrow> int \<Rightarrow> gotime \<times> int" where
  "addLoop t ext =
     (if ext > maxAddSeconds div 1000000000
      then addLoop (time_Add t maxAddSeconds) (ext - maxAddSeconds div 1000000000)
      else (t, ext))"
  by pat_completeness auto
termination
  by (relation "measure (\<lambda>(t, ext). nat ext)") (auto simp: maxAddSeconds_def)

text \<open>The product \<^verbatim>\<open>time.Duration(ext) * time.Second\<close> wraps around in 64 bits.\<close>

definition mul_Second :: "int \<Rightarrow> int" where
  "mul_Second ext = sint (word_of_int (ext * 1000000000) :: 64 word)"

definition formatTime :: "api_Variable \<Rightarrow> string" where
  "formatTime v =
     (case (fieldVariable v ''wall'', fieldVariable v ''ext'') of
        (Some wallv, Some extv) \<Rightarrow>
          if Unreadable wallv \<noteq> [] \<or> Unreadable extv \<noteq> []
             \<or> api_Value wallv = [] \<or> api_Value extv = []
          then api_Value v
          else (case (ParseUint (api_Value wallv), ParseInt (api_Value extv)) of
                  ((wall, None), (ext, None)) \<Rightarrow>
                    if (word_of_int wall :: 64 word) AND timeTimeWallHasMonotonicBit \<noteq> 0
                    then let sec = sint (drop_bit (wallNsecShift + 1)
                                           (push_bit 1 (word_of_int wall :: 64 word)));
                             t = time_Unix (sec + unixTimestampOfWallEpoch)
                         in ''time.Time('' @ Format_RFC3339 t @ '', '' @ itoa_plus ext @ '')''
                    else let (t, ext') = addLoop 0 ext;
                             t' = time_Add t (mul_Second ext')
                         in Format_RFC3339 t'
                | _ \<Rightarrow> api_Value v)
      | _ \<Rightarrow> api_Value v)"

section \<open>Wrapping a raw snapshot\<close>

text \<open>
  The formatting rules of \<^verbatim>\<open>wrapApiVariable\<close>, the chain of \<^verbatim>\<open>if ... else if\<close> that follows
  the assignments of \<^verbatim>\<open>r.Value\<close> and \<^verbatim>\<open>r.Expression\<close>. A table entry that is \<^verbatim>\<open>nil\<close> or absent
  is \<open>None\<close>.
\<close>

definition formatValue :: "env \<Rightarrow> api_Variable \<Rightarrow> Variable \<Rightarrow> bool \<Rightarrow> Variable" where
  "formatValue E v r customFormatters =
     (if varFormat E (Addr v) \<noteq> None then applyFormatter (the (varFormat E (Addr v))) r
      else if (Kind v = reflectInt \<or> Kind v = reflectUint)
              \<and> (Type v = ''uint8'' \<or> Type v = ''int32'')
      then (let n = fst (Atoi (api_Value v)) in
            if n \<ge> 32 \<and> n \<le> 126 then set_Value (api_Value v @ '' '' @ quoteRune n) r else r)
      else if CustomFormatters E (Type v) \<noteq> None \<and> customFormatters
      then applyFormatter (the (CustomFormatters E (Type v))) r
      else if Type v = ''time.Time'' then set_Value (formatTime v) r
      else r)"

text \<open>
  The name under which a map key is folded into its value, or the empty string when the
  pair is not folded: the test on the key and the \<^verbatim>\<open>switch key.Kind\<close> of the map loop.
\<close>

definition minInlineKeyValueLen :: nat where
  "minInlineKeyValueLen = 20"

definition mapKeyName :: "env \<Rightarrow> api_Variable \<Rightarrow> string" where
  "mapKeyName E key =
     (if length (api_Children key) = 0 \<and> length (api_Value key) < minInlineKeyValueLen
      then (if Kind key = reflectString then ''['' @ Quote E (api_Value key) @ '']''
            else if Kind key \<in> set [reflectInt, reflectInt8, reflectInt16, reflectInt32,
                      reflectInt64, reflectUint, reflectUint8, reflectUint16, reflectUint32,
                      reflectUint64, reflectUintptr, reflectComplex64, reflectComplex128,
                      reflectFloat32, reflectFloat64]
            then ''['' @ api_Value key @ '']''
            else [])
      else [])"

text \<open>
  The \<^verbatim>\<open>switch kind\<close> of the second loop of \<^verbatim>\<open>wrapApiVariables\<close>: the name and the
  expression of the child at position \<open>i\<close>.
\<close>

definition childName :: "kind \<Rightarrow> int \<Rightarrow> int \<Rightarrow> api_Variable \<Rightarrow> string" where
  "childName kind start i vi =
     (if kind = reflectInterface then ''data''
      else if kind = reflectSlice \<or> kind = reflectArray then ''['' @ itoa (start + i) @ '']''
      else Name vi)"

definition childExpr :: "kind \<Rightarrow> int \<Rightarrow> int \<Rightarrow> string \<Rightarrow> api_Variable \<Rightarrow> string" where
  "childExpr kind start i expr vi =
     (if kind = reflectInterface then []
      else if kind = reflectSlice \<or> kind = reflectArray
      then (if expr \<noteq> [] then expr @ ''['' @ itoa (start + i) @ '']'' else [])
      else if kind = reflectPtr
      then (if expr \<noteq> [] then ''(*('' @ expr @ ''))'' else [])
      else if kind = reflectStruct \<or> kind = reflectChan
      then (if expr \<noteq> []
            then (let x = (if HasPrefix expr ''(*('' \<and> HasSuffix expr ''))''
                           then sliceStr expr 3 (length expr - 2) else expr)
                  in x @ ''.'' @ Name vi)
            else [])
      else if kind = reflectInvalid then Name vi
      else [])"

text \<open>
  The special case at the end of \<^verbatim>\<open>wrapApiVariable\<close>: the child of the pointer child of an
  interface takes the display name of the pointer child. Reading a field of a \<^verbatim>\<open>nil\<close> child
  panics: \<open>None\<close>.
\<close>

definition interfaceData :: "api_Variable \<Rightarrow> Variable \<Rightarrow> Variable option" where
  "interfaceData v r =
     (if Kind v = reflectInterface then
        (case Children r of
           [] \<Rightarrow> Some r
         | None # _ \<Rightarrow> None
         | Some c0 # rest \<Rightarrow>
             if Kind (Variable c0) = reflectPtr then
               (case Children c0 of
                  [] \<Rightarrow> Some r
                | None # _ \<Rightarrow> None
                | Some g # grest \<Rightarrow>
                    Some (set_Children
                      (Some (set_Children (Some (set_DisplayName (DisplayName c0) g) # grest) c0)
                       # rest) r))
             else Some r)
      else Some r)"

text \<open>
  The first statements of \<^verbatim>\<open>wrapApiVariable\<close>: a node around the raw snapshot, with the raw
  value string and the given expression; all other fields have their zero value.
\<close>

definition newVariable :: "api_Variable \<Rightarrow> string \<Rightarrow> Variable" where
  "newVariable v expr = MkVariable v 0 (api_Value v) decMode [] False [] [] [] expr []"

lemma size_set_Name [simp]: "size (set_Name x v) = size v"
  by (cases v) simp

lemma size_api_Children: "Suc (2 * size_list size (api_Children v)) < 2 * size v"
  by (cases v) simp

text \<open>
  \<^verbatim>\<open>wrapApiVariable\<close> and \<^verbatim>\<open>wrapApiVariables\<close>. The result is \<open>None\<close> when the Go code panics.
  The two loops of \<^verbatim>\<open>wrapApiVariables\<close> are \<open>wrapMapLoop\<close> and \<open>wrapLoop\<close>, which take the
  loop index \<open>i\<close> and the part \<^verbatim>\<open>vs[i:]\<close> of the slice that is still to be visited.
  The map loop reads \<^verbatim>\<open>vs[i+1]\<close>, which is out of range when one element is left.

  The raw snapshots are reached through pointers, and the map loop renames the value of a
  folded pair in place (\<^verbatim>\<open>value.Name = keyname[1 : len(keyname)-1]\<close>). So
  \<open>wrapApiVariables\<close> returns the raw snapshots as they are after the call, next to the
  display nodes, and the embedded raw snapshot of a node has these as its children.
\<close>

function (sequential) wrapApiVariable :: "env \<Rightarrow> api_Variable \<Rightarrow> string \<Rightarrow> string \<Rightarrow> bool \<Rightarrow> Variable option"
and wrapApiVariables :: "env \<Rightarrow> api_Variable list \<Rightarrow> kind \<Rightarrow> int \<Rightarrow> string \<Rightarrow> bool
      \<Rightarrow> (api_Variable list \<times> Variable option list) option"
and wrapMapLoop :: "env \<Rightarrow> api_Variable list \<Rightarrow> int \<Rightarrow> int \<Rightarrow> bool
      \<Rightarrow> (api_Variable list \<times> Variable option list) option"
and wrapLoop :: "env \<Rightarrow> api_Variable list \<Rightarrow> kind \<Rightarrow> int \<Rightarrow> int \<Rightarrow> string \<Rightarrow> bool
      \<Rightarrow> (api_Variable list \<times> Variable option list) option"
where
  "wrapApiVariable E v name expr customFormatters =
     (let r = newVariable v expr;
          r = formatValue E v r customFormatters;
          r = set_DisplayName (if name \<noteq> [] then name else Type v) r;
          r = set_ShortType (ShortenType E (Type v)) r;
          r = set_Varname (DisplayName r) r
      in case wrapApiVariables E (api_Children v) (Kind v) 0 (Expression r) customFormatters of
           None \<Rightarrow> None
         | Some (vs', cs) \<Rightarrow>
             interfaceData v (set_Children cs (set_Variable (set_api_Children vs' v) r)))"
| "wrapApiVariables E vs kind start expr customFormatters =
     (if kind = reflectMap then wrapMapLoop E vs start 0 customFormatters
      else wrapLoop E vs kind start 0 expr customFormatters)"
| "wrapMapLoop E [] start i customFormatters = Some ([], [])"
| "wrapMapLoop E [key] start i customFormatters = None"
| "wrapMapLoop E (key # value # rest) start i customFormatters =
     (let keyname = mapKeyName E key in
      if keyname \<noteq> [] then
        (case wrapApiVariable E (set_Name (sliceStr keyname 1 (length keyname - 1)) value)
                keyname [] customFormatters of
           None \<Rightarrow> None
         | Some wv \<Rightarrow>
            (case wrapMapLoop E rest start (i + 2) customFormatters of
               None \<Rightarrow> None
             | Some (vs', r) \<Rightarrow> Some (key # Variable wv # vs', Some wv # None # r)))
      else
        (case wrapApiVariable E key (''['' @ itoa (start + i div 2) @ '' key]'') []
                customFormatters of
           None \<Rightarrow> None
         | Some wk \<Rightarrow>
            (case wrapApiVariable E value (''['' @ itoa (start + i div 2) @ '' value]'') []
                    customFormatters of
               None \<Rightarrow> None
             | Some wv \<Rightarrow>
                (case wrapMapLoop E rest start (i + 2) customFormatters of
                   None \<Rightarrow> None
                 | Some (vs', r) \<Rightarrow>
                     Some (Variable wk # Variable wv # vs', Some wk # Some wv # r)))))"
| "wrapLoop E [] kind start i expr customFormatters = Some ([], [])"
| "wrapLoop E (vi # rest) kind start i expr customFormatters =
     (case wrapApiVariable E vi (childName kind start i vi) (childExpr kind start i expr vi)
             customFormatters of
        None \<Rightarrow> None
      | Some w \<Rightarrow>
         (case wrapLoop E rest kind start (i + 1) expr customFormatters of
            None \<Rightarrow> None
          | Some (vs', r) \<Rightarrow> Some (Variable w # vs', Some w # r)))"
  by pat_completeness auto
termination
  by (relation "measure (\<lambda>x. case x of
        Inl (Inl (E, v, name, expr, cf)) \<Rightarrow> 2 * size v + 1
      | Inl (Inr (E, vs, kind, start, expr, cf)) \<Rightarrow> 2 * size_list size vs + 2
      | Inr (Inl (E, vs, start, i, cf)) \<Rightarrow> 2 * size_list size vs + 1
      | Inr (Inr (E, vs, kind, start, i, expr, cf)) \<Rightarrow> 2 * size_list size vs + 1)")
     (auto simp: size_api_Children)

declare wrapApiVariable.simps [simp del] wrapApiVariables.simps [simp del]

section \<open>Loading more\<close>

text \<open>
  The state that \<^verbatim>\<open>loadMoreMap\<close>, \<^verbatim>\<open>loadMoreArrayOrSlice\<close> and \<^verbatim>\<open>loadMoreStruct\<close> work on:
  \<^item> \<open>additionalLoadRunning\<close>, the flag of the same name, one for the whole process;
  \<^item> \<open>heap\<close>, the display nodes that the functions are given, by address: the functions
    take a pointer \<^verbatim>\<open>v *Variable\<close> and assign through it;
  \<^item> \<open>goroutines\<close>, the function literals started by \<^verbatim>\<open>go\<close> that have not finished yet;
  \<^item> \<open>evalCalls\<close>, the calls of \<^verbatim>\<open>client.EvalVariable\<close> made so far, each with its expression
    and its load configuration;
  \<^item> \<open>scrollback\<close>, what has been written to the scrollback editor, one entry for each call
    of \<^verbatim>\<open>fmt.Fprintf\<close>;
  \<^item> \<open>changed\<close>, the number of calls of \<^verbatim>\<open>wnd.Changed\<close>.
\<close>

datatype LoadConfig = LongArrayLoadConfig | getVariableLoadConfig

type_synonym ref = nat

datatype goroutine = goLoadMoreMap ref | goLoadMoreArrayOrSlice ref | goLoadMoreStruct ref

record state =
  additionalLoadRunning :: bool
  heap :: "ref \<rightharpoonup> Variable"
  goroutines :: "goroutine list"
  evalCalls :: "(string \<times> LoadConfig) list"
  scrollback :: "string list"
  changed :: nat

text \<open>
  The three functions as their callers see them: when no load is running, set the flag and
  start the goroutine; otherwise do nothing.
\<close>

definition loadMoreMap :: "state \<Rightarrow> ref \<Rightarrow> state" where
  "loadMoreMap s v =
     (if \<not> additionalLoadRunning s
      then s\<lparr>additionalLoadRunning := True, goroutines := goroutines s @ [goLoadMoreMap v]\<rparr>
      else s)"

definition loadMoreArrayOrSlice :: "state \<Rightarrow> ref \<Rightarrow> state" where
  "loadMoreArrayOrSlice s v =
     (if \<not> additionalLoadRunning s
      then s\<lparr>additionalLoadRunning := True, goroutines := goroutines s @ [goLoadMoreArrayOrSlice v]\<rparr>
      else s)"

definition loadMoreStruct :: "state \<Rightarrow> ref \<Rightarrow> state" where
  "loadMoreStruct s v =
     (if \<not> additionalLoadRunning s
      then s\<lparr>additionalLoadRunning := True, goroutines := goroutines s @ [goLoadMoreStruct v]\<rparr>
      else s)"

text \<open>
  The end of each goroutine: \<^verbatim>\<open>wnd.Changed()\<close>, and the flag is cleared under the mutex.
\<close>

definition finished :: "state \<Rightarrow> state" where
  "finished s = s\<lparr>changed := changed s + 1, additionalLoadRunning := False\<rparr>"

text \<open>
  The bodies of the goroutines. The answer of \<^verbatim>\<open>client.EvalVariable\<close> is a parameter: \<open>Inl\<close>
  with the text of the error, or \<open>Inr\<close> with the raw value. The result is \<open>None\<close> when the
  goroutine panics: the pointer is \<^verbatim>\<open>nil\<close> or dangling, or wrapping the answer panics.
\<close>

definition loadMoreMap_go :: "env \<Rightarrow> string + api_Variable \<Rightarrow> state \<Rightarrow> ref \<Rightarrow> state option" where
  "loadMoreMap_go E reply s v =
     (case heap s v of
        None \<Rightarrow> None
      | Some node \<Rightarrow>
          let expr = ''(*(*'' @ Quote E (Type (Variable node)) @ '')('' @ fmt_hex (Addr (Variable node))
                       @ ''))['' @ itoa (int (length (Children node)) div 2) @ '':]'';
              s = s\<lparr>evalCalls := evalCalls s @ [(expr, LongArrayLoadConfig)]\<rparr>
          in (case reply of
                Inl err \<Rightarrow>
                  Some (finished (s\<lparr>
                    scrollback := scrollback s
                      @ [''Error loading array contents '' @ expr @ '': '' @ err @ [CHR 0x0A]],
                    heap := (heap s)(v \<mapsto>
                      set_Variable (set_Len (int (length (Children node)) div 2) (Variable node)) node)\<rparr>))
              | Inr lv \<Rightarrow>
                  (case wrapApiVariables E (api_Children lv) reflectMap (int (length (Children node)))
                          (Expression node) True of
                     None \<Rightarrow> None
                   | Some (vs', cs) \<Rightarrow>
                       Some (finished (s\<lparr>heap := (heap s)(v \<mapsto>
                         set_Children (Children node @ cs) node)\<rparr>)))))"

definition loadMoreArrayOrSlice_go ::
    "env \<Rightarrow> string + api_Variable \<Rightarrow> state \<Rightarrow> ref \<Rightarrow> state option" where
  "loadMoreArrayOrSlice_go E reply s v =
     (case heap s v of
        None \<Rightarrow> None
      | Some node \<Rightarrow>
          let expr = ''(*(*'' @ Quote E (Type (Variable node)) @ '')('' @ fmt_hex (Addr (Variable node))
                       @ ''))['' @ itoa (int (length (Children node))) @ '':]'';
              s = s\<lparr>evalCalls := evalCalls s @ [(expr, LongArrayLoadConfig)]\<rparr>
          in (case reply of
                Inl err \<Rightarrow>
                  Some (finished (s\<lparr>
                    scrollback := scrollback s
                      @ [''Error loading array contents '' @ expr @ '': '' @ err @ [CHR 0x0A]],
                    heap := (heap s)(v \<mapsto>
                      set_Variable (set_Len (int (length (Children node))) (Variable node)) node)\<rparr>))
              | Inr lv \<Rightarrow>
                  (case wrapApiVariables E (api_Children lv) (Kind (Variable node))
                          (int (length (Children node))) (Expression node) True of
                     None \<Rightarrow> None
                   | Some (vs', cs) \<Rightarrow>
                       Some (finished (s\<lparr>heap := (heap s)(v \<mapsto>
                         set_Children (Children node @ cs) node)\<rparr>)))))"

definition loadMoreStruct_go :: "env \<Rightarrow> string + api_Variable \<Rightarrow> state \<Rightarrow> ref \<Rightarrow> state option" where
  "loadMoreStruct_go E reply s v =
     (case heap s v of
        None \<Rightarrow> None
      | Some node \<Rightarrow>
          let expr = ''*(*'' @ Quote E (Type (Variable node)) @ '')('' @ fmt_hex (Addr (Variable node))
                       @ '')'';
              s = s\<lparr>evalCalls := evalCalls s @ [(expr, getVariableLoadConfig)]\<rparr>
          in (case reply of
                Inl err \<Rightarrow>
                  Some (finished (s\<lparr>heap := (heap s)(v \<mapsto>
                    set_Variable (set_Unreadable err (Variable node)) node)\<rparr>))
              | Inr lv0 \<Rightarrow>
                  let dn = DisplayName node;
                      vn = Varname node;
                      lv = set_Name (Name (Variable node)) lv0
                  in (case wrapApiVariable E lv (Name lv) (Expression node) True of
                        None \<Rightarrow> None
                      | Some w \<Rightarrow>
                          Some (finished (s\<lparr>heap := (heap s)(v \<mapsto>
                            set_DisplayName dn (set_Varname vn w))\<rparr>)))))"

text \<open>A goroutine runs to its end and is gone.\<close>

definition runGoroutine :: "env \<Rightarrow> goroutine \<Rightarrow> string + api_Variable \<Rightarrow> state \<Rightarrow> state option" where
  "runGoroutine E g reply s =
     map_option (\<lambda>s'. s'\<lparr>goroutines := remove1 g (goroutines s')\<rparr>)
       (case g of
          goLoadMoreMap v \<Rightarrow> loadMoreMap_go E reply s v
        | goLoadMoreArrayOrSlice v \<Rightarrow> loadMoreArrayOrSlice_go E reply s v
        | goLoadMoreStruct v \<Rightarrow> loadMoreStruct_go E reply s v)"

text \<open>
  The steps of the program, as far as loading is concerned. The calls of the three
  functions come from the one flow that draws the panels, so a call is one step; a started
  goroutine runs at any later time, with whatever answer the debugger gives.
\<close>

inductive step :: "env \<Rightarrow> state \<Rightarrow> state \<Rightarrow> bool" for E :: env where
  call_loadMoreMap: "step E s (loadMoreMap s v)"
| call_loadMoreArrayOrSlice: "step E s (loadMoreArrayOrSlice s v)"
| call_loadMoreStruct: "step E s (loadMoreStruct s v)"
| run_goroutine: "g \<in> set (goroutines s) \<Longrightarrow> runGoroutine E g reply s = Some s' \<Longrightarrow> step E s s'"

text \<open>The states that the program reaches from a start without a running load.\<close>

inductive reachable :: "env \<Rightarrow> state \<Rightarrow> bool" for E :: env where
  reach_start: "\<not> additionalLoadRunning s \<Longrightarrow> goroutines s = [] \<Longrightarrow> reachable E s"
| reach_step: "reachable E s \<Longrightarrow> step E s s' \<Longrightarrow> reachable E s'"

text \<open>
  The test of \<^verbatim>\<open>showArrayOrSliceContents\<close> under which the button for more elements is shown.
\<close>

definition moreArrayOrSlice :: "Variable \<Rightarrow> bool" where
  "moreArrayOrSlice v = (int (length (Children v)) \<noteq> Len (Variable v) \<and> Addr (Variable v) \<noteq> 0)"

section \<open>Well-formed snapshots and examples\<close>

text \<open>
  The children of a map are its keys and values in turn, so a raw snapshot of a map has an
  even number of children. A raw snapshot is well formed when this holds of every map in it.
\<close>

fun wf_raw :: "api_Variable \<Rightarrow> bool" where
  "wf_raw (ApiVariable n a oa t k v l c cs u) =
     ((k = reflectMap \<longrightarrow> even (length cs)) \<and> list_all wf_raw cs)"

text \<open>
  An environment without formatters, for the examples. Its quoting function puts a string
  between double quotes, as \<^verbatim>\<open>%q\<close> does for a string of plain letters and digits.
\<close>

definition exampleEnv :: env where
  "exampleEnv = \<lparr>varFormat = Map.empty, CustomFormatters = Map.empty,
     ShortenType = (\<lambda>t. t), Quote = (\<lambda>s. CHR 0x22 # s @ [CHR 0x22])\<rparr>"

text \<open>A raw snapshot without children at address \<open>0x10\<close>.\<close>

definition scalar :: "string \<Rightarrow> string \<Rightarrow> kind \<Rightarrow> string \<Rightarrow> api_Variable" where
  "scalar name type kind val = ApiVariable name 16 False type kind val 0 0 [] []"

text \<open>
  The kinds that the map loop lists next to \<^verbatim>\<open>String\<close>: the signed and unsigned integers,
  \<^verbatim>\<open>Uintptr\<close>, the floats and the complex numbers.
\<close>

definition numericKind :: "kind \<Rightarrow> bool" where
  "numericKind k =
     (k = reflectInt \<or> k = reflectInt8 \<or> k = reflectInt16 \<or> k = reflectInt32 \<or> k = reflectInt64
      \<or> k = reflectUint \<or> k = reflectUint8 \<or> k = reflectUint16 \<or> k = reflectUint32
      \<or> k = reflectUint64 \<or> k = reflectUintptr
      \<or> k = reflectFloat32 \<or> k = reflectFloat64
      \<or> k = reflectComplex64 \<or> k = reflectComplex128)"

text \<open>
  A foldable key: no children, a value string of fewer than 20 bytes, and a string or a
  number.
\<close>

definition foldableKey :: "api_Variable \<Rightarrow> bool" where
  "foldableKey key =
     (api_Children key = [] \<and> length (api_Value key) < 20
      \<and> (Kind key = reflectString \<or> numericKind (Kind key)))"

text \<open>
  What one turn of the map loop does with a pair: \<open>key'\<close> and \<open>val'\<close> are the raw snapshots
  after the turn, \<open>c0\<close> and \<open>c1\<close> the two entries appended to the result.
\<close>

definition pairFolded :: "env \<Rightarrow> api_Variable \<Rightarrow> api_Variable \<Rightarrow> bool
    \<Rightarrow> api_Variable \<Rightarrow> api_Variable \<Rightarrow> Variable option \<Rightarrow> Variable option \<Rightarrow> bool" where
  "pairFolded E key val cf key' val' c0 c1 =
     (\<exists>wv. wrapApiVariable E (set_Name (sliceStr (mapKeyName E key) 1 (length (mapKeyName E key) - 1)) val)
             (mapKeyName E key) [] cf = Some wv
        \<and> c0 = Some wv \<and> c1 = None \<and> key' = key \<and> val' = Variable wv)"

definition pairUnfolded :: "env \<Rightarrow> api_Variable \<Rightarrow> api_Variable \<Rightarrow> int \<Rightarrow> bool
    \<Rightarrow> api_Variable \<Rightarrow> api_Variable \<Rightarrow> Variable option \<Rightarrow> Variable option \<Rightarrow> bool" where
  "pairUnfolded E key val n cf key' val' c0 c1 =
     (\<exists>wk wv. wrapApiVariable E key (''['' @ itoa n @ '' key]'') [] cf = Some wk
        \<and> wrapApiVariable E val (''['' @ itoa n @ '' value]'') [] cf = Some wv
        \<and> c0 = Some wk \<and> c1 = Some wv \<and> key' = Variable wk \<and> val' = Variable wv)"

text \<open>
  The children of a map of two pairs: a string key \<^verbatim>\<open>a\<close> with a boolean value, and a boolean
  key with an integer value.
\<close>

definition exampleMapChildren :: "api_Variable list" where
  "exampleMapChildren =
     [scalar [] ''string'' reflectString ''a'', scalar [] ''bool'' reflectBool ''true'',
      scalar [] ''bool'' reflectBool ''true'', scalar [] ''int'' reflectInt ''7'']"

text \<open>A pointer at a struct with one field \<^verbatim>\<open>x\<close>.\<close>

definition examplePointer :: api_Variable where
  "examplePointer =
     ApiVariable ''p'' 16 False ''*main.T'' reflectPtr [] 0 0
       [ApiVariable [] 32 False ''main.T'' reflectStruct [] 1 0
          [scalar ''x'' ''int'' reflectInt ''7''] []] []"

text \<open>
  An environment with an override at address \<open>0x10\<close> that shows a number in hexadecimal,
  and a custom formatter for the type \<^verbatim>\<open>main.Celsius\<close>.
\<close>

definition exampleHex :: formatter where
  "exampleHex r = (''0x'' @ hexdigits (fst (Atoi (Value r))), hexMode, FloatFmt r)"

definition exampleCustom :: formatter where
  "exampleCustom r = (''custom '' @ Value r, IntMode r, FloatFmt r)"

definition overrideEnv :: env where
  "overrideEnv = \<lparr>varFormat = [16 \<mapsto> exampleHex], CustomFormatters = [''main.Celsius'' \<mapsto> exampleCustom],
     ShortenType = (\<lambda>t. t), Quote = (\<lambda>s. CHR 0x22 # s @ [CHR 0x22])\<rparr>"

text \<open>
  A \<^verbatim>\<open>time.Time\<close> whose \<^verbatim>\<open>wall\<close> field has the bit 63 and the second count of
  1 January 2021, 00:00:00 UTC, and whose \<^verbatim>\<open>ext\<close> field is 5000000000; and one without a field
  \<^verbatim>\<open>ext\<close>.
\<close>

definition exampleTime :: api_Variable where
  "exampleTime =
     ApiVariable ''t'' 16 False ''time.Time'' reflectStruct ''raw'' 0 0
       [scalar ''wall'' ''uint64'' reflectUint ''13831600503529668608'',
        scalar ''ext'' ''int64'' reflectInt ''5000000000''] []"

definition exampleTimeNoExt :: api_Variable where
  "exampleTimeNoExt =
     ApiVariable ''t'' 16 False ''time.Time'' reflectStruct ''raw'' 0 0
       [scalar ''wall'' ''uint64'' reflectUint ''13831600503529668608''] []"

text \<open>
  A display node stands for a raw snapshot when its embedded snapshot has the address, the type,
  the kind and the value string of that snapshot.
\<close>

definition standsFor :: "api_Variable \<Rightarrow> Variable \<Rightarrow> bool" where
  "standsFor raw n =
     (Addr (Variable n) = Addr raw \<and> Type (Variable n) = Type raw \<and> Kind (Variable n) = Kind raw
      \<and> api_Value (Variable n) = api_Value raw)"

text \<open>
  The children of a map node, read two by two: the first node of each pair is there; the second
  may be \<^verbatim>\<open>nil\<close>.
\<close>

fun pairsAligned :: "Variable option list \<Rightarrow> bool" where
  "pairsAligned [] = True"
| "pairsAligned [a] = False"
| "pairsAligned (a # b # rest) = (a \<noteq> None \<and> pairsAligned rest)"

text \<open>
  A slice of three integers of which one is loaded, in a state where no load is running.
\<close>

definition exampleNode :: Variable where
  "exampleNode = MkVariable (ApiVariable ''xs'' 16 False ''[]int'' reflectSlice [] 3 3 [] [])
     0 [] decMode [] False ''xs'' ''[]int'' ''xs'' ''xs''
     [Some (MkVariable (scalar [] ''int'' reflectInt ''5'') 0 ''5'' decMode [] False ''[0]'' ''int'' ''[0]''
        ''xs[0]'' [])]"

definition exampleState :: state where
  "exampleState = \<lparr>additionalLoadRunning = False, heap = [0 \<mapsto> exampleNode], goroutines = [],
     evalCalls = [], scrollback = [], changed = 0\<rparr>"

text \<open>The answer of the debugger for the rest of the slice: two more elements.\<close>

definition exampleSliceReply :: api_Variable where
  "exampleSliceReply = ApiVariable [] 16 False ''[]int'' reflectSlice [] 2 2
     [scalar [] ''int'' reflectInt ''6'', scalar [] ''int'' reflectInt ''7''] []"

text \<open>
  A struct of which only the address is known, the load that was started for it, and the answer
  of the debugger.
\<close>

definition exampleStructNode :: Variable where
  "exampleStructNode = MkVariable (ApiVariable ''t'' 32 True ''main.T'' reflectStruct [] 1 0 [] [])
     0 [] decMode [] True ''t 0'' ''main.T'' ''t'' ''t'' []"

definition exampleStructState :: state where
  "exampleStructState = \<lparr>additionalLoadRunning = True, heap = [0 \<mapsto> exampleStructNode],
     goroutines = [goLoadMoreStruct 0], evalCalls = [], scrollback = [], changed = 0\<rparr>"

definition exampleStructReply :: api_Variable where
  "exampleStructReply = ApiVariable [] 32 False ''main.T'' reflectStruct [] 1 0
     [scalar ''x'' ''int'' reflectInt ''7''] []"

text \<open>
  A map of four pairs of which the two pairs above are loaded, the node that wrapping it gives,
  the load that was started for this node, and the answer of the debugger with two more pairs.
\<close>

definition exampleMap :: api_Variable where
  "exampleMap = ApiVariable ''m'' 16 False ''map[string]bool'' reflectMap [] 4 0 exampleMapChildren []"

definition exampleMapLoaded :: Variable where
  "exampleMapLoaded = the (wrapApiVariable exampleEnv exampleMap ''m'' ''m'' True)"

definition exampleMapState :: state where
  "exampleMapState = \<lparr>additionalLoadRunning = True, heap = [0 \<mapsto> exampleMapLoaded],
     goroutines = [goLoadMoreMap 0], evalCalls = [], scrollback = [], changed = 0\<rparr>"

definition exampleMapReply :: api_Variable where
  "exampleMapReply = ApiVariable [] 16 False ''map[string]bool'' reflectMap [] 2 0 exampleMapChildren []"

text \<open>
  A map from strings to integers whose keys are too long to be folded: three pairs, of which
  two are loaded, the load that was started for the wrapped node, and the answer of the
  debugger with the third pair.
\<close>

definition exampleLongChildren :: "api_Variable list" where
  "exampleLongChildren =
     [scalar [] ''string'' reflectString ''the first key of the map'', scalar [] ''int'' reflectInt ''1'',
      scalar [] ''string'' reflectString ''the second key of the map'', scalar [] ''int'' reflectInt ''2'']"

definition exampleLongMap :: api_Variable where
  "exampleLongMap = ApiVariable ''m'' 16 False ''map[string]int'' reflectMap [] 3 0 exampleLongChildren []"

definition exampleLongReply :: api_Variable where
  "exampleLongReply = ApiVariable [] 16 False ''map[string]int'' reflectMap [] 1 0
     [scalar [] ''string'' reflectString ''the third key of the map'', scalar [] ''int'' reflectInt ''3''] []"

definition exampleLongState :: state where
  "exampleLongState = \<lparr>additionalLoadRunning = True,
     heap = [0 \<mapsto> the (wrapApiVariable exampleEnv exampleLongMap ''m'' ''m'' True)],
     goroutines = [goLoadMoreMap 0], evalCalls = [], scrollback = [], changed = 0\<rparr>"


section \<open>Lemmas\<close>

subsection \<open>Fields after an assignment\<close>

lemma set_Name_sel [simp]:
  "Name (set_Name x v) = x"
  "Addr (set_Name x v) = Addr v"
  "OnlyAddr (set_Name x v) = OnlyAddr v"
  "Type (set_Name x v) = Type v"
  "Kind (set_Name x v) = Kind v"
  "api_Value (set_Name x v) = api_Value v"
  "Len (set_Name x v) = Len v"
  "Cap (set_Name x v) = Cap v"
  "api_Children (set_Name x v) = api_Children v"
  "Unreadable (set_Name x v) = Unreadable v"
  by (cases v; simp)+

lemma set_Len_sel [simp]:
  "Name (set_Len x v) = Name v"
  "Addr (set_Len x v) = Addr v"
  "OnlyAddr (set_Len x v) = OnlyAddr v"
  "Type (set_Len x v) = Type v"
  "Kind (set_Len x v) = Kind v"
  "api_Value (set_Len x v) = api_Value v"
  "Len (set_Len x v) = x"
  "Cap (set_Len x v) = Cap v"
  "api_Children (set_Len x v) = api_Children v"
  "Unreadable (set_Len x v) = Unreadable v"
  by (cases v; simp)+

lemma set_Unreadable_sel [simp]:
  "Name (set_Unreadable x v) = Name v"
  "Addr (set_Unreadable x v) = Addr v"
  "OnlyAddr (set_Unreadable x v) = OnlyAddr v"
  "Type (set_Unreadable x v) = Type v"
  "Kind (set_Unreadable x v) = Kind v"
  "api_Value (set_Unreadable x v) = api_Value v"
  "Len (set_Unreadable x v) = Len v"
  "Cap (set_Unreadable x v) = Cap v"
  "api_Children (set_Unreadable x v) = api_Children v"
  "Unreadable (set_Unreadable x v) = x"
  by (cases v; simp)+

lemma set_api_Children_sel [simp]:
  "Name (set_api_Children x v) = Name v"
  "Addr (set_api_Children x v) = Addr v"
  "OnlyAddr (set_api_Children x v) = OnlyAddr v"
  "Type (set_api_Children x v) = Type v"
  "Kind (set_api_Children x v) = Kind v"
  "api_Value (set_api_Children x v) = api_Value v"
  "Len (set_api_Children x v) = Len v"
  "Cap (set_api_Children x v) = Cap v"
  "api_Children (set_api_Children x v) = x"
  "Unreadable (set_api_Children x v) = Unreadable v"
  by (cases v; simp)+

lemma set_Variable_sel [simp]:
  "Variable (set_Variable x r) = x"
  "Width (set_Variable x r) = Width r"
  "Value (set_Variable x r) = Value r"
  "IntMode (set_Variable x r) = IntMode r"
  "FloatFmt (set_Variable x r) = FloatFmt r"
  "loading (set_Variable x r) = loading r"
  "Varname (set_Variable x r) = Varname r"
  "ShortType (set_Variable x r) = ShortType r"
  "DisplayName (set_Variable x r) = DisplayName r"
  "Expression (set_Variable x r) = Expression r"
  "Children (set_Variable x r) = Children r"
  by (cases r; simp)+

lemma set_Value_sel [simp]:
  "Variable (set_Value x r) = Variable r"
  "Width (set_Value x r) = Width r"
  "Value (set_Value x r) = x"
  "IntMode (set_Value x r) = IntMode r"
  "FloatFmt (set_Value x r) = FloatFmt r"
  "loading (set_Value x r) = loading r"
  "Varname (set_Value x r) = Varname r"
  "ShortType (set_Value x r) = ShortType r"
  "DisplayName (set_Value x r) = DisplayName r"
  "Expression (set_Value x r) = Expression r"
  "Children (set_Value x r) = Children r"
  by (cases r; simp)+

lemma set_IntMode_sel [simp]:
  "Variable (set_IntMode x r) = Variable r"
  "Width (set_IntMode x r) = Width r"
  "Value (set_IntMode x r) = Value r"
  "IntMode (set_IntMode x r) = x"
  "FloatFmt (set_IntMode x r) = FloatFmt r"
  "loading (set_IntMode x r) = loading r"
  "Varname (set_IntMode x r) = Varname r"
  "ShortType (set_IntMode x r) = ShortType r"
  "DisplayName (set_IntMode x r) = DisplayName r"
  "Expression (set_IntMode x r) = Expression r"
  "Children (set_IntMode x r) = Children r"
  by (cases r; simp)+

lemma set_FloatFmt_sel [simp]:
  "Variable (set_FloatFmt x r) = Variable r"
  "Width (set_FloatFmt x r) = Width r"
  "Value (set_FloatFmt x r) = Value r"
  "IntMode (set_FloatFmt x r) = IntMode r"
  "FloatFmt (set_FloatFmt x r) = x"
  "loading (set_FloatFmt x r) = loading r"
  "Varname (set_FloatFmt x r) = Varname r"
  "ShortType (set_FloatFmt x r) = ShortType r"
  "DisplayName (set_FloatFmt x r) = DisplayName r"
  "Expression (set_FloatFmt x r) = Expression r"
  "Children (set_FloatFmt x r) = Children r"
  by (cases r; simp)+

lemma set_Varname_sel [simp]:
  "Variable (set_Varname x r) = Variable r"
  "Width (set_Varname x r) = Width r"
  "Value (set_Varname x r) = Value r"
  "IntMode (set_Varname x r) = IntMode r"
  "FloatFmt (set_Varname x r) = FloatFmt r"
  "loading (set_Varname x r) = loading r"
  "Varname (set_Varname x r) = x"
  "ShortType (set_Varname x r) = ShortType r"
  "DisplayName (set_Varname x r) = DisplayName r"
  "Expression (set_Varname x r) = Expression r"
  "Children (set_Varname x r) = Children r"
  by (cases r; simp)+

lemma set_ShortType_sel [simp]:
  "Variable (set_ShortType x r) = Variable r"
  "Width (set_ShortType x r) = Width r"
  "Value (set_ShortType x r) = Value r"
  "IntMode (set_ShortType x r) = IntMode r"
  "FloatFmt (set_ShortType x r) = FloatFmt r"
  "loading (set_ShortType x r) = loading r"
  "Varname (set_ShortType x r) = Varname r"
  "ShortType (set_ShortType x r) = x"
  "DisplayName (set_ShortType x r) = DisplayName r"
  "Expression (set_ShortType x r) = Expression r"
  "Children (set_ShortType x r) = Children r"
  by (cases r; simp)+

lemma set_DisplayName_sel [simp]:
  "Variable (set_DisplayName x r) = Variable r"
  "Width (set_DisplayName x r) = Width r"
  "Value (set_DisplayName x r) = Value r"
  "IntMode (set_DisplayName x r) = IntMode r"
  "FloatFmt (set_DisplayName x r) = FloatFmt r"
  "loading (set_DisplayName x r) = loading r"
  "Varname (set_DisplayName x r) = Varname r"
  "ShortType (set_DisplayName x r) = ShortType r"
  "DisplayName (set_DisplayName x r) = x"
  "Expression (set_DisplayName x r) = Expression r"
  "Children (set_DisplayName x r) = Children r"
  by (cases r; simp)+

lemma set_Children_sel [simp]:
  "Variable (set_Children x r) = Variable r"
  "Width (set_Children x r) = Width r"
  "Value (set_Children x r) = Value r"
  "IntMode (set_Children x r) = IntMode r"
  "FloatFmt (set_Children x r) = FloatFmt r"
  "loading (set_Children x r) = loading r"
  "Varname (set_Children x r) = Varname r"
  "ShortType (set_Children x r) = ShortType r"
  "DisplayName (set_Children x r) = DisplayName r"
  "Expression (set_Children x r) = Expression r"
  "Children (set_Children x r) = x"
  by (cases r; simp)+

lemma Variable_eqI:
  "Variable a = Variable b \<Longrightarrow> Width a = Width b \<Longrightarrow> Value a = Value b \<Longrightarrow> IntMode a = IntMode b
   \<Longrightarrow> FloatFmt a = FloatFmt b \<Longrightarrow> loading a = loading b \<Longrightarrow> Varname a = Varname b
   \<Longrightarrow> ShortType a = ShortType b \<Longrightarrow> DisplayName a = DisplayName b
   \<Longrightarrow> Expression a = Expression b \<Longrightarrow> Children a = Children b \<Longrightarrow> a = b"
  by (cases a; cases b) simp

lemma newVariable_sel [simp]:
  "Variable (newVariable v expr) = v"
  "Width (newVariable v expr) = 0"
  "Value (newVariable v expr) = api_Value v"
  "IntMode (newVariable v expr) = decMode"
  "FloatFmt (newVariable v expr) = []"
  "loading (newVariable v expr) = False"
  "Varname (newVariable v expr) = []"
  "ShortType (newVariable v expr) = []"
  "DisplayName (newVariable v expr) = []"
  "Expression (newVariable v expr) = expr"
  "Children (newVariable v expr) = []"
  by (simp_all add: newVariable_def)

lemma applyFormatter_sel [simp]:
  "Variable (applyFormatter f r) = Variable r"
  "Width (applyFormatter f r) = Width r"
  "Value (applyFormatter f r) = fst (f r)"
  "loading (applyFormatter f r) = loading r"
  "Varname (applyFormatter f r) = Varname r"
  "ShortType (applyFormatter f r) = ShortType r"
  "DisplayName (applyFormatter f r) = DisplayName r"
  "Expression (applyFormatter f r) = Expression r"
  "Children (applyFormatter f r) = Children r"
  by (simp_all add: applyFormatter_def split: prod.splits)

lemma formatValue_sel [simp]:
  "Variable (formatValue E v r cf) = Variable r"
  "Width (formatValue E v r cf) = Width r"
  "loading (formatValue E v r cf) = loading r"
  "Varname (formatValue E v r cf) = Varname r"
  "ShortType (formatValue E v r cf) = ShortType r"
  "DisplayName (formatValue E v r cf) = DisplayName r"
  "Expression (formatValue E v r cf) = Expression r"
  "Children (formatValue E v r cf) = Children r"
  by (simp_all add: formatValue_def Let_def)

lemma interfaceData_Some:
  assumes "interfaceData v r' = Some r"
  shows "Variable r = Variable r'" "Width r = Width r'" "Value r = Value r'"
    "IntMode r = IntMode r'" "FloatFmt r = FloatFmt r'" "loading r = loading r'"
    "Varname r = Varname r'" "ShortType r = ShortType r'" "DisplayName r = DisplayName r'"
    "Expression r = Expression r'" "length (Children r) = length (Children r')"
    "Kind v \<noteq> reflectInterface \<Longrightarrow> Children r = Children r'"
  using assms
  by (auto simp: interfaceData_def split: if_splits list.splits option.splits)



lemma wrapApiVariable_unfold:
  "wrapApiVariable E v name expr cf =
     (case wrapApiVariables E (api_Children v) (Kind v) 0 expr cf of
        None \<Rightarrow> None
      | Some (vs', cs) \<Rightarrow>
          interfaceData v (set_Children cs (set_Variable (set_api_Children vs' v)
            (set_Varname (if name \<noteq> [] then name else Type v)
              (set_ShortType (ShortenType E (Type v))
                (set_DisplayName (if name \<noteq> [] then name else Type v)
                  (formatValue E v (newVariable v expr) cf)))))))"
  by (simp add: wrapApiVariable.simps Let_def split: option.splits prod.splits)

lemma wrapApiVariable_Some:
  assumes "wrapApiVariable E v name expr cf = Some r"
  shows "Value r = Value (formatValue E v (newVariable v expr) cf)"
    and "DisplayName r = (if name \<noteq> [] then name else Type v)"
    and "Varname r = (if name \<noteq> [] then name else Type v)"
    and "ShortType r = ShortenType E (Type v)"
    and "Expression r = expr"
    and "Width r = 0"
    and "loading r = False"
    and "\<exists>vs'. Variable r = set_api_Children vs' v"
    and "\<exists>vs' cs. wrapApiVariables E (api_Children v) (Kind v) 0 expr cf = Some (vs', cs)
           \<and> Variable r = set_api_Children vs' v
           \<and> length (Children r) = length cs
           \<and> (Kind v \<noteq> reflectInterface \<longrightarrow> Children r = cs)"
proof -
  from assms obtain vs' cs r' where w: "wrapApiVariables E (api_Children v) (Kind v) 0 expr cf = Some (vs', cs)"
    and r': "r' = set_Children cs (set_Variable (set_api_Children vs' v)
            (set_Varname (if name \<noteq> [] then name else Type v)
              (set_ShortType (ShortenType E (Type v))
                (set_DisplayName (if name \<noteq> [] then name else Type v)
                  (formatValue E v (newVariable v expr) cf)))))"
    and i: "interfaceData v r' = Some r"
    by (auto simp: wrapApiVariable_unfold split: option.splits)
  note f = interfaceData_Some [OF i]
  show "Value r = Value (formatValue E v (newVariable v expr) cf)" using f(3) r' by simp
  show "DisplayName r = (if name \<noteq> [] then name else Type v)" using f(9) r' by simp
  show "Varname r = (if name \<noteq> [] then name else Type v)" using f(7) r' by simp
  show "ShortType r = ShortenType E (Type v)" using f(8) r' by simp
  show "Expression r = expr" using f(10) r' by simp
  show "Width r = 0" using f(2) r' by simp
  show "loading r = False" using f(6) r' by simp
  show "\<exists>vs'. Variable r = set_api_Children vs' v" using f(1) r' by auto
  show "\<exists>vs' cs. wrapApiVariables E (api_Children v) (Kind v) 0 expr cf = Some (vs', cs)
           \<and> Variable r = set_api_Children vs' v
           \<and> length (Children r) = length cs
           \<and> (Kind v \<noteq> reflectInterface \<longrightarrow> Children r = cs)"
    using f(1,11,12) r' w by auto
qed

lemma wrapApiVariable_Kind:
  "wrapApiVariable E v name expr cf = Some r \<Longrightarrow> Kind (Variable r) = Kind v"
  using wrapApiVariable_Some(8) [of E v name expr cf r] by auto

text \<open>The second loop: one node for each raw child, none of them \<^verbatim>\<open>nil\<close>.\<close>

lemma wrapLoop_Some:
  "wrapLoop E vs kind start i expr cf = Some (vs', cs) \<Longrightarrow>
     length cs = length vs \<and> length vs' = length vs \<and>
     (\<forall>j < length vs. \<exists>w.
        wrapApiVariable E (vs ! j) (childName kind start (i + int j) (vs ! j))
          (childExpr kind start (i + int j) expr (vs ! j)) cf = Some w
        \<and> cs ! j = Some w \<and> vs' ! j = Variable w)"
proof (induction vs arbitrary: i vs' cs)
  case Nil
  then show ?case by simp
next
  case (Cons vi rest)
  from Cons.prems obtain w vs1 cs1 where
    w: "wrapApiVariable E vi (childName kind start i vi) (childExpr kind start i expr vi) cf = Some w"
    and r: "wrapLoop E rest kind start (i + 1) expr cf = Some (vs1, cs1)"
    and e: "vs' = Variable w # vs1" "cs = Some w # cs1"
    by (auto split: option.splits)
  note IH = Cons.IH [OF r]
  show ?case
  proof (intro conjI allI impI)
    show "length cs = length (vi # rest)" using IH e by simp
    show "length vs' = length (vi # rest)" using IH e by simp
    fix j assume j: "j < length (vi # rest)"
    show "\<exists>w. wrapApiVariable E ((vi # rest) ! j) (childName kind start (i + int j) ((vi # rest) ! j))
          (childExpr kind start (i + int j) expr ((vi # rest) ! j)) cf = Some w
        \<and> cs ! j = Some w \<and> vs' ! j = Variable w"
    proof (cases j)
      case 0
      then show ?thesis using w e by simp
    next
      case (Suc k)
      with j have "k < length rest" by simp
      with IH obtain w' where "wrapApiVariable E (rest ! k) (childName kind start (i + 1 + int k) (rest ! k))
          (childExpr kind start (i + 1 + int k) expr (rest ! k)) cf = Some w'
        \<and> cs1 ! k = Some w' \<and> vs1 ! k = Variable w'" by blast
      then show ?thesis using Suc e by (simp add: ac_simps)
    qed
  qed
qed



lemma wf_raw_iff:
  "wf_raw v \<longleftrightarrow> (Kind v = reflectMap \<longrightarrow> even (length (api_Children v))) \<and> list_all wf_raw (api_Children v)"
  by (cases v) simp

lemma wf_raw_set_Name [simp]: "wf_raw (set_Name x v) = wf_raw v"
  by (cases v) simp

lemma wrapLoop_no_nil:
  assumes "wrapLoop E vs kind start i expr cf = Some (vs', cs)"
  shows "None \<notin> set cs"
proof
  assume "None \<in> set cs"
  then obtain j where j: "j < length cs" "cs ! j = None" by (auto simp: in_set_conv_nth)
  with wrapLoop_Some [OF assms] show False by auto
qed

lemma wrapApiVariable_Ptr_Children:
  assumes "wrapApiVariable E v name expr cf = Some w" "Kind v = reflectPtr"
  shows "None \<notin> set (Children w)"
proof -
  from wrapApiVariable_Some(9) [OF assms(1)] assms(2) obtain vs' cs where
    "wrapApiVariables E (api_Children v) reflectPtr 0 expr cf = Some (vs', cs)" "Children w = cs"
    by auto
  then show ?thesis using wrapLoop_no_nil by (auto simp: wrapApiVariables.simps)
qed

lemma wrapLoop_elems:
  assumes "wrapLoop E vs kind start i expr cf = Some (vs', cs)" "c \<in> set cs"
  shows "\<exists>w. c = Some w \<and> (Kind (Variable w) = reflectPtr \<longrightarrow> None \<notin> set (Children w))"
proof -
  from assms(2) obtain j where j: "j < length cs" "cs ! j = c" by (auto simp: in_set_conv_nth)
  with wrapLoop_Some [OF assms(1)] obtain w where
    w: "wrapApiVariable E (vs ! j) (childName kind start (i + int j) (vs ! j))
          (childExpr kind start (i + int j) expr (vs ! j)) cf = Some w" "c = Some w"
    by auto
  show ?thesis
    using w wrapApiVariable_Ptr_Children [OF w(1)] wrapApiVariable_Kind [OF w(1)] by auto
qed

lemma interfaceData_total:
  assumes "Kind v = reflectInterface \<Longrightarrow>
     (\<forall>c \<in> set (Children r). \<exists>w. c = Some w \<and> (Kind (Variable w) = reflectPtr \<longrightarrow> None \<notin> set (Children w)))"
  shows "\<exists>r'. interfaceData v r = Some r'"
proof (cases "Kind v = reflectInterface")
  case False
  then show ?thesis by (simp add: interfaceData_def)
next
  case True
  note a = assms [OF True]
  show ?thesis
  proof (cases "Children r")
    case Nil
    then show ?thesis by (simp add: interfaceData_def)
  next
    case (Cons c rest)
    with a obtain w where w: "c = Some w" "Kind (Variable w) = reflectPtr \<longrightarrow> None \<notin> set (Children w)"
      by auto
    show ?thesis
      using Cons w by (cases "Children w") (auto simp: interfaceData_def split: option.splits)
  qed
qed

lemma wrapApiVariable_total_step:
  assumes "wrapApiVariables E (api_Children v) (Kind v) 0 expr cf = Some (vs', cs)"
  shows "\<exists>r. wrapApiVariable E v name expr cf = Some r"
proof -
  let ?r = "set_Children cs (set_Variable (set_api_Children vs' v)
            (set_Varname (if name \<noteq> [] then name else Type v)
              (set_ShortType (ShortenType E (Type v))
                (set_DisplayName (if name \<noteq> [] then name else Type v)
                  (formatValue E v (newVariable v expr) cf)))))"
  have "\<exists>r'. interfaceData v ?r = Some r'"
  proof (rule interfaceData_total)
    assume k: "Kind v = reflectInterface"
    with assms have "wrapLoop E (api_Children v) reflectInterface 0 0 expr cf = Some (vs', cs)"
      by (simp add: wrapApiVariables.simps)
    from wrapLoop_elems [OF this]
    show "\<forall>c \<in> set (Children ?r). \<exists>w. c = Some w \<and> (Kind (Variable w) = reflectPtr \<longrightarrow> None \<notin> set (Children w))"
      by simp
  qed
  then show ?thesis using assms by (simp add: wrapApiVariable_unfold)
qed

lemma wrap_total:
  "wf_raw v \<Longrightarrow> \<exists>r. wrapApiVariable E v name expr cf = Some r"
  "list_all wf_raw vs \<Longrightarrow> (kind = reflectMap \<longrightarrow> even (length vs))
     \<Longrightarrow> \<exists>r. wrapApiVariables E vs kind start expr cf = Some r"
  "list_all wf_raw vs \<Longrightarrow> even (length vs) \<Longrightarrow> \<exists>r. wrapMapLoop E vs start i cf = Some r"
  "list_all wf_raw vs \<Longrightarrow> \<exists>r. wrapLoop E vs kind start i expr cf = Some r"
proof (induction E v name expr cf and E vs kind start expr cf and E vs start i cf
         and E vs kind start i expr cf
       rule: wrapApiVariable_wrapApiVariables_wrapMapLoop_wrapLoop.induct)
  case (1 E v name expr customFormatters)
  from "1.prems" have a: "list_all wf_raw (api_Children v)"
      "Kind v = reflectMap \<longrightarrow> even (length (api_Children v))"
    using wf_raw_iff [of v] by blast+
  have "\<exists>r. wrapApiVariables E (api_Children v) (Kind v) 0 expr customFormatters = Some r"
    using "1.IH" [OF refl refl refl refl refl a] by simp
  then show ?case using wrapApiVariable_total_step by (metis surj_pair)
next
  case (2 E vs kind start expr customFormatters)
  then show ?case by (simp add: wrapApiVariables.simps)
next
  case (3 E start i customFormatters)
  then show ?case by simp
next
  case (4 E key start i customFormatters)
  then show ?case by simp
next
  case (5 E key "value" rest start i customFormatters)
  from "5.prems" have wf: "wf_raw key" "wf_raw value" "list_all wf_raw rest" "even (length rest)"
    by simp_all
  show ?case
  proof (cases "mapKeyName E key \<noteq> []")
    case True
    from "5.IH"(1) [OF refl True] wf(2) obtain wv where
      wv: "wrapApiVariable E (set_Name (sliceStr (mapKeyName E key) 1 (length (mapKeyName E key) - 1)) value)
                (mapKeyName E key) [] customFormatters = Some wv" by auto
    from "5.IH"(2) [OF refl True wv wf(3,4)] obtain r where
      "wrapMapLoop E rest start (i + 2) customFormatters = Some r" by auto
    then show ?thesis using True wv by (cases r) simp
  next
    case False
    from "5.IH"(3) [OF refl False wf(1)] obtain wk where
      wk: "wrapApiVariable E key (''['' @ itoa (start + i div 2) @ '' key]'') [] customFormatters = Some wk"
      by auto
    from "5.IH"(4) [OF refl False wk wf(2)] obtain wv where
      wv: "wrapApiVariable E value (''['' @ itoa (start + i div 2) @ '' value]'') [] customFormatters = Some wv"
      by auto
    from "5.IH"(5) [OF refl False wk wv wf(3,4)] obtain r where
      "wrapMapLoop E rest start (i + 2) customFormatters = Some r" by auto
    then show ?thesis using False wk wv by (cases r) simp
  qed
next
  case (6 E kind start i expr customFormatters)
  then show ?case by simp
next
  case (7 E vi rest kind start i expr customFormatters)
  from "7.prems" have wf: "wf_raw vi" "list_all wf_raw rest" by simp_all
  from "7.IH"(1) [OF wf(1)] obtain w where
    w: "wrapApiVariable E vi (childName kind start i vi) (childExpr kind start i expr vi)
          customFormatters = Some w" by auto
  from "7.IH"(2) [OF w wf(2)] obtain r where
    "wrapLoop E rest kind start (i + 1) expr customFormatters = Some r" by auto
  then show ?case using w by (cases r) simp
qed

lemma wrapMapLoop_Some:
  "wrapMapLoop E vs start i cf = Some (vs', cs) \<Longrightarrow>
     even (length vs) \<and> length cs = length vs \<and> length vs' = length vs \<and>
     (\<forall>j. 2 * j + 1 < length vs \<longrightarrow>
        (if mapKeyName E (vs ! (2 * j)) \<noteq> []
         then pairFolded E (vs ! (2 * j)) (vs ! (2 * j + 1)) cf
                (vs' ! (2 * j)) (vs' ! (2 * j + 1)) (cs ! (2 * j)) (cs ! (2 * j + 1))
         else pairUnfolded E (vs ! (2 * j)) (vs ! (2 * j + 1)) (start + (i + 2 * int j) div 2) cf
                (vs' ! (2 * j)) (vs' ! (2 * j + 1)) (cs ! (2 * j)) (cs ! (2 * j + 1))))"
proof (induction vs arbitrary: i vs' cs rule: induct_list012)
  case 1
  then show ?case by simp
next
  case (2 x)
  then show ?case by simp
next
  case (3 key val rest)
  from "3.prems" obtain a b c0 c1 vs1 cs1 where
    r: "wrapMapLoop E rest start (i + 2) cf = Some (vs1, cs1)"
    and h: "if mapKeyName E key \<noteq> []
            then pairFolded E key val cf a b c0 c1
            else pairUnfolded E key val (start + i div 2) cf a b c0 c1"
    and e: "vs' = a # b # vs1" "cs = c0 # c1 # cs1"
    by (auto simp: Let_def pairFolded_def pairUnfolded_def split: if_splits option.splits)
  note IH = "3.IH"(1) [OF r]
  show ?case
  proof (intro conjI allI impI)
    show "even (length (key # val # rest))" using IH by simp
    show "length cs = length (key # val # rest)" using IH e by simp
    show "length vs' = length (key # val # rest)" using IH e by simp
    fix j assume j: "2 * j + 1 < length (key # val # rest)"
    show "if mapKeyName E ((key # val # rest) ! (2 * j)) \<noteq> []
         then pairFolded E ((key # val # rest) ! (2 * j)) ((key # val # rest) ! (2 * j + 1)) cf
                (vs' ! (2 * j)) (vs' ! (2 * j + 1)) (cs ! (2 * j)) (cs ! (2 * j + 1))
         else pairUnfolded E ((key # val # rest) ! (2 * j)) ((key # val # rest) ! (2 * j + 1))
                (start + (i + 2 * int j) div 2) cf
                (vs' ! (2 * j)) (vs' ! (2 * j + 1)) (cs ! (2 * j)) (cs ! (2 * j + 1))"
    proof (cases j)
      case 0
      then show ?thesis using h e by simp
    next
      case (Suc k)
      with j have k: "2 * k + 1 < length rest" by simp
      have a: "(i + 2 * int (Suc k)) div 2 = (i + 2 + 2 * int k) div 2" by (simp add: algebra_simps)
      from IH k have "if mapKeyName E (rest ! (2 * k)) \<noteq> []
         then pairFolded E (rest ! (2 * k)) (rest ! (2 * k + 1)) cf
                (vs1 ! (2 * k)) (vs1 ! (2 * k + 1)) (cs1 ! (2 * k)) (cs1 ! (2 * k + 1))
         else pairUnfolded E (rest ! (2 * k)) (rest ! (2 * k + 1)) (start + (i + 2 + 2 * int k) div 2) cf
                (vs1 ! (2 * k)) (vs1 ! (2 * k + 1)) (cs1 ! (2 * k)) (cs1 ! (2 * k + 1))" by blast
      then show ?thesis unfolding Suc a e by (simp split: if_splits)
    qed
  qed
qed

lemma mapKeyName_eq:
  "mapKeyName E key =
     (if foldableKey key
      then ''['' @ (if Kind key = reflectString then Quote E (api_Value key) else api_Value key) @ '']''
      else [])"
  by (auto simp: mapKeyName_def foldableKey_def numericKind_def minInlineKeyValueLen_def)

lemma mapKeyName_foldable: "mapKeyName E key \<noteq> [] \<longleftrightarrow> foldableKey key"
  by (simp add: mapKeyName_eq)

lemma slice_keyname [simp]: "sliceStr (''['' @ k @ '']'') 1 (length (''['' @ k @ '']'') - 1) = k"
  by (simp add: sliceStr_def)

lemma wrapMap_pair:
  assumes "list_all wf_raw vs" and "even (length vs)"
  shows "\<exists>vs' cs. wrapApiVariables E vs reflectMap start expr cf = Some (vs', cs)
     \<and> length cs = length vs
     \<and> (\<forall>j. 2 * j + 1 < length vs \<longrightarrow>
          (foldableKey (vs ! (2 * j)) \<longrightarrow>
             (\<exists>n. cs ! (2 * j) = Some n \<and> cs ! (2 * j + 1) = None
                \<and> wrapApiVariable E (set_Name (if Kind (vs ! (2 * j)) = reflectString
                        then Quote E (api_Value (vs ! (2 * j))) else api_Value (vs ! (2 * j))) (vs ! (2 * j + 1)))
                     (''['' @ (if Kind (vs ! (2 * j)) = reflectString
                        then Quote E (api_Value (vs ! (2 * j))) else api_Value (vs ! (2 * j))) @ '']'') [] cf = Some n))
        \<and> (\<not> foldableKey (vs ! (2 * j)) \<longrightarrow>
             (\<exists>nk nv. cs ! (2 * j) = Some nk \<and> cs ! (2 * j + 1) = Some nv
                \<and> wrapApiVariable E (vs ! (2 * j)) (''['' @ itoa (start + int j) @ '' key]'') [] cf = Some nk
                \<and> wrapApiVariable E (vs ! (2 * j + 1)) (''['' @ itoa (start + int j) @ '' value]'') [] cf = Some nv)))"
proof -
  from wrap_total(3) [OF assms, of E start 0 cf] obtain vs' cs where
    w: "wrapMapLoop E vs start 0 cf = Some (vs', cs)" by auto
  note m = wrapMapLoop_Some [OF w]
  have "\<forall>j. 2 * j + 1 < length vs \<longrightarrow>
          (foldableKey (vs ! (2 * j)) \<longrightarrow>
             (\<exists>n. cs ! (2 * j) = Some n \<and> cs ! (2 * j + 1) = None
                \<and> wrapApiVariable E (set_Name (if Kind (vs ! (2 * j)) = reflectString
                        then Quote E (api_Value (vs ! (2 * j))) else api_Value (vs ! (2 * j))) (vs ! (2 * j + 1)))
                     (''['' @ (if Kind (vs ! (2 * j)) = reflectString
                        then Quote E (api_Value (vs ! (2 * j))) else api_Value (vs ! (2 * j))) @ '']'') [] cf = Some n))
        \<and> (\<not> foldableKey (vs ! (2 * j)) \<longrightarrow>
             (\<exists>nk nv. cs ! (2 * j) = Some nk \<and> cs ! (2 * j + 1) = Some nv
                \<and> wrapApiVariable E (vs ! (2 * j)) (''['' @ itoa (start + int j) @ '' key]'') [] cf = Some nk
                \<and> wrapApiVariable E (vs ! (2 * j + 1)) (''['' @ itoa (start + int j) @ '' value]'') [] cf = Some nv))"
  proof (intro allI impI conjI)
    fix j assume j: "2 * j + 1 < length vs" and f: "foldableKey (vs ! (2 * j))"
    let ?k = "if Kind (vs ! (2 * j)) = reflectString
                        then Quote E (api_Value (vs ! (2 * j))) else api_Value (vs ! (2 * j))"
    have kn: "mapKeyName E (vs ! (2 * j)) = ''['' @ ?k @ '']''" using f by (simp add: mapKeyName_eq)
    from m j kn have "pairFolded E (vs ! (2 * j)) (vs ! (2 * j + 1)) cf
                (vs' ! (2 * j)) (vs' ! (2 * j + 1)) (cs ! (2 * j)) (cs ! (2 * j + 1))"
      by (auto split: if_splits)
    then show "\<exists>n. cs ! (2 * j) = Some n \<and> cs ! (2 * j + 1) = None
                \<and> wrapApiVariable E (set_Name ?k (vs ! (2 * j + 1))) (''['' @ ?k @ '']'') [] cf = Some n"
      unfolding pairFolded_def kn slice_keyname by auto
  next
    fix j assume j: "2 * j + 1 < length vs" and f: "\<not> foldableKey (vs ! (2 * j))"
    have kn: "mapKeyName E (vs ! (2 * j)) = []" using f by (simp add: mapKeyName_eq)
    from m j kn have "pairUnfolded E (vs ! (2 * j)) (vs ! (2 * j + 1)) (start + (0 + 2 * int j) div 2) cf
                (vs' ! (2 * j)) (vs' ! (2 * j + 1)) (cs ! (2 * j)) (cs ! (2 * j + 1))"
      by (auto split: if_splits)
    then show "\<exists>nk nv. cs ! (2 * j) = Some nk \<and> cs ! (2 * j + 1) = Some nv
                \<and> wrapApiVariable E (vs ! (2 * j)) (''['' @ itoa (start + int j) @ '' key]'') [] cf = Some nk
                \<and> wrapApiVariable E (vs ! (2 * j + 1)) (''['' @ itoa (start + int j) @ '' value]'') [] cf = Some nv"
      unfolding pairUnfolded_def by auto
  qed
  then show ?thesis using w m by (simp add: wrapApiVariables.simps)
qed

lemma exampleMapChildren_facts:
  "list_all wf_raw exampleMapChildren" "even (length exampleMapChildren)"
  "length exampleMapChildren = 4"
  "foldableKey (exampleMapChildren ! 0)" "\<not> foldableKey (exampleMapChildren ! 2)"
  "Kind (exampleMapChildren ! 0) = reflectString" "Kind (exampleMapChildren ! 2) = reflectBool"
  "api_Value (exampleMapChildren ! 0) = ''a''"
  "Quote exampleEnv ''a'' = [CHR 0x22, CHR ''a'', CHR 0x22]"
  by (simp_all add: exampleMapChildren_def scalar_def foldableKey_def numericKind_def exampleEnv_def)

lemma HasPrefix_iff: "HasPrefix s p \<longleftrightarrow> (\<exists>q. s = p @ q)"
proof
  assume "HasPrefix s p"
  then have "take (length p) s = p" by (simp add: HasPrefix_def)
  then have "s = p @ drop (length p) s" using append_take_drop_id [of "length p" s] by simp
  then show "\<exists>q. s = p @ q" by (rule exI)
next
  assume "\<exists>q. s = p @ q"
  then show "HasPrefix s p" by (auto simp: HasPrefix_def)
qed

lemma HasSuffix_iff: "HasSuffix s p \<longleftrightarrow> (\<exists>q. s = q @ p)"
proof
  assume "HasSuffix s p"
  then have "drop (length s - length p) s = p" by (simp add: HasSuffix_def)
  then have "s = take (length s - length p) s @ p"
    using append_take_drop_id [of "length s - length p" s] by simp
  then show "\<exists>q. s = q @ p" by (rule exI)
next
  assume "\<exists>q. s = q @ p"
  then show "HasSuffix s p" by (auto simp: HasSuffix_def)
qed

lemma ends_with_parens:
  assumes "''(*('' @ q1 = q2 @ ''))''"
  shows "\<exists>inner. q1 = inner @ ''))''"
proof -
  from assms have "rev (''(*('' @ q1) = rev (q2 @ ''))'')" by simp
  then have r: "rev q1 @ ''(*('' = CHR '')'' # CHR '')'' # rev q2" by simp
  show ?thesis
  proof (cases "rev q1")
    case Nil
    with r show ?thesis by simp
  next
    case (Cons a zs)
    note c1 = this
    show ?thesis
    proof (cases zs)
      case Nil
      with r c1 show ?thesis by simp
    next
      case (Cons b ws)
      with r c1 have "rev q1 = CHR '')'' # CHR '')'' # ws" by simp
      then have "rev (rev q1) = rev (CHR '')'' # CHR '')'' # ws)" by (rule arg_cong)
      then have "q1 = rev ws @ ''))''" by simp
      then show ?thesis by (rule exI)
    qed
  qed
qed

lemma wrapped_iff:
  "HasPrefix x ''(*('' \<and> HasSuffix x ''))'' \<longleftrightarrow> (\<exists>inner. x = ''(*('' @ inner @ ''))'')"
proof
  assume a: "HasPrefix x ''(*('' \<and> HasSuffix x ''))''"
  from a [THEN conjunct1] have "\<exists>q. x = ''(*('' @ q" by (simp only: HasPrefix_iff)
  then obtain q1 where q1: "x = ''(*('' @ q1" ..
  from a [THEN conjunct2] have "\<exists>q. x = q @ ''))''" by (simp only: HasSuffix_iff)
  then obtain q2 where q2: "x = q2 @ ''))''" ..
  from q1 [symmetric] q2 have "''(*('' @ q1 = q2 @ ''))''" by (rule trans)
  from ends_with_parens [OF this] obtain inner where i: "q1 = inner @ ''))''" ..
  from i have "''(*('' @ q1 = ''(*('' @ inner @ ''))''" by (rule arg_cong)
  with q1 have "x = ''(*('' @ inner @ ''))''" by (rule trans)
  then show "\<exists>inner. x = ''(*('' @ inner @ ''))''" by (rule exI [where x = inner])
next
  assume "\<exists>inner. x = ''(*('' @ inner @ ''))''"
  then obtain inner where x: "x = ''(*('' @ inner @ ''))''" ..
  from x have "\<exists>q. x = ''(*('' @ q" by (rule exI [where x = "inner @ ''))''"])
  then have p: "HasPrefix x ''(*(''" by (simp only: HasPrefix_iff)
  have "''(*('' @ inner @ ''))'' = (''(*('' @ inner) @ ''))''" by (simp only: append_assoc)
  with x have "x = (''(*('' @ inner) @ ''))''" by (rule trans)
  then have "\<exists>q. x = q @ ''))''" by (rule exI [where x = "''(*('' @ inner"])
  then have s: "HasSuffix x ''))''" by (simp only: HasSuffix_iff)
  from p s show "HasPrefix x ''(*('' \<and> HasSuffix x ''))''" by (rule conjI)
qed

lemma childExpr_field:
  assumes "kind = reflectStruct \<or> kind = reflectChan" "expr \<noteq> []"
  shows "childExpr kind start i expr vi =
           (if HasPrefix expr ''(*('' \<and> HasSuffix expr ''))''
            then sliceStr expr 3 (length expr - 2) else expr) @ ''.'' @ Name vi"
  using assms by (auto simp: childExpr_def Let_def)

lemma childExpr_ptr:
  "expr \<noteq> [] \<Longrightarrow> childExpr reflectPtr start i expr vi = ''(*('' @ expr @ ''))''"
  by (simp add: childExpr_def)

lemma slice_wrapped:
  "sliceStr (''(*('' @ inner @ ''))'') 3 (length (''(*('' @ inner @ ''))'') - 2) = inner"
  by (simp add: sliceStr_def numeral_3_eq_3)

lemma wrapLoop_nth:
  assumes "list_all wf_raw vs" "kind \<noteq> reflectMap" "i < length vs"
  shows "\<exists>vs' cs n. wrapApiVariables E vs kind start expr cf = Some (vs', cs)
     \<and> length cs = length vs \<and> cs ! i = Some n
     \<and> wrapApiVariable E (vs ! i) (childName kind start (int i) (vs ! i))
          (childExpr kind start (int i) expr (vs ! i)) cf = Some n"
proof -
  from wrap_total(4) [OF assms(1), of E kind start 0 expr cf] obtain vs' cs where
    w: "wrapLoop E vs kind start 0 expr cf = Some (vs', cs)" by auto
  from wrapLoop_Some [OF w] assms(3) obtain n where
    "length cs = length vs" "cs ! i = Some n"
    "wrapApiVariable E (vs ! i) (childName kind start (0 + int i) (vs ! i))
          (childExpr kind start (0 + int i) expr (vs ! i)) cf = Some n" by blast
  then show ?thesis using w assms(2) by (simp add: wrapApiVariables.simps)
qed

lemma field_expression:
  assumes "list_all wf_raw vs" and "kind = reflectStruct \<or> kind = reflectChan"
    and "expr \<noteq> []" and "i < length vs"
  shows "\<exists>vs' cs n. wrapApiVariables E vs kind start expr cf = Some (vs', cs)
     \<and> cs ! i = Some n
     \<and> ((\<forall>inner. expr \<noteq> ''(*('' @ inner @ ''))'') \<longrightarrow> Expression n = expr @ ''.'' @ Name (vs ! i))
     \<and> (\<forall>inner. expr = ''(*('' @ inner @ ''))'' \<longrightarrow> Expression n = inner @ ''.'' @ Name (vs ! i))"
proof -
  from assms(2) have k: "kind \<noteq> reflectMap" by auto
  from wrapLoop_nth [OF assms(1) k assms(4), of E start expr cf] obtain vs' cs n where
    w: "wrapApiVariables E vs kind start expr cf = Some (vs', cs)" "cs ! i = Some n"
    and n: "wrapApiVariable E (vs ! i) (childName kind start (int i) (vs ! i))
          (childExpr kind start (int i) expr (vs ! i)) cf = Some n" by blast
  have e: "Expression n = (if HasPrefix expr ''(*('' \<and> HasSuffix expr ''))''
            then sliceStr expr 3 (length expr - 2) else expr) @ ''.'' @ Name (vs ! i)"
    using wrapApiVariable_Some(5) [OF n] childExpr_field [OF assms(2,3)] by simp
  have A: "(\<forall>inner. expr \<noteq> ''(*('' @ inner @ ''))'') \<longrightarrow> Expression n = expr @ ''.'' @ Name (vs ! i)"
  proof
    assume "\<forall>inner. expr \<noteq> ''(*('' @ inner @ ''))''"
    then have c: "\<not> (HasPrefix expr ''(*('' \<and> HasSuffix expr ''))'')" by (simp only: wrapped_iff) simp
    show "Expression n = expr @ ''.'' @ Name (vs ! i)" by (simp only: e if_not_P [OF c])
  qed
  have B: "\<forall>inner. expr = ''(*('' @ inner @ ''))'' \<longrightarrow> Expression n = inner @ ''.'' @ Name (vs ! i)"
  proof (intro allI impI)
    fix inner assume x: "expr = ''(*('' @ inner @ ''))''"
    then have "\<exists>inner. expr = ''(*('' @ inner @ ''))''" by (rule exI [where x = inner])
    then have p: "HasPrefix expr ''(*('' \<and> HasSuffix expr ''))''" by (simp only: wrapped_iff)
    have "sliceStr expr 3 (length expr - 2) = inner" by (subst (1 2) x) (rule slice_wrapped)
    then show "Expression n = inner @ ''.'' @ Name (vs ! i)" using e p by simp
  qed
  from w A B show ?thesis by blast
qed

lemma pointer_chain_expression:
  assumes "wf_raw p" and "Kind p = reflectPtr" and "api_Children p = [s]"
    and "Kind s = reflectStruct \<or> Kind s = reflectChan"
    and "j < length (api_Children s)" and "expr \<noteq> []"
  shows "\<exists>r c g. wrapApiVariable E p name expr cf = Some r \<and> Children r = [Some c]
     \<and> Expression c = ''(*('' @ expr @ ''))''
     \<and> Children c ! j = Some g \<and> Expression g = expr @ ''.'' @ Name (api_Children s ! j)"
proof -
  from assms(1,3) have wfs: "list_all wf_raw [s]" "wf_raw s" using wf_raw_iff [of p] by auto
  then have wfc: "list_all wf_raw (api_Children s)" using wf_raw_iff [of s] by auto
  from wrap_total(1) [OF assms(1)] obtain r where r: "wrapApiVariable E p name expr cf = Some r"
    by blast
  from wrapApiVariable_Some(9) [OF r] assms(2,3) obtain vs' cs where
    w1: "wrapApiVariables E [s] reflectPtr 0 expr cf = Some (vs', cs)" and c1: "Children r = cs"
    by auto
  from wrapLoop_nth [of "[s]" reflectPtr 0 E 0 expr cf] wfs(1) w1 obtain c where
    c: "length cs = 1" "cs ! 0 = Some c"
      "wrapApiVariable E s (childName reflectPtr 0 0 s) (childExpr reflectPtr 0 0 expr s) cf = Some c"
    by auto
  from c(1,2) have cs: "cs = [Some c]" by (cases cs) auto
  have ec: "Expression c = ''(*('' @ expr @ ''))''"
    using wrapApiVariable_Some(5) [OF c(3)] childExpr_ptr [OF assms(6)] by simp
  from assms(4) have ks: "Kind s \<noteq> reflectInterface" by auto
  from wrapApiVariable_Some(9) [OF c(3)] ks obtain vs2 cs2 where
    w2: "wrapApiVariables E (api_Children s) (Kind s) 0 (childExpr reflectPtr 0 0 expr s) cf = Some (vs2, cs2)"
    and c2: "Children c = cs2" by auto
  have ne: "''(*('' @ expr @ ''))'' \<noteq> []" by simp
  from field_expression [OF wfc assms(4) ne assms(5), of E 0 cf] w2 obtain g where
    g: "cs2 ! j = Some g"
       "\<forall>inner. ''(*('' @ expr @ ''))'' = ''(*('' @ inner @ ''))'' \<longrightarrow> Expression g = inner @ ''.'' @ Name (api_Children s ! j)"
    unfolding childExpr_ptr [OF assms(6)] by auto
  from g(2) have "Expression g = expr @ ''.'' @ Name (api_Children s ! j)" by simp
  with r c1 cs ec c2 g(1) show ?thesis by simp
qed

lemma parseUintLoop_bounds:
  "0 \<le> n \<Longrightarrow> n \<le> maxUint64 \<Longrightarrow> parseUintLoop n cs = (w, None) \<Longrightarrow> 0 \<le> w \<and> w \<le> maxUint64"
proof (induction cs arbitrary: n)
  case Nil
  then show ?case by simp
next
  case (Cons c cs)
  from Cons.prems(3) have d: "isDigit c" and lt: "\<not> n \<ge> maxUint64 div 10 + 1"
    and n1: "\<not> n * 10 + (of_char c - 48) > maxUint64"
    and rec: "parseUintLoop (n * 10 + (of_char c - 48)) cs = (w, None)"
    by (auto simp: Let_def split: if_splits)
  from d have "0 \<le> (of_char c :: int) - 48" by (simp add: isDigit_def)
  with Cons.prems(1) have "0 \<le> n * 10 + (of_char c - 48)" by simp
  from Cons.IH [OF this _ rec] n1 show ?case by simp
qed

lemma ParseUint_ok:
  assumes "ParseUint s = (w, None)"
  shows "0 \<le> w" "w < 2 ^ 64" "s \<noteq> []"
proof -
  from assms have s: "s \<noteq> []" and l: "parseUintLoop 0 s = (w, None)"
    by (auto simp: ParseUint_def split: if_splits)
  from parseUintLoop_bounds [OF _ _ l] show "0 \<le> w" "w < 2 ^ 64" by (simp_all add: maxUint64_def)
  show "s \<noteq> []" by (rule s)
qed

lemma ParseInt_ok: "ParseInt s = (x, None) \<Longrightarrow> s \<noteq> []"
  by (auto simp: ParseInt_def split: if_splits)

lemma bit_times2: "bit ((w::64 word) * 2) n = (n \<noteq> 0 \<and> n < 64 \<and> bit w (n - 1))"
proof -
  have e: "w * 2 = 2 * w" by simp
  show ?thesis by (subst e) (auto simp add: bit_double_iff dest: bit_imp_le_length)
qed

lemma wall_seconds_word:
  "drop_bit 31 (push_bit 1 (w :: 64 word)) = take_bit 33 (drop_bit 30 w)"
  by (rule bit_word_eqI) (simp only: bit_simps, auto simp add: bit_times2)

lemma wall_word:
  shows "((word_of_int wall :: 64 word) AND timeTimeWallHasMonotonicBit \<noteq> 0) = bit wall 63"
    and "sint (drop_bit (wallNsecShift + 1) (push_bit 1 (word_of_int wall :: 64 word)))
           = wall div 2 ^ 30 mod 2 ^ 33"
proof -
  show "((word_of_int wall :: 64 word) AND timeTimeWallHasMonotonicBit \<noteq> 0) = bit wall 63"
  proof -
    have e: "timeTimeWallHasMonotonicBit = (2 :: 64 word) ^ 63"
      by (simp add: timeTimeWallHasMonotonicBit_def)
    have "((word_of_int wall :: 64 word) AND 2 ^ 63 \<noteq> 0) = bit (word_of_int wall :: 64 word) 63"
      by (simp only: and_exp_eq_0_iff_not_bit) simp
    also have "\<dots> = bit wall 63" by (simp only: bit_word_of_int_iff) simp
    finally show ?thesis by (simp only: e)
  qed
  have s: "wallNsecShift + 1 = 31" by (simp add: wallNsecShift_def)
  have A: "sint (take_bit 33 (drop_bit 30 (word_of_int wall :: 64 word)))
           = take_bit 33 (drop_bit 30 wall)"
    by (rule bit_eqI) (auto simp add: bit_simps min_def)
  show "sint (drop_bit (wallNsecShift + 1) (push_bit 1 (word_of_int wall :: 64 word)))
           = wall div 2 ^ 30 mod 2 ^ 33"
  proof -
    have "take_bit 33 (drop_bit 30 wall) = wall div 2 ^ 30 mod 2 ^ 33"
      by (simp only: take_bit_eq_mod drop_bit_eq_div)
    then show ?thesis by (simp only: s wall_seconds_word A)
  qed
qed

lemma formatTime_monotonic:
  assumes "fieldVariable v ''wall'' = Some wallv" and "fieldVariable v ''ext'' = Some extv"
    and "Unreadable wallv = []" and "Unreadable extv = []"
    and "ParseUint (api_Value wallv) = (wall, None)" and "ParseInt (api_Value extv) = (ext, None)"
    and "bit wall 63"
  shows "formatTime v = ''time.Time(''
           @ Format_RFC3339 (time_Unix (wall div 2 ^ 30 mod 2 ^ 33 - 2682288000))
           @ '', '' @ itoa_plus ext @ '')''"
proof -
  have ne: "api_Value wallv \<noteq> []" "api_Value extv \<noteq> []"
    using ParseUint_ok(3) [OF assms(5)] ParseInt_ok [OF assms(6)] by simp_all
  have m: "((word_of_int wall :: 64 word) AND timeTimeWallHasMonotonicBit \<noteq> 0) = True"
    using assms(7) by (simp only: wall_word(1))
  have c: "(Unreadable wallv \<noteq> [] \<or> Unreadable extv \<noteq> []
             \<or> api_Value wallv = [] \<or> api_Value extv = []) = False"
    using assms(3,4) ne by simp
  have u: "wall div 2 ^ 30 mod 2 ^ 33 + unixTimestampOfWallEpoch
             = wall div 2 ^ 30 mod 2 ^ 33 - 2682288000"
    by (simp add: unixTimestampOfWallEpoch_def)
  show ?thesis
    by (simp only: formatTime_def assms(1,2,5,6) option.case prod.case c m if_False if_True
          wall_word(2) Let_def u)
qed

lemma fallback_aux:
  fixes wo eo :: "api_Variable option" and F :: "int \<Rightarrow> int \<Rightarrow> string"
  assumes "wo = None \<or> eo = None
     \<or> (\<exists>wallv extv. wo = Some wallv \<and> eo = Some extv
          \<and> (Unreadable wallv \<noteq> [] \<or> Unreadable extv \<noteq> []
              \<or> api_Value wallv = [] \<or> api_Value extv = []
              \<or> snd (ParseUint (api_Value wallv)) \<noteq> None
              \<or> snd (ParseInt (api_Value extv)) \<noteq> None))"
  shows "(case (wo, eo) of
        (Some wallv, Some extv) \<Rightarrow>
          if Unreadable wallv \<noteq> [] \<or> Unreadable extv \<noteq> []
             \<or> api_Value wallv = [] \<or> api_Value extv = []
          then dflt
          else (case (ParseUint (api_Value wallv), ParseInt (api_Value extv)) of
                  ((wall, None), (ext, None)) \<Rightarrow> F wall ext
                | _ \<Rightarrow> dflt)
      | _ \<Rightarrow> dflt) = dflt"
  using assms by (auto split: option.splits prod.splits)

lemma formatTime_fallback:
  assumes "fieldVariable v ''wall'' = None \<or> fieldVariable v ''ext'' = None
     \<or> (\<exists>wallv extv. fieldVariable v ''wall'' = Some wallv \<and> fieldVariable v ''ext'' = Some extv
          \<and> (Unreadable wallv \<noteq> [] \<or> Unreadable extv \<noteq> []
              \<or> api_Value wallv = [] \<or> api_Value extv = []
              \<or> snd (ParseUint (api_Value wallv)) \<noteq> None
              \<or> snd (ParseInt (api_Value extv)) \<noteq> None))"
  shows "formatTime v = api_Value v"
  unfolding formatTime_def by (rule fallback_aux [OF assms])

lemma char_of_eq_quote:
  assumes "32 \<le> n" "n \<le> 126"
  shows "(char_of (n::int) = CHR 0x27) = (n = 39)" "(char_of n = CHR 0x5C) = (n = 92)"
proof -
  have a: "CHR 0x27 = char_of (39::int)" "CHR 0x5C = char_of (92::int)" by code_simp+
  have m: "n mod 256 = n" using assms by simp
  show "(char_of n = CHR 0x27) = (n = 39)" unfolding a char_of_quasi_inj using m by simp
  show "(char_of n = CHR 0x5C) = (n = 92)" unfolding a char_of_quasi_inj using m by simp
qed

subsection \<open>Loading more\<close>

lemma finished_sel [simp]:
  "additionalLoadRunning (finished s) = False" "heap (finished s) = heap s"
  "goroutines (finished s) = goroutines s" "evalCalls (finished s) = evalCalls s"
  "scrollback (finished s) = scrollback s" "changed (finished s) = changed s + 1"
  by (simp_all add: finished_def)

lemma loadMore_dropped:
  "additionalLoadRunning s \<Longrightarrow> loadMoreMap s v = s"
  "additionalLoadRunning s \<Longrightarrow> loadMoreArrayOrSlice s v = s"
  "additionalLoadRunning s \<Longrightarrow> loadMoreStruct s v = s"
  by (simp_all add: loadMoreMap_def loadMoreArrayOrSlice_def loadMoreStruct_def)

lemma loadMore_evalCalls:
  "evalCalls (loadMoreMap s v) = evalCalls s"
  "evalCalls (loadMoreArrayOrSlice s v) = evalCalls s"
  "evalCalls (loadMoreStruct s v) = evalCalls s"
  by (simp_all add: loadMoreMap_def loadMoreArrayOrSlice_def loadMoreStruct_def)

lemma go_Some:
  assumes "loadMoreMap_go E reply s v = Some s' \<or> loadMoreArrayOrSlice_go E reply s v = Some s'
     \<or> loadMoreStruct_go E reply s v = Some s'"
  shows "\<not> additionalLoadRunning s'" "goroutines s' = goroutines s"
    "length (evalCalls s') = length (evalCalls s) + 1"
  using assms
  by (auto simp: loadMoreMap_go_def loadMoreArrayOrSlice_go_def loadMoreStruct_go_def Let_def
           split: option.splits sum.splits)

lemma runGoroutine_Some:
  assumes "runGoroutine E g reply s = Some s'"
  shows "\<not> additionalLoadRunning s'" "goroutines s' = remove1 g (goroutines s)"
    "length (evalCalls s') = length (evalCalls s) + 1"
proof -
  from assms obtain s1 where s1: "s' = s1\<lparr>goroutines := remove1 g (goroutines s1)\<rparr>"
    and g: "loadMoreMap_go E reply s (case g of goLoadMoreMap v \<Rightarrow> v | goLoadMoreArrayOrSlice v \<Rightarrow> v | goLoadMoreStruct v \<Rightarrow> v) = Some s1
      \<or> loadMoreArrayOrSlice_go E reply s (case g of goLoadMoreMap v \<Rightarrow> v | goLoadMoreArrayOrSlice v \<Rightarrow> v | goLoadMoreStruct v \<Rightarrow> v) = Some s1
      \<or> loadMoreStruct_go E reply s (case g of goLoadMoreMap v \<Rightarrow> v | goLoadMoreArrayOrSlice v \<Rightarrow> v | goLoadMoreStruct v \<Rightarrow> v) = Some s1"
    by (cases g) (auto simp: runGoroutine_def)
  from go_Some [OF g] s1 show "\<not> additionalLoadRunning s'" "goroutines s' = remove1 g (goroutines s)"
    "length (evalCalls s') = length (evalCalls s) + 1" by simp_all
qed

lemma step_invariant:
  assumes "step E s s'" and "length (goroutines s) \<le> 1"
    and "additionalLoadRunning s \<longleftrightarrow> goroutines s \<noteq> []"
  shows "length (goroutines s') \<le> 1 \<and> (additionalLoadRunning s' \<longleftrightarrow> goroutines s' \<noteq> [])"
  using assms
proof (cases rule: step.cases)
  case (call_loadMoreMap v)
  then show ?thesis using assms(2,3) by (auto simp: loadMoreMap_def)
next
  case (call_loadMoreArrayOrSlice v)
  then show ?thesis using assms(2,3) by (auto simp: loadMoreArrayOrSlice_def)
next
  case (call_loadMoreStruct v)
  then show ?thesis using assms(2,3) by (auto simp: loadMoreStruct_def)
next
  case (run_goroutine g reply)
  from run_goroutine(1) assms(2) have "goroutines s = [g]"
    by (cases "goroutines s") auto
  with runGoroutine_Some [OF run_goroutine(2)] show ?thesis by simp
qed

lemma reachable_invariant:
  "reachable E s \<Longrightarrow> length (goroutines s) \<le> 1 \<and> (additionalLoadRunning s \<longleftrightarrow> goroutines s \<noteq> [])"
proof (induction rule: reachable.induct)
  case (reach_start s)
  then show ?case by simp
next
  case (reach_step s s')
  then show ?case using step_invariant by blast
qed

lemma step_clears:
  assumes "step E s s'" "additionalLoadRunning s" "\<not> additionalLoadRunning s'"
  shows "\<exists>g reply. g \<in> set (goroutines s) \<and> runGoroutine E g reply s = Some s'"
  using assms by (cases rule: step.cases) (auto simp: loadMore_dropped)

lemma heap_finished_upd [simp]:
  "heap (finished (s\<lparr>heap := h\<rparr>)) = h"
  by (simp add: finished_def)

lemma loadMoreStruct_go_fail:
  assumes "heap s v = Some node"
  shows "\<exists>s'. loadMoreStruct_go E (Inl err) s v = Some s'
     \<and> heap s' = (heap s)(v \<mapsto> set_Variable (set_Unreadable err (Variable node)) node)
     \<and> scrollback s' = scrollback s \<and> \<not> additionalLoadRunning s'"
  using assms by (simp add: loadMoreStruct_go_def Let_def)

lemma loadMoreStruct_go_ok:
  assumes "heap s v = Some node" and "wf_raw lv"
  shows "\<exists>s' w. loadMoreStruct_go E (Inr lv) s v = Some s'
     \<and> wrapApiVariable E (set_Name (Name (Variable node)) lv) (Name (Variable node)) (Expression node) True
           = Some w
     \<and> heap s' = (heap s)(v \<mapsto> set_DisplayName (DisplayName node) (set_Varname (Varname node) w))"
proof -
  have "wf_raw (set_Name (Name (Variable node)) lv)" using assms(2) by simp
  from wrap_total(1) [OF this] obtain w where
    w: "wrapApiVariable E (set_Name (Name (Variable node)) lv) (Name (Variable node)) (Expression node) True
           = Some w" by blast
  then show ?thesis using assms(1) by (simp add: loadMoreStruct_go_def Let_def)
qed

lemma raw_after_wrap:
  assumes "wrapApiVariable E v name expr cf = Some w"
  shows "Name (Variable w) = Name v" "Addr (Variable w) = Addr v" "OnlyAddr (Variable w) = OnlyAddr v"
    "Type (Variable w) = Type v" "Kind (Variable w) = Kind v" "api_Value (Variable w) = api_Value v"
    "Len (Variable w) = Len v" "Cap (Variable w) = Cap v" "Unreadable (Variable w) = Unreadable v"
  using wrapApiVariable_Some(8) [OF assms] by auto

lemma childName_slice:
  "kind = reflectSlice \<or> kind = reflectArray \<Longrightarrow>
     childName kind start i vi = ''['' @ itoa (start + i) @ '']''"
  by (auto simp: childName_def)

lemma childExpr_slice:
  "kind = reflectSlice \<or> kind = reflectArray \<Longrightarrow>
     childExpr kind start i expr vi = (if expr \<noteq> [] then expr @ ''['' @ itoa (start + i) @ '']'' else [])"
  by (auto simp: childExpr_def)

lemma pairsAligned_even: "pairsAligned cs \<Longrightarrow> even (length cs)"
  by (induction cs rule: pairsAligned.induct) simp_all

lemma pairsAligned_append: "pairsAligned xs \<Longrightarrow> pairsAligned ys \<Longrightarrow> pairsAligned (xs @ ys)"
  by (induction xs rule: pairsAligned.induct) simp_all

lemma wrapMapLoop_aligned:
  "wrapMapLoop E vs start i cf = Some (vs', cs) \<Longrightarrow> pairsAligned cs"
proof (induction vs arbitrary: i vs' cs rule: induct_list012)
  case 1
  then show ?case by simp
next
  case (2 x)
  then show ?case by simp
next
  case (3 key val rest)
  from "3.prems" obtain a b c0 c1 vs1 cs1 where
    r: "wrapMapLoop E rest start (i + 2) cf = Some (vs1, cs1)"
    and e: "cs = c0 # c1 # cs1" "c0 \<noteq> None"
    by (auto simp: Let_def split: if_splits option.splits)
  from "3.IH"(1) [OF r] e show ?case by simp
qed

lemma standsFor_wrap:
  "wrapApiVariable E v name expr cf = Some n \<Longrightarrow> standsFor v n"
  using raw_after_wrap [of E v name expr cf n] by (simp add: standsFor_def)

lemma standsFor_wrap_renamed:
  assumes "wrapApiVariable E (set_Name k v) name expr cf = Some n"
  shows "standsFor v n"
  using raw_after_wrap [OF assms] by (simp add: standsFor_def)

lemma wrapSlice_nodes:
  assumes "list_all wf_raw vs" and "kind = reflectSlice \<or> kind = reflectArray"
  shows "\<exists>vs' cs. wrapApiVariables E vs kind start expr cf = Some (vs', cs)
     \<and> length cs = length vs
     \<and> (\<forall>i < length vs. \<exists>n. cs ! i = Some n
           \<and> wrapApiVariable E (vs ! i) (''['' @ itoa (start + int i) @ '']'')
                (if expr \<noteq> [] then expr @ ''['' @ itoa (start + int i) @ '']'' else []) cf = Some n)"
proof -
  from assms(2) have k: "kind \<noteq> reflectMap" by auto
  from wrap_total(4) [OF assms(1), of E kind start 0 expr cf] obtain vs' cs where
    w: "wrapLoop E vs kind start 0 expr cf = Some (vs', cs)" by auto
  note l = wrapLoop_Some [OF w]
  have "\<forall>i < length vs. \<exists>n. cs ! i = Some n
           \<and> wrapApiVariable E (vs ! i) (''['' @ itoa (start + int i) @ '']'')
                (if expr \<noteq> [] then expr @ ''['' @ itoa (start + int i) @ '']'' else []) cf = Some n"
  proof (intro allI impI)
    fix i assume "i < length vs"
    with l obtain n where n: "cs ! i = Some n"
      "wrapApiVariable E (vs ! i) (childName kind start (0 + int i) (vs ! i))
          (childExpr kind start (0 + int i) expr (vs ! i)) cf = Some n" by blast
    from n(2) have "wrapApiVariable E (vs ! i) (''['' @ itoa (start + int i) @ '']'')
                (if expr \<noteq> [] then expr @ ''['' @ itoa (start + int i) @ '']'' else []) cf = Some n"
      by (simp add: childName_slice [OF assms(2)] childExpr_slice [OF assms(2)])
    with n(1) show "\<exists>n. cs ! i = Some n
           \<and> wrapApiVariable E (vs ! i) (''['' @ itoa (start + int i) @ '']'')
                (if expr \<noteq> [] then expr @ ''['' @ itoa (start + int i) @ '']'' else []) cf = Some n"
      by simp
  qed
  then show ?thesis using w l k by (simp add: wrapApiVariables.simps)
qed

lemma loadMoreArrayOrSlice_go_ok:
  assumes "heap s v = Some node"
    and "wrapApiVariables E (api_Children lv) (Kind (Variable node))
           (int (length (Children node))) (Expression node) True = Some (vs', cs)"
  shows "\<exists>s'. loadMoreArrayOrSlice_go E (Inr lv) s v = Some s'
     \<and> heap s' = (heap s)(v \<mapsto> set_Children (Children node @ cs) node)
     \<and> scrollback s' = scrollback s \<and> \<not> additionalLoadRunning s'"
  using assms by (simp add: loadMoreArrayOrSlice_go_def Let_def finished_def)

lemma wrapMap_nodes:
  assumes "list_all wf_raw vs" and "even (length vs)"
  shows "\<exists>vs' cs. wrapApiVariables E vs reflectMap start expr cf = Some (vs', cs)
     \<and> length cs = length vs \<and> pairsAligned cs
     \<and> (\<forall>j. 2 * j + 1 < length vs \<longrightarrow>
          cs ! (2 * j) \<noteq> None
          \<and> ((cs ! (2 * j + 1) = None) = foldableKey (vs ! (2 * j)))
          \<and> (foldableKey (vs ! (2 * j)) \<longrightarrow>
               (\<exists>n. cs ! (2 * j) = Some n \<and> standsFor (vs ! (2 * j + 1)) n
                  \<and> DisplayName n = ''['' @ (if Kind (vs ! (2 * j)) = reflectString
                        then Quote E (api_Value (vs ! (2 * j))) else api_Value (vs ! (2 * j))) @ '']''))
          \<and> (\<not> foldableKey (vs ! (2 * j)) \<longrightarrow>
               (\<exists>nk nv. cs ! (2 * j) = Some nk \<and> cs ! (2 * j + 1) = Some nv
                  \<and> standsFor (vs ! (2 * j)) nk \<and> standsFor (vs ! (2 * j + 1)) nv)))"
proof -
  from wrapMap_pair [OF assms, of E start expr cf] obtain vs' cs where
    w: "wrapApiVariables E vs reflectMap start expr cf = Some (vs', cs)" "length cs = length vs"
    and p: "\<And>j. 2 * j + 1 < length vs \<Longrightarrow> foldableKey (vs ! (2 * j)) \<Longrightarrow>
             (\<exists>n. cs ! (2 * j) = Some n \<and> cs ! (2 * j + 1) = None
                \<and> wrapApiVariable E (set_Name (if Kind (vs ! (2 * j)) = reflectString
                        then Quote E (api_Value (vs ! (2 * j))) else api_Value (vs ! (2 * j))) (vs ! (2 * j + 1)))
                     (''['' @ (if Kind (vs ! (2 * j)) = reflectString
                        then Quote E (api_Value (vs ! (2 * j))) else api_Value (vs ! (2 * j))) @ '']'') [] cf = Some n)"
    and q: "\<And>j. 2 * j + 1 < length vs \<Longrightarrow> \<not> foldableKey (vs ! (2 * j)) \<Longrightarrow>
             (\<exists>nk nv. cs ! (2 * j) = Some nk \<and> cs ! (2 * j + 1) = Some nv
                \<and> wrapApiVariable E (vs ! (2 * j)) (''['' @ itoa (start + int j) @ '' key]'') [] cf = Some nk
                \<and> wrapApiVariable E (vs ! (2 * j + 1)) (''['' @ itoa (start + int j) @ '' value]'') [] cf = Some nv)"
    by blast
  from w(1) have m: "wrapMapLoop E vs start 0 cf = Some (vs', cs)"
    by (simp add: wrapApiVariables.simps)
  have "\<forall>j. 2 * j + 1 < length vs \<longrightarrow>
          cs ! (2 * j) \<noteq> None
          \<and> ((cs ! (2 * j + 1) = None) = foldableKey (vs ! (2 * j)))
          \<and> (foldableKey (vs ! (2 * j)) \<longrightarrow>
               (\<exists>n. cs ! (2 * j) = Some n \<and> standsFor (vs ! (2 * j + 1)) n
                  \<and> DisplayName n = ''['' @ (if Kind (vs ! (2 * j)) = reflectString
                        then Quote E (api_Value (vs ! (2 * j))) else api_Value (vs ! (2 * j))) @ '']''))
          \<and> (\<not> foldableKey (vs ! (2 * j)) \<longrightarrow>
               (\<exists>nk nv. cs ! (2 * j) = Some nk \<and> cs ! (2 * j + 1) = Some nv
                  \<and> standsFor (vs ! (2 * j)) nk \<and> standsFor (vs ! (2 * j + 1)) nv))"
  proof (intro allI impI)
    fix j assume j: "2 * j + 1 < length vs"
    let ?k = "if Kind (vs ! (2 * j)) = reflectString
              then Quote E (api_Value (vs ! (2 * j))) else api_Value (vs ! (2 * j))"
    show "cs ! (2 * j) \<noteq> None
          \<and> ((cs ! (2 * j + 1) = None) = foldableKey (vs ! (2 * j)))
          \<and> (foldableKey (vs ! (2 * j)) \<longrightarrow>
               (\<exists>n. cs ! (2 * j) = Some n \<and> standsFor (vs ! (2 * j + 1)) n
                  \<and> DisplayName n = ''['' @ ?k @ '']''))
          \<and> (\<not> foldableKey (vs ! (2 * j)) \<longrightarrow>
               (\<exists>nk nv. cs ! (2 * j) = Some nk \<and> cs ! (2 * j + 1) = Some nv
                  \<and> standsFor (vs ! (2 * j)) nk \<and> standsFor (vs ! (2 * j + 1)) nv))"
    proof (cases "foldableKey (vs ! (2 * j))")
      case True
      from p [OF j True] obtain n where n: "cs ! (2 * j) = Some n" "cs ! (2 * j + 1) = None"
        "wrapApiVariable E (set_Name ?k (vs ! (2 * j + 1))) (''['' @ ?k @ '']'') [] cf = Some n"
        by blast
      have d: "DisplayName n = ''['' @ ?k @ '']''" using wrapApiVariable_Some(2) [OF n(3)] by simp
      have s: "standsFor (vs ! (2 * j + 1)) n" using standsFor_wrap_renamed [OF n(3)] .
      from True n(1,2) d s show ?thesis by simp
    next
      case False
      from q [OF j False] obtain nk nv where n: "cs ! (2 * j) = Some nk" "cs ! (2 * j + 1) = Some nv"
        "wrapApiVariable E (vs ! (2 * j)) (''['' @ itoa (start + int j) @ '' key]'') [] cf = Some nk"
        "wrapApiVariable E (vs ! (2 * j + 1)) (''['' @ itoa (start + int j) @ '' value]'') [] cf = Some nv"
        by blast
      from False n(1,2) standsFor_wrap [OF n(3)] standsFor_wrap [OF n(4)] show ?thesis by simp
    qed
  qed
  with w wrapMapLoop_aligned [OF m] show ?thesis by blast
qed

lemma loadMoreMap_go_ok:
  assumes "heap s v = Some node"
    and "wrapApiVariables E (api_Children lv) reflectMap
           (int (length (Children node))) (Expression node) True = Some (vs', cs)"
  shows "\<exists>s'. loadMoreMap_go E (Inr lv) s v = Some s'
     \<and> heap s' = (heap s)(v \<mapsto> set_Children (Children node @ cs) node)
     \<and> scrollback s' = scrollback s \<and> \<not> additionalLoadRunning s'"
  using assms by (simp add: loadMoreMap_go_def Let_def finished_def)

lemma loadMoreMap_go_fail:
  assumes "heap s v = Some node"
  shows "\<exists>s'. loadMoreMap_go E (Inl err) s v = Some s'
     \<and> heap s' = (heap s)(v \<mapsto>
           set_Variable (set_Len (int (length (Children node)) div 2) (Variable node)) node)
     \<and> \<not> additionalLoadRunning s'"
  using assms by (simp add: loadMoreMap_go_def Let_def finished_def)

text \<open>
  The names of the children of a map, for any start: a folded pair is named after its key, the
  unfolded pair at position \<open>j\<close> is named by \<open>start + j\<close>.
\<close>

lemma wrapMap_names:
  assumes "list_all wf_raw vs" and "even (length vs)"
  shows "\<exists>vs' cs. wrapApiVariables E vs reflectMap start expr cf = Some (vs', cs)
     \<and> length cs = length vs
     \<and> (\<forall>j. 2 * j + 1 < length vs \<longrightarrow>
          (foldableKey (vs ! (2 * j)) \<longrightarrow>
             (\<exists>n. cs ! (2 * j) = Some n \<and> cs ! (2 * j + 1) = None
                \<and> DisplayName n = ''['' @ (if Kind (vs ! (2 * j)) = reflectString
                        then Quote E (api_Value (vs ! (2 * j))) else api_Value (vs ! (2 * j))) @ '']''
                \<and> Expression n = []))
        \<and> (\<not> foldableKey (vs ! (2 * j)) \<longrightarrow>
             (\<exists>nk nv. cs ! (2 * j) = Some nk \<and> cs ! (2 * j + 1) = Some nv
                \<and> DisplayName nk = ''['' @ itoa (start + int j) @ '' key]''
                \<and> DisplayName nv = ''['' @ itoa (start + int j) @ '' value]''
                \<and> Expression nk = [] \<and> Expression nv = [])))"
proof -
  from wrapMap_pair [OF assms, of E start expr cf] obtain vs' cs where
    w: "wrapApiVariables E vs reflectMap start expr cf = Some (vs', cs)" "length cs = length vs"
    and p: "\<And>j. 2 * j + 1 < length vs \<Longrightarrow> foldableKey (vs ! (2 * j)) \<Longrightarrow>
             (\<exists>n. cs ! (2 * j) = Some n \<and> cs ! (2 * j + 1) = None
                \<and> wrapApiVariable E (set_Name (if Kind (vs ! (2 * j)) = reflectString
                        then Quote E (api_Value (vs ! (2 * j))) else api_Value (vs ! (2 * j))) (vs ! (2 * j + 1)))
                     (''['' @ (if Kind (vs ! (2 * j)) = reflectString
                        then Quote E (api_Value (vs ! (2 * j))) else api_Value (vs ! (2 * j))) @ '']'') [] cf = Some n)"
    and q: "\<And>j. 2 * j + 1 < length vs \<Longrightarrow> \<not> foldableKey (vs ! (2 * j)) \<Longrightarrow>
             (\<exists>nk nv. cs ! (2 * j) = Some nk \<and> cs ! (2 * j + 1) = Some nv
                \<and> wrapApiVariable E (vs ! (2 * j)) (''['' @ itoa (start + int j) @ '' key]'') [] cf = Some nk
                \<and> wrapApiVariable E (vs ! (2 * j + 1)) (''['' @ itoa (start + int j) @ '' value]'') [] cf = Some nv)"
    by blast
  have "\<forall>j. 2 * j + 1 < length vs \<longrightarrow>
          (foldableKey (vs ! (2 * j)) \<longrightarrow>
             (\<exists>n. cs ! (2 * j) = Some n \<and> cs ! (2 * j + 1) = None
                \<and> DisplayName n = ''['' @ (if Kind (vs ! (2 * j)) = reflectString
                        then Quote E (api_Value (vs ! (2 * j))) else api_Value (vs ! (2 * j))) @ '']''
                \<and> Expression n = []))
        \<and> (\<not> foldableKey (vs ! (2 * j)) \<longrightarrow>
             (\<exists>nk nv. cs ! (2 * j) = Some nk \<and> cs ! (2 * j + 1) = Some nv
                \<and> DisplayName nk = ''['' @ itoa (start + int j) @ '' key]''
                \<and> DisplayName nv = ''['' @ itoa (start + int j) @ '' value]''
                \<and> Expression nk = [] \<and> Expression nv = []))"
  proof (intro conjI allI impI)
    fix j assume j: "2 * j + 1 < length vs" and f: "foldableKey (vs ! (2 * j))"
    from p [OF j f] obtain n where n: "cs ! (2 * j) = Some n" "cs ! (2 * j + 1) = None"
       "wrapApiVariable E (set_Name (if Kind (vs ! (2 * j)) = reflectString
                        then Quote E (api_Value (vs ! (2 * j))) else api_Value (vs ! (2 * j))) (vs ! (2 * j + 1)))
                     (''['' @ (if Kind (vs ! (2 * j)) = reflectString
                        then Quote E (api_Value (vs ! (2 * j))) else api_Value (vs ! (2 * j))) @ '']'') [] cf = Some n"
      by blast
    show "\<exists>n. cs ! (2 * j) = Some n \<and> cs ! (2 * j + 1) = None
                \<and> DisplayName n = ''['' @ (if Kind (vs ! (2 * j)) = reflectString
                        then Quote E (api_Value (vs ! (2 * j))) else api_Value (vs ! (2 * j))) @ '']''
                \<and> Expression n = []"
      using n(1,2) wrapApiVariable_Some(2,5) [OF n(3)] by simp
  next
    fix j assume j: "2 * j + 1 < length vs" and f: "\<not> foldableKey (vs ! (2 * j))"
    from q [OF j f] obtain nk nv where n: "cs ! (2 * j) = Some nk" "cs ! (2 * j + 1) = Some nv"
       "wrapApiVariable E (vs ! (2 * j)) (''['' @ itoa (start + int j) @ '' key]'') [] cf = Some nk"
       "wrapApiVariable E (vs ! (2 * j + 1)) (''['' @ itoa (start + int j) @ '' value]'') [] cf = Some nv"
      by blast
    show "\<exists>nk nv. cs ! (2 * j) = Some nk \<and> cs ! (2 * j + 1) = Some nv
                \<and> DisplayName nk = ''['' @ itoa (start + int j) @ '' key]''
                \<and> DisplayName nv = ''['' @ itoa (start + int j) @ '' value]''
                \<and> Expression nk = [] \<and> Expression nv = []"
      using n(1,2) wrapApiVariable_Some(2,5) [OF n(3)] wrapApiVariable_Some(2,5) [OF n(4)] by simp
  qed
  with w show ?thesis by blast
qed


section \<open>The character annotation\<close>

text \<open>
  Claim C9, as amended. A raw value of kind \<^verbatim>\<open>Int\<close> or \<^verbatim>\<open>Uint\<close> whose declared type is
  \<^verbatim>\<open>uint8\<close> or \<^verbatim>\<open>int32\<close>, whose value string reads as a number from 32 (space) to 126
  (tilde), and whose address has no override, is wrapped, and the shown value is the raw
  value string, a space and the character between single quotes. A quote or a backslash
  is escaped; any other character stands as it is.
\<close>

theorem C9_character_annotation:
  assumes "wf_raw v"
    and "Kind v = reflectInt \<or> Kind v = reflectUint"
    and "Type v = ''uint8'' \<or> Type v = ''int32''"
    and "32 \<le> fst (Atoi (api_Value v))" and "fst (Atoi (api_Value v)) \<le> 126"
    and "varFormat E (Addr v) = None"
  shows "\<exists>r. wrapApiVariable E v name expr cf = Some r
           \<and> Value r = api_Value v @ '' '' @ quoteRune (fst (Atoi (api_Value v)))
           \<and> (fst (Atoi (api_Value v)) \<notin> {39, 92} \<longrightarrow>
                Value r = api_Value v @ [CHR '' '', CHR 0x27, char_of (fst (Atoi (api_Value v))), CHR 0x27])"
proof -
  from wrap_total(1) [OF assms(1)] obtain r where r: "wrapApiVariable E v name expr cf = Some r"
    by blast
  note c = char_of_eq_quote [OF assms(4,5)]
  have "Value r = api_Value v @ '' '' @ quoteRune (fst (Atoi (api_Value v)))"
    using wrapApiVariable_Some(1) [OF r] assms(2-6) by (auto simp: formatValue_def Let_def)
  then show ?thesis using r c by (auto simp: quoteRune_def Let_def)
qed

text \<open>The value 65 of type \<^verbatim>\<open>int32\<close> is shown as \<^verbatim>\<open>65 'A'\<close>.\<close>

theorem C9_character_annotation_witness:
  "\<exists>r. wrapApiVariable exampleEnv (scalar ''c'' ''int32'' reflectInt ''65'') ''c'' ''c'' True = Some r
     \<and> Value r = [CHR ''6'', CHR ''5'', CHR '' '', CHR 0x27, CHR ''A'', CHR 0x27]"
proof -
  let ?v = "scalar ''c'' ''int32'' reflectInt ''65''"
  have a: "fst (Atoi (api_Value ?v)) = 65" by code_simp
  have h1: "wf_raw ?v" by (simp add: scalar_def)
  have h2: "Kind ?v = reflectInt \<or> Kind ?v = reflectUint" by (simp add: scalar_def)
  have h3: "Type ?v = ''uint8'' \<or> Type ?v = ''int32''" by (simp add: scalar_def)
  have h4: "32 \<le> fst (Atoi (api_Value ?v))" "fst (Atoi (api_Value ?v)) \<le> 126" by (simp_all add: a)
  have h5: "varFormat exampleEnv (Addr ?v) = None" by (simp add: exampleEnv_def)
  have q: "quoteRune 65 = [CHR 0x27, CHR ''A'', CHR 0x27]" by code_simp
  have v: "api_Value ?v = ''65''" by (simp add: scalar_def)
  from C9_character_annotation [OF h1 h2 h3 h4 h5, of "''c''" "''c''" True]
  obtain r where "wrapApiVariable exampleEnv ?v ''c'' ''c'' True = Some r"
    and "Value r = api_Value ?v @ '' '' @ quoteRune (fst (Atoi (api_Value ?v)))"
    by blast
  moreover have "fst (Atoi ''65'') = 65" by code_simp
  ultimately show ?thesis by (simp add: v q)
qed

text \<open>
  The claim as it is written speaks of every value of an 8-bit or 32-bit integer type. A
  value of kind \<^verbatim>\<open>Int32\<close> with declared type \<^verbatim>\<open>int32\<close> and value 65 is not annotated: the test
  on the kind in \<^verbatim>\<open>wrapApiVariable\<close> accepts \<^verbatim>\<open>Int\<close> and \<^verbatim>\<open>Uint\<close> only.
\<close>

theorem C9_counterexample:
  "Type (scalar ''c'' ''int32'' reflectInt32 ''65'') = ''int32''
   \<and> fst (Atoi (api_Value (scalar ''c'' ''int32'' reflectInt32 ''65''))) = 65
   \<and> varFormat exampleEnv (Addr (scalar ''c'' ''int32'' reflectInt32 ''65'')) = None
   \<and> map_option Value
        (wrapApiVariable exampleEnv (scalar ''c'' ''int32'' reflectInt32 ''65'') ''c'' ''c'' True)
       = Some ''65''"
  by code_simp

section \<open>The children of a map\<close>

text \<open>
  Claim C2. A folded pair of a map yields one node named after its key, and an unfolded pair at
  the pair index \<open>i\<close> yields two nodes named \<^verbatim>\<open>[i key]\<close> and \<^verbatim>\<open>[i value]\<close>. When a raw snapshot is
  wrapped, the first pair is counted from 0 and the names are these. When \<^verbatim>\<open>loadMoreMap\<close> merges
  an answer, it asks the debugger for the pairs from \<^verbatim>\<open>len(v.Children)/2\<close> on, but gives
  \<^verbatim>\<open>wrapApiVariables\<close> the start \<^verbatim>\<open>len(v.Children)\<close>: in the map with two loaded pairs of long
  string keys, the evaluation asks for \<^verbatim>\<open>[2:]\<close>, and the third pair, of pair index 2, is named
  \<^verbatim>\<open>[4 key]\<close> and \<^verbatim>\<open>[4 value]\<close>.
\<close>

theorem C2_names_after_merge:
  "map (map_option DisplayName)
       (Children (the (wrapApiVariable exampleEnv exampleLongMap ''m'' ''m'' True)))
     = [Some ''[0 key]'', Some ''[0 value]'', Some ''[1 key]'', Some ''[1 value]'']
   \<and> loadMoreMap_go exampleEnv (Inr exampleLongReply) exampleLongState 0 \<noteq> None
   \<and> map fst (evalCalls (the (loadMoreMap_go exampleEnv (Inr exampleLongReply) exampleLongState 0)))
     = [''(*(*'' @ Quote exampleEnv ''map[string]int'' @ '')(0x10))[2:]'']
   \<and> map (map_option DisplayName)
       (Children (the (heap (the (loadMoreMap_go exampleEnv (Inr exampleLongReply) exampleLongState 0)) 0)))
     = [Some ''[0 key]'', Some ''[0 value]'', Some ''[1 key]'', Some ''[1 value]'',
        Some ''[4 key]'', Some ''[4 value]'']"
  by code_simp

section \<open>When a key is folded\<close>

text \<open>
  Claim C10. The pair \<open>j\<close> of a map is folded (one node named after the key, then a
  \<^verbatim>\<open>nil\<close> entry) exactly when the key has no children, its value string has fewer than 20
  bytes, and its kind is \<^verbatim>\<open>String\<close> or a number (a signed or unsigned integer, \<^verbatim>\<open>Uintptr\<close>,
  a float or a complex number). In every other case, and so for a boolean key, the pair
  yields the two nodes \<^verbatim>\<open>[i key]\<close> and \<^verbatim>\<open>[i value]\<close>.
\<close>

theorem C10_fold_condition:
  assumes "list_all wf_raw vs" and "even (length vs)" and "2 * j + 1 < length vs"
  shows "\<exists>vs' cs. wrapApiVariables E vs reflectMap start expr cf = Some (vs', cs)
     \<and> ((\<exists>n. cs ! (2 * j) = Some n \<and> cs ! (2 * j + 1) = None
            \<and> DisplayName n = ''['' @ (if Kind (vs ! (2 * j)) = reflectString
                    then Quote E (api_Value (vs ! (2 * j))) else api_Value (vs ! (2 * j))) @ '']'')
         \<longleftrightarrow> (api_Children (vs ! (2 * j)) = [] \<and> length (api_Value (vs ! (2 * j))) < 20
              \<and> (Kind (vs ! (2 * j)) = reflectString \<or> numericKind (Kind (vs ! (2 * j))))))
     \<and> (\<not> (api_Children (vs ! (2 * j)) = [] \<and> length (api_Value (vs ! (2 * j))) < 20
              \<and> (Kind (vs ! (2 * j)) = reflectString \<or> numericKind (Kind (vs ! (2 * j)))))
          \<longrightarrow> (\<exists>nk nv. cs ! (2 * j) = Some nk \<and> cs ! (2 * j + 1) = Some nv
                \<and> DisplayName nk = ''['' @ itoa (start + int j) @ '' key]''
                \<and> DisplayName nv = ''['' @ itoa (start + int j) @ '' value]''))
     \<and> (Kind (vs ! (2 * j)) = reflectBool
          \<longrightarrow> (\<exists>nk nv. cs ! (2 * j) = Some nk \<and> cs ! (2 * j + 1) = Some nv
                \<and> DisplayName nk = ''['' @ itoa (start + int j) @ '' key]''
                \<and> DisplayName nv = ''['' @ itoa (start + int j) @ '' value]''))"
proof -
  let ?key = "vs ! (2 * j)"
  let ?k = "if Kind ?key = reflectString then Quote E (api_Value ?key) else api_Value ?key"
  have fk: "foldableKey ?key \<longleftrightarrow> (api_Children ?key = [] \<and> length (api_Value ?key) < 20
              \<and> (Kind ?key = reflectString \<or> numericKind (Kind ?key)))"
    by (simp add: foldableKey_def)
  have nb: "Kind ?key = reflectBool \<Longrightarrow> \<not> foldableKey ?key"
    by (simp add: foldableKey_def numericKind_def)
  from wrapMap_pair [OF assms(1,2), of E start expr cf] assms(3) obtain vs' cs where
    w: "wrapApiVariables E vs reflectMap start expr cf = Some (vs', cs)"
    and p: "foldableKey ?key \<Longrightarrow>
             (\<exists>n. cs ! (2 * j) = Some n \<and> cs ! (2 * j + 1) = None
                \<and> wrapApiVariable E (set_Name ?k (vs ! (2 * j + 1))) (''['' @ ?k @ '']'') [] cf = Some n)"
    and q: "\<not> foldableKey ?key \<Longrightarrow>
             (\<exists>nk nv. cs ! (2 * j) = Some nk \<and> cs ! (2 * j + 1) = Some nv
                \<and> wrapApiVariable E ?key (''['' @ itoa (start + int j) @ '' key]'') [] cf = Some nk
                \<and> wrapApiVariable E (vs ! (2 * j + 1)) (''['' @ itoa (start + int j) @ '' value]'') [] cf = Some nv)"
    by blast
  have P: "foldableKey ?key \<Longrightarrow> (\<exists>n. cs ! (2 * j) = Some n \<and> cs ! (2 * j + 1) = None
            \<and> DisplayName n = ''['' @ ?k @ '']'')"
  proof -
    assume "foldableKey ?key"
    from p [OF this] obtain n where n: "cs ! (2 * j) = Some n" "cs ! (2 * j + 1) = None"
      "wrapApiVariable E (set_Name ?k (vs ! (2 * j + 1))) (''['' @ ?k @ '']'') [] cf = Some n" by blast
    show ?thesis using n(1,2) wrapApiVariable_Some(2) [OF n(3)] by simp
  qed
  have Q: "\<not> foldableKey ?key \<Longrightarrow> (\<exists>nk nv. cs ! (2 * j) = Some nk \<and> cs ! (2 * j + 1) = Some nv
                \<and> DisplayName nk = ''['' @ itoa (start + int j) @ '' key]''
                \<and> DisplayName nv = ''['' @ itoa (start + int j) @ '' value]'')"
  proof -
    assume "\<not> foldableKey ?key"
    from q [OF this] obtain nk nv where n: "cs ! (2 * j) = Some nk" "cs ! (2 * j + 1) = Some nv"
       "wrapApiVariable E ?key (''['' @ itoa (start + int j) @ '' key]'') [] cf = Some nk"
       "wrapApiVariable E (vs ! (2 * j + 1)) (''['' @ itoa (start + int j) @ '' value]'') [] cf = Some nv"
      by blast
    show ?thesis using n(1,2) wrapApiVariable_Some(2) [OF n(3)] wrapApiVariable_Some(2) [OF n(4)] by simp
  qed
  have R: "(\<exists>n. cs ! (2 * j) = Some n \<and> cs ! (2 * j + 1) = None
            \<and> DisplayName n = ''['' @ ?k @ '']'') \<longleftrightarrow> foldableKey ?key"
    using P Q by (cases "foldableKey ?key") auto
  show ?thesis
    using w R Q nb unfolding fk by blast
qed

text \<open>In the map of two pairs, the boolean key is not folded and the string key is.\<close>

theorem C10_fold_condition_witness:
  "(\<exists>vs' cs. wrapApiVariables exampleEnv exampleMapChildren reflectMap 0 ''m'' True = Some (vs', cs)
     \<and> (\<exists>nk nv. cs ! 2 = Some nk \<and> cs ! 3 = Some nv
           \<and> DisplayName nk = ''[1 key]'' \<and> DisplayName nv = ''[1 value]''))
   \<and> (\<exists>vs' cs. wrapApiVariables exampleEnv exampleMapChildren reflectMap 0 ''m'' True = Some (vs', cs)
     \<and> (\<exists>n. cs ! 0 = Some n \<and> cs ! 1 = None
           \<and> DisplayName n = [CHR ''['', CHR 0x22, CHR ''a'', CHR 0x22, CHR '']'']))"
proof -
  note f = exampleMapChildren_facts
  have j: "2 * 1 + 1 < length exampleMapChildren" by (simp add: f)
  have i: "itoa 1 = ''1''" by code_simp
  have j0: "2 * 0 + 1 < length exampleMapChildren" by (simp add: f)
  have c: "api_Children (exampleMapChildren ! 0) = [] \<and> length (api_Value (exampleMapChildren ! 0)) < 20
      \<and> (Kind (exampleMapChildren ! 0) = reflectString \<or> numericKind (Kind (exampleMapChildren ! 0)))"
    using f(4) by (simp add: foldableKey_def)
  from C10_fold_condition [OF f(1,2) j, of exampleEnv 0 "''m''" True]
  have A: "\<exists>vs' cs. wrapApiVariables exampleEnv exampleMapChildren reflectMap 0 ''m'' True = Some (vs', cs)
     \<and> (\<exists>nk nv. cs ! 2 = Some nk \<and> cs ! 3 = Some nv
           \<and> DisplayName nk = ''[1 key]'' \<and> DisplayName nv = ''[1 value]'')"
    by (simp add: f i) blast
  from C10_fold_condition [OF f(1,2) j0, of exampleEnv 0 "''m''" True] c
  have B: "\<exists>vs' cs. wrapApiVariables exampleEnv exampleMapChildren reflectMap 0 ''m'' True = Some (vs', cs)
     \<and> (\<exists>n. cs ! 0 = Some n \<and> cs ! 1 = None
           \<and> DisplayName n = [CHR ''['', CHR 0x22, CHR ''a'', CHR 0x22, CHR '']''])"
    by (simp add: f)
  from A B show ?thesis by blast
qed

section \<open>The expression of a field\<close>

text \<open>
  Claim C4. Let the parent be a struct or a channel with a non-empty expression \<open>expr\<close>. The
  child at position \<open>i\<close>, a field named \<open>f\<close>, gets the expression \<open>expr.f\<close> when \<open>expr\<close> is not
  of the form \<^verbatim>\<open>(*(inner))\<close>, and \<open>inner.f\<close> when it is. So for a pointer with expression
  \<open>expr\<close> whose target is a struct or a channel, the target has the expression
  \<^verbatim>\<open>(*(expr))\<close> and its field \<open>f\<close> the expression \<open>expr.f\<close>: the field is not wrapped again.
\<close>

theorem C4_field_expression:
  "(list_all wf_raw vs \<and> (kind = reflectStruct \<or> kind = reflectChan) \<and> expr \<noteq> [] \<and> i < length vs
      \<longrightarrow> (\<exists>vs' cs n. wrapApiVariables E vs kind start expr cf = Some (vs', cs)
             \<and> cs ! i = Some n
             \<and> ((\<forall>inner. expr \<noteq> ''(*('' @ inner @ ''))'')
                  \<longrightarrow> Expression n = expr @ ''.'' @ Name (vs ! i))
             \<and> (\<forall>inner. expr = ''(*('' @ inner @ ''))''
                  \<longrightarrow> Expression n = inner @ ''.'' @ Name (vs ! i))))
   \<and> (wf_raw p \<and> Kind p = reflectPtr \<and> api_Children p = [s]
        \<and> (Kind s = reflectStruct \<or> Kind s = reflectChan)
        \<and> j < length (api_Children s) \<and> expr \<noteq> []
      \<longrightarrow> (\<exists>r c g. wrapApiVariable E p name expr cf = Some r \<and> Children r = [Some c]
             \<and> Expression c = ''(*('' @ expr @ ''))''
             \<and> Children c ! j = Some g
             \<and> Expression g = expr @ ''.'' @ Name (api_Children s ! j)))"
  using field_expression [of vs kind expr i E start cf]
    pointer_chain_expression [of p s j expr E name cf]
  by blast

text \<open>
  The field \<^verbatim>\<open>x\<close> of a struct \<^verbatim>\<open>s\<close> is \<^verbatim>\<open>s.x\<close>, that of \<^verbatim>\<open>(*(q))\<close> is \<^verbatim>\<open>q.x\<close>, and below the
  pointer \<^verbatim>\<open>p\<close> the target is \<^verbatim>\<open>(*(p))\<close> and its field \<^verbatim>\<open>p.x\<close>.
\<close>

theorem C4_field_expression_witness:
  "(\<exists>vs' cs n. wrapApiVariables exampleEnv [scalar ''x'' ''int'' reflectInt ''7''] reflectStruct 0 ''s'' True
        = Some (vs', cs) \<and> cs ! 0 = Some n \<and> Expression n = ''s.x'')
   \<and> (\<exists>vs' cs n. wrapApiVariables exampleEnv [scalar ''x'' ''int'' reflectInt ''7''] reflectStruct 0 ''(*(q))'' True
        = Some (vs', cs) \<and> cs ! 0 = Some n \<and> Expression n = ''q.x'')
   \<and> (\<exists>r c g. wrapApiVariable exampleEnv examplePointer ''p'' ''p'' True = Some r
        \<and> Children r = [Some c] \<and> Expression c = ''(*(p))''
        \<and> Children c ! 0 = Some g \<and> Expression g = ''p.x'')"
proof -
  let ?vs = "[scalar ''x'' ''int'' reflectInt ''7'']"
  have h: "list_all wf_raw ?vs \<and> (reflectStruct = reflectStruct \<or> reflectStruct = reflectChan)
      \<and> ''s'' \<noteq> [] \<and> 0 < length ?vs" by (simp add: scalar_def)
  have h2: "list_all wf_raw ?vs \<and> (reflectStruct = reflectStruct \<or> reflectStruct = reflectChan)
      \<and> ''(*(q))'' \<noteq> [] \<and> 0 < length ?vs" by (simp add: scalar_def)
  have n: "Name (?vs ! 0) = ''x''" by (simp add: scalar_def)
  have u: "\<forall>inner. ''s'' \<noteq> ''(*('' @ inner @ ''))''" by simp
  have e: "''(*(q))'' = ''(*('' @ ''q'' @ ''))''" by simp
  from C4_field_expression [THEN conjunct1, THEN mp, OF h, of exampleEnv 0 True]
  obtain vs1 cs1 n1 where a: "wrapApiVariables exampleEnv ?vs reflectStruct 0 ''s'' True = Some (vs1, cs1)"
      "cs1 ! 0 = Some n1"
      "(\<forall>inner. ''s'' \<noteq> ''(*('' @ inner @ ''))'') \<longrightarrow> Expression n1 = ''s'' @ ''.'' @ Name (?vs ! 0)"
    by (elim exE conjE)
  from a(3) [THEN mp, OF u] have "Expression n1 = ''s.x''" by (simp add: scalar_def)
  with a(1,2) have A: "\<exists>vs' cs n. wrapApiVariables exampleEnv ?vs reflectStruct 0 ''s'' True
        = Some (vs', cs) \<and> cs ! 0 = Some n \<and> Expression n = ''s.x''"
    by (intro exI conjI)
  from C4_field_expression [THEN conjunct1, THEN mp, OF h2, of exampleEnv 0 True]
  obtain vs2 cs2 n2 where b: "wrapApiVariables exampleEnv ?vs reflectStruct 0 ''(*(q))'' True = Some (vs2, cs2)"
      "cs2 ! 0 = Some n2"
      "\<forall>inner. ''(*(q))'' = ''(*('' @ inner @ ''))'' \<longrightarrow> Expression n2 = inner @ ''.'' @ Name (?vs ! 0)"
    by (elim exE conjE)
  from b(3) [THEN spec, of "''q''", THEN mp, OF e] have "Expression n2 = ''q.x''" by (simp add: scalar_def)
  with b(1,2) have B: "\<exists>vs' cs n. wrapApiVariables exampleEnv ?vs reflectStruct 0 ''(*(q))'' True
        = Some (vs', cs) \<and> cs ! 0 = Some n \<and> Expression n = ''q.x''"
    by (intro exI conjI)
  have p: "wf_raw examplePointer \<and> Kind examplePointer = reflectPtr
        \<and> api_Children examplePointer = [ApiVariable [] 32 False ''main.T'' reflectStruct [] 1 0 ?vs []]
        \<and> (Kind (ApiVariable [] 32 False ''main.T'' reflectStruct [] 1 0 ?vs []) = reflectStruct
            \<or> Kind (ApiVariable [] 32 False ''main.T'' reflectStruct [] 1 0 ?vs []) = reflectChan)
        \<and> 0 < length (api_Children (ApiVariable [] 32 False ''main.T'' reflectStruct [] 1 0 ?vs []))
        \<and> ''p'' \<noteq> []"
    by (simp add: examplePointer_def scalar_def)
  from C4_field_expression [THEN conjunct2, THEN mp, OF p, of exampleEnv "''p''" True]
  obtain r c g where c: "wrapApiVariable exampleEnv examplePointer ''p'' ''p'' True = Some r"
      "Children r = [Some c]" "Expression c = ''(*('' @ ''p'' @ ''))''" "Children c ! 0 = Some g"
      "Expression g = ''p'' @ ''.'' @ Name (api_Children (ApiVariable [] 32 False ''main.T'' reflectStruct [] 1 0 ?vs []) ! 0)"
    by (elim exE conjE)
  from c(3) have c3: "Expression c = ''(*(p))''" by simp
  from c(5) have c5: "Expression g = ''p.x''" by (simp add: scalar_def)
  from c(1,2) c3 c(4) c5 have C: "\<exists>r c g. wrapApiVariable exampleEnv examplePointer ''p'' ''p'' True = Some r
        \<and> Children r = [Some c] \<and> Expression c = ''(*(p))''
        \<and> Children c ! 0 = Some g \<and> Expression g = ''p.x''"
    by (intro exI conjI)
  from A B C show ?thesis by (intro conjI)
qed

section \<open>The precedence of the formatting rules\<close>

text \<open>
  Claim C1. Wrapping a well-formed raw value returns, and one rule decides the shown value,
  the first of these that applies: (1) the override installed for the address of the
  value, applied to the new node; (2) the character heuristic, for a value of kind \<^verbatim>\<open>Int\<close> or
  \<^verbatim>\<open>Uint\<close> with declared type \<^verbatim>\<open>uint8\<close> or \<^verbatim>\<open>int32\<close>, which annotates a number from 32 to 126
  and leaves any other raw value string as it is; (3) the custom formatter registered for
  the declared type, when custom formatters are allowed; (4) the decoder of \<^verbatim>\<open>time.Time\<close>;
  (5) the raw value string. In particular, when the address has an override and the
  declared type has a custom formatter, the override decides.
\<close>

theorem C1_formatting_precedence:
  assumes "wf_raw v"
  shows "\<exists>r. wrapApiVariable E v name expr cf = Some r
     \<and> Value r =
         (case varFormat E (Addr v) of
            Some f \<Rightarrow> fst (f (newVariable v expr))
          | None \<Rightarrow>
             if (Kind v = reflectInt \<or> Kind v = reflectUint) \<and> (Type v = ''uint8'' \<or> Type v = ''int32'')
             then (if 32 \<le> fst (Atoi (api_Value v)) \<and> fst (Atoi (api_Value v)) \<le> 126
                   then api_Value v @ '' '' @ quoteRune (fst (Atoi (api_Value v)))
                   else api_Value v)
             else (case (if cf then CustomFormatters E (Type v) else None) of
                     Some g \<Rightarrow> fst (g (newVariable v expr))
                   | None \<Rightarrow> if Type v = ''time.Time'' then formatTime v else api_Value v))
     \<and> (\<forall>f g. varFormat E (Addr v) = Some f \<and> CustomFormatters E (Type v) = Some g
            \<longrightarrow> Value r = fst (f (newVariable v expr)))"
proof -
  from wrap_total(1) [OF assms] obtain r where r: "wrapApiVariable E v name expr cf = Some r"
    by blast
  have "Value (formatValue E v (newVariable v expr) cf) =
         (case varFormat E (Addr v) of
            Some f \<Rightarrow> fst (f (newVariable v expr))
          | None \<Rightarrow>
             if (Kind v = reflectInt \<or> Kind v = reflectUint) \<and> (Type v = ''uint8'' \<or> Type v = ''int32'')
             then (if 32 \<le> fst (Atoi (api_Value v)) \<and> fst (Atoi (api_Value v)) \<le> 126
                   then api_Value v @ '' '' @ quoteRune (fst (Atoi (api_Value v)))
                   else api_Value v)
             else (case (if cf then CustomFormatters E (Type v) else None) of
                     Some g \<Rightarrow> fst (g (newVariable v expr))
                   | None \<Rightarrow> if Type v = ''time.Time'' then formatTime v else api_Value v))"
    by (auto simp: formatValue_def Let_def split: option.splits)
  then show ?thesis using r wrapApiVariable_Some(1) [OF r] by auto
qed

text \<open>
  The value 255 of type \<^verbatim>\<open>main.Celsius\<close> at address \<open>0x10\<close>: the hexadecimal override
  decides, not the custom formatter of the type.
\<close>

theorem C1_formatting_precedence_witness:
  "\<exists>r. wrapApiVariable overrideEnv (scalar ''t'' ''main.Celsius'' reflectInt ''255'') ''t'' ''t'' True = Some r
     \<and> Value r = ''0xff''"
proof -
  let ?v = "scalar ''t'' ''main.Celsius'' reflectInt ''255''"
  have h: "wf_raw ?v" by (simp add: scalar_def)
  have f: "varFormat overrideEnv (Addr ?v) = Some exampleHex \<and> CustomFormatters overrideEnv (Type ?v) = Some exampleCustom"
    by (simp add: overrideEnv_def scalar_def)
  have x: "fst (exampleHex (newVariable ?v ''t'')) = ''0xff''" by code_simp
  from C1_formatting_precedence [OF h, of overrideEnv "''t''" "''t''" True]
  obtain r where r: "wrapApiVariable overrideEnv ?v ''t'' ''t'' True = Some r"
    and a: "\<forall>f g. varFormat overrideEnv (Addr ?v) = Some f \<and> CustomFormatters overrideEnv (Type ?v) = Some g
            \<longrightarrow> Value r = fst (f (newVariable ?v ''t''))"
    by (elim exE conjE)
  from a [THEN spec, of exampleHex, THEN spec, of exampleCustom, THEN mp, OF f] x
  have "Value r = ''0xff''" by (rule trans)
  with r show ?thesis by (intro exI conjI)
qed

section \<open>The decoded time\<close>

text \<open>
  Claim C8. Let the fields \<^verbatim>\<open>wall\<close> and \<^verbatim>\<open>ext\<close> of a raw value be present and readable, and
  let their value strings parse to \<open>wall\<close> (unsigned) and \<open>ext\<close> (signed). If the bit 63 of
  \<open>wall\<close> is set, the formatted value is \<^verbatim>\<open>time.Time(T, E)\<close>: \<open>T\<close> is the calendar time, in
  the format RFC 3339, of the bits 30 to 62 of \<open>wall\<close> counted as seconds since
  1 January 1885 (2682288000 seconds before the Unix epoch), and \<open>E\<close> is \<open>ext\<close> with its sign.
  If a field is missing, unreadable or empty, or a value string does not parse, the
  formatted value is the raw value string.
\<close>

theorem C8_time_decoder:
  "(fieldVariable v ''wall'' = Some wallv \<and> fieldVariable v ''ext'' = Some extv
      \<and> Unreadable wallv = [] \<and> Unreadable extv = []
      \<and> ParseUint (api_Value wallv) = (wall, None) \<and> ParseInt (api_Value extv) = (ext, None)
      \<and> bit wall 63
    \<longrightarrow> formatTime v = ''time.Time(''
           @ Format_RFC3339 (time_Unix (wall div 2 ^ 30 mod 2 ^ 33 - 2682288000))
           @ '', '' @ itoa_plus ext @ '')'')
   \<and> (fieldVariable v ''wall'' = None \<or> fieldVariable v ''ext'' = None
       \<or> (\<exists>wallv extv. fieldVariable v ''wall'' = Some wallv \<and> fieldVariable v ''ext'' = Some extv
            \<and> (Unreadable wallv \<noteq> [] \<or> Unreadable extv \<noteq> []
                \<or> api_Value wallv = [] \<or> api_Value extv = []
                \<or> snd (ParseUint (api_Value wallv)) \<noteq> None
                \<or> snd (ParseInt (api_Value extv)) \<noteq> None))
    \<longrightarrow> formatTime v = api_Value v)"
proof (intro conjI impI)
  assume "fieldVariable v ''wall'' = Some wallv \<and> fieldVariable v ''ext'' = Some extv
      \<and> Unreadable wallv = [] \<and> Unreadable extv = []
      \<and> ParseUint (api_Value wallv) = (wall, None) \<and> ParseInt (api_Value extv) = (ext, None)
      \<and> bit wall 63"
  then show "formatTime v = ''time.Time(''
           @ Format_RFC3339 (time_Unix (wall div 2 ^ 30 mod 2 ^ 33 - 2682288000))
           @ '', '' @ itoa_plus ext @ '')''"
    by (elim conjE) (rule formatTime_monotonic)
next
  assume "fieldVariable v ''wall'' = None \<or> fieldVariable v ''ext'' = None
       \<or> (\<exists>wallv extv. fieldVariable v ''wall'' = Some wallv \<and> fieldVariable v ''ext'' = Some extv
            \<and> (Unreadable wallv \<noteq> [] \<or> Unreadable extv \<noteq> []
                \<or> api_Value wallv = [] \<or> api_Value extv = []
                \<or> snd (ParseUint (api_Value wallv)) \<noteq> None
                \<or> snd (ParseInt (api_Value extv)) \<noteq> None))"
  then show "formatTime v = api_Value v" by (rule formatTime_fallback)
qed

text \<open>
  The example of the specification: the second count of 1 January 2021 with \<open>ext\<close> =
  5000000000. The second count 0 is 1 January 1885. Without the field \<^verbatim>\<open>ext\<close> the raw value
  string is returned.
\<close>

theorem C8_time_decoder_witness:
  "formatTime exampleTime = ''time.Time(2021-01-01T00:00:00Z, +5000000000)''
   \<and> 13831600503529668608 = 2 ^ 63 + (1609459200 + 2682288000) * (2 ^ 30 :: int)
   \<and> Format_RFC3339 (time_Unix 1609459200) = ''2021-01-01T00:00:00Z''
   \<and> Format_RFC3339 (time_Unix (- 2682288000)) = ''1885-01-01T00:00:00Z''
   \<and> formatTime exampleTimeNoExt = ''raw''"
proof -
  have h: "fieldVariable exampleTime ''wall'' = Some (scalar ''wall'' ''uint64'' reflectUint ''13831600503529668608'')
      \<and> fieldVariable exampleTime ''ext'' = Some (scalar ''ext'' ''int64'' reflectInt ''5000000000'')
      \<and> Unreadable (scalar ''wall'' ''uint64'' reflectUint ''13831600503529668608'') = []
      \<and> Unreadable (scalar ''ext'' ''int64'' reflectInt ''5000000000'') = []
      \<and> ParseUint (api_Value (scalar ''wall'' ''uint64'' reflectUint ''13831600503529668608''))
           = (13831600503529668608, None)
      \<and> ParseInt (api_Value (scalar ''ext'' ''int64'' reflectInt ''5000000000'')) = (5000000000, None)
      \<and> bit (13831600503529668608 :: int) 63"
    by code_simp
  have e: "''time.Time(''
           @ Format_RFC3339 (time_Unix (13831600503529668608 div 2 ^ 30 mod 2 ^ 33 - 2682288000))
           @ '', '' @ itoa_plus 5000000000 @ '')'' = ''time.Time(2021-01-01T00:00:00Z, +5000000000)''"
    by code_simp
  from C8_time_decoder [THEN conjunct1, THEN mp, OF h] e
  have A: "formatTime exampleTime = ''time.Time(2021-01-01T00:00:00Z, +5000000000)''"
    by (rule trans)
  have n: "fieldVariable exampleTimeNoExt ''wall'' = None \<or> fieldVariable exampleTimeNoExt ''ext'' = None
       \<or> (\<exists>wallv extv. fieldVariable exampleTimeNoExt ''wall'' = Some wallv
            \<and> fieldVariable exampleTimeNoExt ''ext'' = Some extv
            \<and> (Unreadable wallv \<noteq> [] \<or> Unreadable extv \<noteq> []
                \<or> api_Value wallv = [] \<or> api_Value extv = []
                \<or> snd (ParseUint (api_Value wallv)) \<noteq> None
                \<or> snd (ParseInt (api_Value extv)) \<noteq> None))"
    by (rule disjI2, rule disjI1) (simp add: exampleTimeNoExt_def fieldVariable_def scalar_def)
  have v: "api_Value exampleTimeNoExt = ''raw''" by (simp add: exampleTimeNoExt_def)
  from C8_time_decoder [THEN conjunct2, THEN mp, OF n] v
  have B: "formatTime exampleTimeNoExt = ''raw''" by (rule trans)
  have C: "13831600503529668608 = 2 ^ 63 + (1609459200 + 2682288000) * (2 ^ 30 :: int)" by simp
  have D: "Format_RFC3339 (time_Unix 1609459200) = ''2021-01-01T00:00:00Z''" by code_simp
  have F: "Format_RFC3339 (time_Unix (- 2682288000)) = ''1885-01-01T00:00:00Z''" by code_simp
  from A C D F B show ?thesis by (intro conjI)
qed


section \<open>One load at a time\<close>

text \<open>
  Claim C5. At most one background load is in flight at any time: in every state that the
  program reaches there is at most one goroutine, and there is one exactly when the flag
  \<^verbatim>\<open>additionalLoadRunning\<close> is set. A call of \<^verbatim>\<open>loadMoreArrayOrSlice\<close>, \<^verbatim>\<open>loadMoreMap\<close> or
  \<^verbatim>\<open>loadMoreStruct\<close> while the flag is set leaves the state as it is; no call makes an evaluation
  call itself nor queues one. A goroutine makes one evaluation call, clears the flag and is gone,
  and a step that clears the flag is the end of an outstanding goroutine.
\<close>

theorem C5_single_flight:
  "(reachable E s \<longrightarrow> length (goroutines s) \<le> 1 \<and> (additionalLoadRunning s \<longleftrightarrow> goroutines s \<noteq> []))
   \<and> (additionalLoadRunning s \<longrightarrow>
         loadMoreArrayOrSlice s v = s \<and> loadMoreMap s v = s \<and> loadMoreStruct s v = s)
   \<and> evalCalls (loadMoreArrayOrSlice s v) = evalCalls s
   \<and> evalCalls (loadMoreMap s v) = evalCalls s
   \<and> evalCalls (loadMoreStruct s v) = evalCalls s
   \<and> (runGoroutine E g reply s = Some s' \<longrightarrow>
         length (evalCalls s') = length (evalCalls s) + 1 \<and> \<not> additionalLoadRunning s'
         \<and> goroutines s' = remove1 g (goroutines s))
   \<and> (step E s s' \<and> additionalLoadRunning s \<and> \<not> additionalLoadRunning s' \<longrightarrow>
         (\<exists>g reply. g \<in> set (goroutines s) \<and> runGoroutine E g reply s = Some s'))"
  using reachable_invariant [of E s] loadMore_dropped [of s v] loadMore_evalCalls [of s v]
    runGoroutine_Some [of E g reply s s'] step_clears [of E s s']
  by blast

text \<open>
  From the state without a load, a call for the slice starts a goroutine; a second call, for any
  node, is dropped; the end of the goroutine clears the flag.
\<close>

theorem C5_single_flight_witness:
  "reachable exampleEnv (loadMoreArrayOrSlice exampleState 0)
   \<and> goroutines (loadMoreArrayOrSlice exampleState 0) = [goLoadMoreArrayOrSlice 0]
   \<and> loadMoreStruct (loadMoreArrayOrSlice exampleState 0) 0 = loadMoreArrayOrSlice exampleState 0
   \<and> loadMoreMap (loadMoreArrayOrSlice exampleState 0) 0 = loadMoreArrayOrSlice exampleState 0
   \<and> (\<exists>s'. runGoroutine exampleEnv (goLoadMoreArrayOrSlice 0) (Inl ''timeout'')
              (loadMoreArrayOrSlice exampleState 0) = Some s'
          \<and> length (evalCalls s') = 1 \<and> \<not> additionalLoadRunning s' \<and> goroutines s' = [])"
proof -
  let ?s1 = "loadMoreArrayOrSlice exampleState 0"
  have s1: "additionalLoadRunning ?s1" "goroutines ?s1 = [goLoadMoreArrayOrSlice 0]"
    "evalCalls ?s1 = []" "heap ?s1 0 = Some exampleNode"
    by (simp_all add: loadMoreArrayOrSlice_def exampleState_def)
  have "reachable exampleEnv exampleState"
    by (rule reach_start) (simp_all add: exampleState_def)
  then have r: "reachable exampleEnv ?s1"
    by (rule reach_step) (rule call_loadMoreArrayOrSlice)
  note T = C5_single_flight [of exampleEnv ?s1 0]
  from T [THEN conjunct1, THEN mp, OF r] have inv: "length (goroutines ?s1) \<le> 1" by simp
  from T [THEN conjunct2, THEN conjunct1, THEN mp, OF s1(1)]
  have d: "loadMoreStruct ?s1 0 = ?s1" "loadMoreMap ?s1 0 = ?s1" by simp_all
  obtain s' where s': "runGoroutine exampleEnv (goLoadMoreArrayOrSlice 0) (Inl ''timeout'') ?s1 = Some s'"
    by (simp add: runGoroutine_def loadMoreArrayOrSlice_go_def s1(4) Let_def)
  from C5_single_flight [of exampleEnv ?s1 0 "goLoadMoreArrayOrSlice 0" "Inl ''timeout''" s',
      THEN conjunct2, THEN conjunct2, THEN conjunct2, THEN conjunct2, THEN conjunct2, THEN conjunct1,
      THEN mp, OF s']
  have e: "length (evalCalls s') = 1" "\<not> additionalLoadRunning s'" "goroutines s' = []"
    by (simp_all add: s1)
  have st: "step exampleEnv ?s1 s'"
    by (rule run_goroutine [OF _ s']) (simp add: s1)
  from C5_single_flight [of exampleEnv ?s1 0 "goLoadMoreArrayOrSlice 0" "Inl ''timeout''" s',
      THEN conjunct2, THEN conjunct2, THEN conjunct2, THEN conjunct2, THEN conjunct2, THEN conjunct2,
      THEN mp, OF conjI [OF st conjI [OF s1(1) e(2)]]]
  have "\<exists>g reply. g \<in> set (goroutines ?s1) \<and> runGoroutine exampleEnv g reply ?s1 = Some s'" .
  from r s1(2) d s' e show ?thesis by simp
qed


section \<open>Loading a struct\<close>

text \<open>
  Claim C6. When the evaluation of \<^verbatim>\<open>loadMoreStruct\<close> succeeds, the node at the same reference
  takes the raw fields and the children of the wrapped answer, and keeps its display name and its
  \<^verbatim>\<open>Varname\<close>. When it fails, the node is marked unreadable with the text of the error; its other
  raw fields, its children, its display name and its \<^verbatim>\<open>Varname\<close> are as before.
\<close>

theorem C6_loadMoreStruct:
  "(heap s v = Some node \<and> wf_raw lv \<longrightarrow>
      (\<exists>s' w node'. loadMoreStruct_go E (Inr lv) s v = Some s'
         \<and> wrapApiVariable E (set_Name (Name (Variable node)) lv) (Name (Variable node))
              (Expression node) True = Some w
         \<and> heap s' = (heap s)(v \<mapsto> node')
         \<and> Variable node' = Variable w \<and> Children node' = Children w \<and> Value node' = Value w
         \<and> Type (Variable node') = Type lv \<and> Kind (Variable node') = Kind lv
         \<and> api_Value (Variable node') = api_Value lv \<and> Addr (Variable node') = Addr lv
         \<and> Len (Variable node') = Len lv \<and> Cap (Variable node') = Cap lv
         \<and> Unreadable (Variable node') = Unreadable lv \<and> OnlyAddr (Variable node') = OnlyAddr lv
         \<and> DisplayName node' = DisplayName node \<and> Varname node' = Varname node))
   \<and> (heap s v = Some node \<longrightarrow>
      (\<exists>s' node'. loadMoreStruct_go E (Inl err) s v = Some s'
         \<and> heap s' = (heap s)(v \<mapsto> node')
         \<and> node' = set_Variable (set_Unreadable err (Variable node)) node
         \<and> Unreadable (Variable node') = err
         \<and> Name (Variable node') = Name (Variable node) \<and> Addr (Variable node') = Addr (Variable node)
         \<and> OnlyAddr (Variable node') = OnlyAddr (Variable node)
         \<and> Type (Variable node') = Type (Variable node) \<and> Kind (Variable node') = Kind (Variable node)
         \<and> api_Value (Variable node') = api_Value (Variable node)
         \<and> Len (Variable node') = Len (Variable node) \<and> Cap (Variable node') = Cap (Variable node)
         \<and> api_Children (Variable node') = api_Children (Variable node)
         \<and> Children node' = Children node
         \<and> DisplayName node' = DisplayName node \<and> Varname node' = Varname node))"
proof (intro conjI impI)
  assume "heap s v = Some node \<and> wf_raw lv"
  then have a: "heap s v = Some node" "wf_raw lv" by simp_all
  from loadMoreStruct_go_ok [OF a, of E] obtain s' w where
    b: "loadMoreStruct_go E (Inr lv) s v = Some s'"
       "wrapApiVariable E (set_Name (Name (Variable node)) lv) (Name (Variable node)) (Expression node) True
           = Some w"
       "heap s' = (heap s)(v \<mapsto> set_DisplayName (DisplayName node) (set_Varname (Varname node) w))"
    by blast
  note c = raw_after_wrap [OF b(2)]
  show "\<exists>s' w node'. loadMoreStruct_go E (Inr lv) s v = Some s'
         \<and> wrapApiVariable E (set_Name (Name (Variable node)) lv) (Name (Variable node))
              (Expression node) True = Some w
         \<and> heap s' = (heap s)(v \<mapsto> node')
         \<and> Variable node' = Variable w \<and> Children node' = Children w \<and> Value node' = Value w
         \<and> Type (Variable node') = Type lv \<and> Kind (Variable node') = Kind lv
         \<and> api_Value (Variable node') = api_Value lv \<and> Addr (Variable node') = Addr lv
         \<and> Len (Variable node') = Len lv \<and> Cap (Variable node') = Cap lv
         \<and> Unreadable (Variable node') = Unreadable lv \<and> OnlyAddr (Variable node') = OnlyAddr lv
         \<and> DisplayName node' = DisplayName node \<and> Varname node' = Varname node"
    apply (rule exI [where x = s'], rule exI [where x = w])
    apply (rule exI [where x = "set_DisplayName (DisplayName node) (set_Varname (Varname node) w)"])
    using b c by simp
next
  assume a: "heap s v = Some node"
  from loadMoreStruct_go_fail [OF a, of E err] obtain s' where
    b: "loadMoreStruct_go E (Inl err) s v = Some s'"
       "heap s' = (heap s)(v \<mapsto> set_Variable (set_Unreadable err (Variable node)) node)"
    by blast
  show "\<exists>s' node'. loadMoreStruct_go E (Inl err) s v = Some s'
         \<and> heap s' = (heap s)(v \<mapsto> node')
         \<and> node' = set_Variable (set_Unreadable err (Variable node)) node
         \<and> Unreadable (Variable node') = err
         \<and> Name (Variable node') = Name (Variable node) \<and> Addr (Variable node') = Addr (Variable node)
         \<and> OnlyAddr (Variable node') = OnlyAddr (Variable node)
         \<and> Type (Variable node') = Type (Variable node) \<and> Kind (Variable node') = Kind (Variable node)
         \<and> api_Value (Variable node') = api_Value (Variable node)
         \<and> Len (Variable node') = Len (Variable node) \<and> Cap (Variable node') = Cap (Variable node)
         \<and> api_Children (Variable node') = api_Children (Variable node)
         \<and> Children node' = Children node
         \<and> DisplayName node' = DisplayName node \<and> Varname node' = Varname node"
    apply (rule exI [where x = s'])
    apply (rule exI [where x = "set_Variable (set_Unreadable err (Variable node)) node"])
    using b by simp
qed

text \<open>The struct \<^verbatim>\<open>t\<close>, loaded with one field, and the same load failing with \<^verbatim>\<open>boom\<close>.\<close>

theorem C6_loadMoreStruct_witness:
  "(\<exists>s' node'. loadMoreStruct_go exampleEnv (Inr exampleStructReply) exampleStructState 0 = Some s'
       \<and> heap s' 0 = Some node' \<and> OnlyAddr (Variable node') = False \<and> length (Children node') = 1
       \<and> DisplayName node' = ''t'' \<and> Varname node' = ''t 0'')
   \<and> (\<exists>s' node'. loadMoreStruct_go exampleEnv (Inl ''boom'') exampleStructState 0 = Some s'
       \<and> heap s' 0 = Some node' \<and> Unreadable (Variable node') = ''boom''
       \<and> OnlyAddr (Variable node') = True \<and> Children node' = []
       \<and> DisplayName node' = ''t'' \<and> Varname node' = ''t 0'')"
proof -
  have h: "heap exampleStructState 0 = Some exampleStructNode" by (simp add: exampleStructState_def)
  have wf: "wf_raw exampleStructReply" by (simp add: exampleStructReply_def scalar_def)
  have n: "DisplayName exampleStructNode = ''t''" "Varname exampleStructNode = ''t 0''"
    "Children exampleStructNode = []" "OnlyAddr (Variable exampleStructNode) = True"
    "Name (Variable exampleStructNode) = ''t''" "Expression exampleStructNode = ''t''"
    by (simp_all add: exampleStructNode_def)
  have l: "OnlyAddr exampleStructReply = False" by (simp add: exampleStructReply_def)
  have c: "map_option (\<lambda>w. length (Children w))
             (wrapApiVariable exampleEnv (set_Name ''t'' exampleStructReply) ''t'' ''t'' True) = Some 1"
    by code_simp
  from C6_loadMoreStruct [THEN conjunct1, THEN mp, OF conjI [OF h wf], of exampleEnv]
  obtain s1 w node1 where a: "loadMoreStruct_go exampleEnv (Inr exampleStructReply) exampleStructState 0 = Some s1"
      "wrapApiVariable exampleEnv (set_Name (Name (Variable exampleStructNode)) exampleStructReply)
         (Name (Variable exampleStructNode)) (Expression exampleStructNode) True = Some w"
      "heap s1 = (heap exampleStructState)(0 \<mapsto> node1)" "Children node1 = Children w"
      "OnlyAddr (Variable node1) = OnlyAddr exampleStructReply"
      "DisplayName node1 = DisplayName exampleStructNode" "Varname node1 = Varname exampleStructNode"
    by (elim exE conjE)
  from a(2) c have "length (Children w) = 1" by (simp add: n)
  with a have A: "\<exists>s' node'. loadMoreStruct_go exampleEnv (Inr exampleStructReply) exampleStructState 0 = Some s'
       \<and> heap s' 0 = Some node' \<and> OnlyAddr (Variable node') = False \<and> length (Children node') = 1
       \<and> DisplayName node' = ''t'' \<and> Varname node' = ''t 0''"
    by (intro exI [where x = s1] exI [where x = node1]) (simp add: n l)
  from C6_loadMoreStruct [THEN conjunct2, THEN mp, OF h, of exampleEnv "''boom''"]
  obtain s2 node2 where b: "loadMoreStruct_go exampleEnv (Inl ''boom'') exampleStructState 0 = Some s2"
      "heap s2 = (heap exampleStructState)(0 \<mapsto> node2)" "Unreadable (Variable node2) = ''boom''"
      "OnlyAddr (Variable node2) = OnlyAddr (Variable exampleStructNode)"
      "Children node2 = Children exampleStructNode"
      "DisplayName node2 = DisplayName exampleStructNode" "Varname node2 = Varname exampleStructNode"
    by (elim exE conjE)
  then have B: "\<exists>s' node'. loadMoreStruct_go exampleEnv (Inl ''boom'') exampleStructState 0 = Some s'
       \<and> heap s' 0 = Some node' \<and> Unreadable (Variable node') = ''boom''
       \<and> OnlyAddr (Variable node') = True \<and> Children node' = []
       \<and> DisplayName node' = ''t'' \<and> Varname node' = ''t 0''"
    by (intro exI [where x = s2] exI [where x = node2]) (simp add: n)
  from A B show ?thesis by (rule conjI)
qed


section \<open>Loading more of an array or a slice\<close>

text \<open>
  Claim C7. When the evaluation of \<^verbatim>\<open>loadMoreArrayOrSlice\<close> fails, the goroutine ends without a
  panic, the length of the node becomes the number of its loaded children, so that no more is
  offered, one line is written to the scrollback and the children are as before. When it
  succeeds, the children that \<^verbatim>\<open>wrapApiVariables\<close> makes of the children of the answer are
  appended to those of the node: the \<open>i\<close>-th of them is the wrapping of the \<open>i\<close>-th child of the
  answer, stands for it with its address, type, kind and value string, shows its formatted
  value, and is named and addressed by the index \<open>i\<close> counted from the number of children loaded
  before. The raw snapshot of the node and the scrollback are as before.
\<close>

theorem C7_loadMoreArrayOrSlice:
  "(heap s v = Some node \<longrightarrow>
     (\<exists>s' node'. loadMoreArrayOrSlice_go E (Inl err) s v = Some s'
        \<and> heap s' = (heap s)(v \<mapsto> node')
        \<and> Len (Variable node') = int (length (Children node))
        \<and> \<not> moreArrayOrSlice node'
        \<and> Children node' = Children node
        \<and> scrollback s' = scrollback s
             @ [''Error loading array contents ''
                @ (''(*(*'' @ Quote E (Type (Variable node)) @ '')('' @ fmt_hex (Addr (Variable node))
                   @ ''))['' @ itoa (int (length (Children node))) @ '':]'')
                @ '': '' @ err @ [CHR 0x0A]]
        \<and> \<not> additionalLoadRunning s'))
   \<and> (heap s v = Some node
       \<and> (Kind (Variable node) = reflectSlice \<or> Kind (Variable node) = reflectArray)
       \<and> list_all wf_raw (api_Children lv) \<longrightarrow>
     (\<exists>s' node' vs' cs. loadMoreArrayOrSlice_go E (Inr lv) s v = Some s'
        \<and> heap s' = (heap s)(v \<mapsto> node')
        \<and> wrapApiVariables E (api_Children lv) (Kind (Variable node))
             (int (length (Children node))) (Expression node) True = Some (vs', cs)
        \<and> Children node' = Children node @ cs \<and> length cs = length (api_Children lv)
        \<and> Variable node' = Variable node
        \<and> Len (Variable node') = Len (Variable node)
        \<and> scrollback s' = scrollback s
        \<and> \<not> additionalLoadRunning s'
        \<and> (\<forall>i < length (api_Children lv). \<exists>n. cs ! i = Some n
              \<and> wrapApiVariable E (api_Children lv ! i)
                   (''['' @ itoa (int (length (Children node)) + int i) @ '']'')
                   (if Expression node \<noteq> []
                    then Expression node @ ''['' @ itoa (int (length (Children node)) + int i) @ '']''
                    else []) True = Some n
              \<and> Addr (Variable n) = Addr (api_Children lv ! i)
              \<and> Type (Variable n) = Type (api_Children lv ! i)
              \<and> Kind (Variable n) = Kind (api_Children lv ! i)
              \<and> api_Value (Variable n) = api_Value (api_Children lv ! i)
              \<and> Value n = Value (formatValue E (api_Children lv ! i)
                     (newVariable (api_Children lv ! i)
                        (if Expression node \<noteq> []
                         then Expression node @ ''['' @ itoa (int (length (Children node)) + int i) @ '']''
                         else [])) True)
              \<and> DisplayName n = ''['' @ itoa (int (length (Children node)) + int i) @ '']''
              \<and> Expression n =
                   (if Expression node \<noteq> []
                    then Expression node @ ''['' @ itoa (int (length (Children node)) + int i) @ '']''
                    else []))))"
proof (intro conjI impI)
  assume a: "heap s v = Some node"
  let ?node' = "set_Variable (set_Len (int (length (Children node))) (Variable node)) node"
  show "\<exists>s' node'. loadMoreArrayOrSlice_go E (Inl err) s v = Some s'
        \<and> heap s' = (heap s)(v \<mapsto> node')
        \<and> Len (Variable node') = int (length (Children node))
        \<and> \<not> moreArrayOrSlice node'
        \<and> Children node' = Children node
        \<and> scrollback s' = scrollback s
             @ [''Error loading array contents ''
                @ (''(*(*'' @ Quote E (Type (Variable node)) @ '')('' @ fmt_hex (Addr (Variable node))
                   @ ''))['' @ itoa (int (length (Children node))) @ '':]'')
                @ '': '' @ err @ [CHR 0x0A]]
        \<and> \<not> additionalLoadRunning s'"
    apply (rule exI [where x = "the (loadMoreArrayOrSlice_go E (Inl err) s v)"])
    apply (rule exI [where x = ?node'])
    using a by (simp add: loadMoreArrayOrSlice_go_def Let_def moreArrayOrSlice_def)
next
  assume "heap s v = Some node
       \<and> (Kind (Variable node) = reflectSlice \<or> Kind (Variable node) = reflectArray)
       \<and> list_all wf_raw (api_Children lv)"
  then have a: "heap s v = Some node"
    "Kind (Variable node) = reflectSlice \<or> Kind (Variable node) = reflectArray"
    "list_all wf_raw (api_Children lv)" by simp_all
  let ?st = "int (length (Children node))"
  let ?nm = "\<lambda>i. ''['' @ itoa (?st + int i) @ '']''"
  let ?ex = "\<lambda>i. if Expression node \<noteq> [] then Expression node @ ''['' @ itoa (?st + int i) @ '']'' else []"
  from wrapSlice_nodes [OF a(3,2), of E ?st "Expression node" True]
  obtain vs' cs where w: "wrapApiVariables E (api_Children lv) (Kind (Variable node))
        ?st (Expression node) True = Some (vs', cs)"
      "length cs = length (api_Children lv)"
    and n: "\<And>i. i < length (api_Children lv) \<Longrightarrow> \<exists>n. cs ! i = Some n
              \<and> wrapApiVariable E (api_Children lv ! i) (?nm i) (?ex i) True = Some n"
    by blast
  have q: "\<forall>i < length (api_Children lv). \<exists>n. cs ! i = Some n
              \<and> wrapApiVariable E (api_Children lv ! i) (?nm i) (?ex i) True = Some n
              \<and> Addr (Variable n) = Addr (api_Children lv ! i)
              \<and> Type (Variable n) = Type (api_Children lv ! i)
              \<and> Kind (Variable n) = Kind (api_Children lv ! i)
              \<and> api_Value (Variable n) = api_Value (api_Children lv ! i)
              \<and> Value n = Value (formatValue E (api_Children lv ! i)
                     (newVariable (api_Children lv ! i) (?ex i)) True)
              \<and> DisplayName n = ?nm i
              \<and> Expression n = ?ex i"
  proof (intro allI impI)
    fix i assume "i < length (api_Children lv)"
    from n [OF this] obtain m where m: "cs ! i = Some m"
      "wrapApiVariable E (api_Children lv ! i) (?nm i) (?ex i) True = Some m" by blast
    note r = raw_after_wrap [OF m(2)]
    have d: "DisplayName m = ?nm i" using wrapApiVariable_Some(2) [OF m(2)] by simp
    have e: "Expression m = ?ex i" using wrapApiVariable_Some(5) [OF m(2)] .
    have f: "Value m = Value (formatValue E (api_Children lv ! i)
                     (newVariable (api_Children lv ! i) (?ex i)) True)"
      using wrapApiVariable_Some(1) [OF m(2)] .
    show "\<exists>n. cs ! i = Some n
              \<and> wrapApiVariable E (api_Children lv ! i) (?nm i) (?ex i) True = Some n
              \<and> Addr (Variable n) = Addr (api_Children lv ! i)
              \<and> Type (Variable n) = Type (api_Children lv ! i)
              \<and> Kind (Variable n) = Kind (api_Children lv ! i)
              \<and> api_Value (Variable n) = api_Value (api_Children lv ! i)
              \<and> Value n = Value (formatValue E (api_Children lv ! i)
                     (newVariable (api_Children lv ! i) (?ex i)) True)
              \<and> DisplayName n = ?nm i
              \<and> Expression n = ?ex i"
      using m r(2,4,5,6) f d e by (intro exI [where x = m] conjI)
  qed
  from loadMoreArrayOrSlice_go_ok [OF a(1) w(1)] obtain s' where
    s': "loadMoreArrayOrSlice_go E (Inr lv) s v = Some s'"
      "heap s' = (heap s)(v \<mapsto> set_Children (Children node @ cs) node)"
      "scrollback s' = scrollback s" "\<not> additionalLoadRunning s'" by blast
  have c: "Children (set_Children (Children node @ cs) node) = Children node @ cs"
    "Variable (set_Children (Children node @ cs) node) = Variable node"
    "Len (Variable (set_Children (Children node @ cs) node)) = Len (Variable node)"
    by simp_all
  show "\<exists>s' node' vs' cs. loadMoreArrayOrSlice_go E (Inr lv) s v = Some s'
        \<and> heap s' = (heap s)(v \<mapsto> node')
        \<and> wrapApiVariables E (api_Children lv) (Kind (Variable node))
             (int (length (Children node))) (Expression node) True = Some (vs', cs)
        \<and> Children node' = Children node @ cs \<and> length cs = length (api_Children lv)
        \<and> Variable node' = Variable node
        \<and> Len (Variable node') = Len (Variable node)
        \<and> scrollback s' = scrollback s
        \<and> \<not> additionalLoadRunning s'
        \<and> (\<forall>i < length (api_Children lv). \<exists>n. cs ! i = Some n
              \<and> wrapApiVariable E (api_Children lv ! i) (?nm i) (?ex i) True = Some n
              \<and> Addr (Variable n) = Addr (api_Children lv ! i)
              \<and> Type (Variable n) = Type (api_Children lv ! i)
              \<and> Kind (Variable n) = Kind (api_Children lv ! i)
              \<and> api_Value (Variable n) = api_Value (api_Children lv ! i)
              \<and> Value n = Value (formatValue E (api_Children lv ! i)
                     (newVariable (api_Children lv ! i) (?ex i)) True)
              \<and> DisplayName n = ?nm i
              \<and> Expression n = ?ex i)"
    using s' w c q
    by (intro exI [where x = s'] exI [where x = "set_Children (Children node @ cs) node"]
          exI [where x = vs'] exI [where x = cs] conjI)
qed

text \<open>
  The slice with one loaded element: after a failure its length is 1; after the answer with two
  elements the first child is as before and the child at position 1 is \<^verbatim>\<open>[1]\<close>, of expression
  \<^verbatim>\<open>xs[1]\<close> and of value 6, the first element of the answer.
\<close>

theorem C7_loadMoreArrayOrSlice_witness:
  "(\<exists>s' node'. loadMoreArrayOrSlice_go exampleEnv (Inl ''timeout'') exampleState 0 = Some s'
       \<and> heap s' 0 = Some node' \<and> Len (Variable node') = 1 \<and> \<not> moreArrayOrSlice node'
       \<and> Children node' = Children exampleNode \<and> length (scrollback s') = 1)
   \<and> moreArrayOrSlice exampleNode
   \<and> (\<exists>s' node' n. loadMoreArrayOrSlice_go exampleEnv (Inr exampleSliceReply) exampleState 0 = Some s'
       \<and> heap s' 0 = Some node' \<and> length (Children node') = 3
       \<and> Children node' ! 0 = Children exampleNode ! 0
       \<and> Children node' ! 1 = Some n \<and> DisplayName n = ''[1]'' \<and> Expression n = ''xs[1]''
       \<and> api_Value (Variable n) = ''6'' \<and> Value n = ''6'' \<and> Type (Variable n) = ''int'')"
proof -
  have h: "heap exampleState 0 = Some exampleNode" by (simp add: exampleState_def)
  have n: "length (Children exampleNode) = 1" "Expression exampleNode = ''xs''"
    "Kind (Variable exampleNode) = reflectSlice \<or> Kind (Variable exampleNode) = reflectArray"
    "scrollback exampleState = []"
    by (simp_all add: exampleNode_def exampleState_def)
  have m: "moreArrayOrSlice exampleNode" by (simp add: moreArrayOrSlice_def exampleNode_def)
  have r: "list_all wf_raw (api_Children exampleSliceReply)" "length (api_Children exampleSliceReply) = 2"
    "api_Value (api_Children exampleSliceReply ! 0) = ''6''"
    "Type (api_Children exampleSliceReply ! 0) = ''int''"
    by (simp_all add: exampleSliceReply_def scalar_def)
  have i: "itoa 1 = ''1''" by code_simp
  have fv: "Value (formatValue exampleEnv (api_Children exampleSliceReply ! 0)
                     (newVariable (api_Children exampleSliceReply ! 0) ''xs[1]'') True) = ''6''"
    by code_simp
  from C7_loadMoreArrayOrSlice [THEN conjunct1, THEN mp, OF h, of exampleEnv "''timeout''"]
  obtain s1 node1 where a: "loadMoreArrayOrSlice_go exampleEnv (Inl ''timeout'') exampleState 0 = Some s1"
      "heap s1 = (heap exampleState)(0 \<mapsto> node1)"
      "Len (Variable node1) = int (length (Children exampleNode))" "\<not> moreArrayOrSlice node1"
      "Children node1 = Children exampleNode"
      "scrollback s1 = scrollback exampleState
             @ [''Error loading array contents ''
                @ (''(*(*'' @ Quote exampleEnv (Type (Variable exampleNode)) @ '')(''
                   @ fmt_hex (Addr (Variable exampleNode))
                   @ ''))['' @ itoa (int (length (Children exampleNode))) @ '':]'')
                @ '': '' @ ''timeout'' @ [CHR 0x0A]]"
    by (elim exE conjE)
  then have A: "\<exists>s' node'. loadMoreArrayOrSlice_go exampleEnv (Inl ''timeout'') exampleState 0 = Some s'
       \<and> heap s' 0 = Some node' \<and> Len (Variable node') = 1 \<and> \<not> moreArrayOrSlice node'
       \<and> Children node' = Children exampleNode \<and> length (scrollback s') = 1"
    by (intro exI [where x = s1] exI [where x = node1]) (simp add: n)
  from C7_loadMoreArrayOrSlice [THEN conjunct2, THEN mp, OF conjI [OF h conjI [OF n(3) r(1)]], of exampleEnv]
  obtain s2 node2 cs where b: "loadMoreArrayOrSlice_go exampleEnv (Inr exampleSliceReply) exampleState 0 = Some s2"
      "heap s2 = (heap exampleState)(0 \<mapsto> node2)"
      "Children node2 = Children exampleNode @ cs" "length cs = length (api_Children exampleSliceReply)"
      "\<forall>i < length (api_Children exampleSliceReply). \<exists>n. cs ! i = Some n
              \<and> wrapApiVariable exampleEnv (api_Children exampleSliceReply ! i)
                   (''['' @ itoa (int (length (Children exampleNode)) + int i) @ '']'')
                   (if Expression exampleNode \<noteq> []
                    then Expression exampleNode @ ''['' @ itoa (int (length (Children exampleNode)) + int i) @ '']''
                    else []) True = Some n
              \<and> Addr (Variable n) = Addr (api_Children exampleSliceReply ! i)
              \<and> Type (Variable n) = Type (api_Children exampleSliceReply ! i)
              \<and> Kind (Variable n) = Kind (api_Children exampleSliceReply ! i)
              \<and> api_Value (Variable n) = api_Value (api_Children exampleSliceReply ! i)
              \<and> Value n = Value (formatValue exampleEnv (api_Children exampleSliceReply ! i)
                     (newVariable (api_Children exampleSliceReply ! i)
                        (if Expression exampleNode \<noteq> []
                         then Expression exampleNode @ ''['' @ itoa (int (length (Children exampleNode)) + int i) @ '']''
                         else [])) True)
              \<and> DisplayName n = ''['' @ itoa (int (length (Children exampleNode)) + int i) @ '']''
              \<and> Expression n =
                   (if Expression exampleNode \<noteq> []
                    then Expression exampleNode @ ''['' @ itoa (int (length (Children exampleNode)) + int i) @ '']''
                    else [])"
    by (elim exE conjE)
  have z: "0 < length (api_Children exampleSliceReply)" using r(2) by simp
  from b(5) [THEN spec, of 0, THEN mp, OF z] obtain n0 where c: "cs ! 0 = Some n0"
      "Type (Variable n0) = Type (api_Children exampleSliceReply ! 0)"
      "api_Value (Variable n0) = api_Value (api_Children exampleSliceReply ! 0)"
      "Value n0 = Value (formatValue exampleEnv (api_Children exampleSliceReply ! 0)
                     (newVariable (api_Children exampleSliceReply ! 0)
                        (if Expression exampleNode \<noteq> []
                         then Expression exampleNode @ ''['' @ itoa (int (length (Children exampleNode)) + int 0) @ '']''
                         else [])) True)"
      "DisplayName n0 = ''['' @ itoa (int (length (Children exampleNode)) + int 0) @ '']''"
      "Expression n0 =
                   (if Expression exampleNode \<noteq> []
                    then Expression exampleNode @ ''['' @ itoa (int (length (Children exampleNode)) + int 0) @ '']''
                    else [])"
    by (elim exE conjE)
  have d: "Children node2 ! 1 = cs ! 0" "Children node2 ! 0 = Children exampleNode ! 0"
    using b(3) n(1) by (simp_all add: nth_append)
  from c(5,6) have e: "DisplayName n0 = ''[1]''" "Expression n0 = ''xs[1]''" by (simp_all add: n i)
  from c(4) have g: "Value n0 = ''6''" by (simp add: n i fv)
  from c(2,3) have k: "Type (Variable n0) = ''int''" "api_Value (Variable n0) = ''6''" by (simp_all add: r)
  from b(1,2,3,4) c(1) d e g k r(2) n(1)
  have B: "\<exists>s' node' n. loadMoreArrayOrSlice_go exampleEnv (Inr exampleSliceReply) exampleState 0 = Some s'
       \<and> heap s' 0 = Some node' \<and> length (Children node') = 3
       \<and> Children node' ! 0 = Children exampleNode ! 0
       \<and> Children node' ! 1 = Some n \<and> DisplayName n = ''[1]'' \<and> Expression n = ''xs[1]''
       \<and> api_Value (Variable n) = ''6'' \<and> Value n = ''6'' \<and> Type (Variable n) = ''int''"
    by (intro exI [where x = s2] exI [where x = node2] exI [where x = n0]) simp
  from A m B show ?thesis by (intro conjI)
qed


section \<open>The pairs of a map node\<close>

text \<open>
  Claim C3, with the slot of the \<^verbatim>\<open>nil\<close> placeholder as the code has it. After the wrapping of a
  map, the children are of even length and are read as consecutive pairs, one for each pair of
  the raw snapshot. The first node of a pair is never \<^verbatim>\<open>nil\<close>. When the key is a short scalar
  without children, the first node is the single node that stands for the value, with the key
  in its display name, and the second is \<^verbatim>\<open>nil\<close>; otherwise the two nodes stand for the key and
  for the value, and the second is not \<^verbatim>\<open>nil\<close>. After a merge of \<^verbatim>\<open>loadMoreMap\<close> with an answer,
  the children of the node are the children before, followed by what \<^verbatim>\<open>wrapApiVariables\<close> makes
  of the pairs of the answer, for which the same holds; so the children are again of even
  length and aligned. After a merge with an error the children are as before.
\<close>

theorem C3_map_children_aligned:
  "(wf_raw v \<and> Kind v = reflectMap \<longrightarrow>
      (\<exists>r. wrapApiVariable E v name expr cf = Some r
         \<and> even (length (Children r)) \<and> pairsAligned (Children r)
         \<and> length (Children r) = length (api_Children v)
         \<and> (\<forall>j. 2 * j + 1 < length (api_Children v) \<longrightarrow>
               Children r ! (2 * j) \<noteq> None
               \<and> ((Children r ! (2 * j + 1) = None) = foldableKey (api_Children v ! (2 * j)))
               \<and> (foldableKey (api_Children v ! (2 * j)) \<longrightarrow>
                    (\<exists>n. Children r ! (2 * j) = Some n \<and> standsFor (api_Children v ! (2 * j + 1)) n
                       \<and> DisplayName n = ''['' @ (if Kind (api_Children v ! (2 * j)) = reflectString
                             then Quote E (api_Value (api_Children v ! (2 * j)))
                             else api_Value (api_Children v ! (2 * j))) @ '']''))
               \<and> (\<not> foldableKey (api_Children v ! (2 * j)) \<longrightarrow>
                    (\<exists>nk nv. Children r ! (2 * j) = Some nk \<and> Children r ! (2 * j + 1) = Some nv
                       \<and> standsFor (api_Children v ! (2 * j)) nk
                       \<and> standsFor (api_Children v ! (2 * j + 1)) nv)))))
   \<and> (heap s ref = Some node \<and> pairsAligned (Children node)
       \<and> list_all wf_raw (api_Children lv) \<and> even (length (api_Children lv)) \<longrightarrow>
      (\<exists>s' node' vs' cs. loadMoreMap_go E (Inr lv) s ref = Some s'
         \<and> heap s' = (heap s)(ref \<mapsto> node')
         \<and> wrapApiVariables E (api_Children lv) reflectMap (int (length (Children node)))
              (Expression node) True = Some (vs', cs)
         \<and> Children node' = Children node @ cs \<and> length cs = length (api_Children lv)
         \<and> Variable node' = Variable node
         \<and> even (length (Children node')) \<and> pairsAligned (Children node')
         \<and> (\<forall>j. 2 * j + 1 < length (api_Children lv) \<longrightarrow>
               cs ! (2 * j) \<noteq> None
               \<and> ((cs ! (2 * j + 1) = None) = foldableKey (api_Children lv ! (2 * j)))
               \<and> (foldableKey (api_Children lv ! (2 * j)) \<longrightarrow>
                    (\<exists>n. cs ! (2 * j) = Some n \<and> standsFor (api_Children lv ! (2 * j + 1)) n
                       \<and> DisplayName n = ''['' @ (if Kind (api_Children lv ! (2 * j)) = reflectString
                             then Quote E (api_Value (api_Children lv ! (2 * j)))
                             else api_Value (api_Children lv ! (2 * j))) @ '']''))
               \<and> (\<not> foldableKey (api_Children lv ! (2 * j)) \<longrightarrow>
                    (\<exists>nk nv. cs ! (2 * j) = Some nk \<and> cs ! (2 * j + 1) = Some nv
                       \<and> standsFor (api_Children lv ! (2 * j)) nk
                       \<and> standsFor (api_Children lv ! (2 * j + 1)) nv)))))
   \<and> (heap s ref = Some node \<and> pairsAligned (Children node) \<longrightarrow>
      (\<exists>s' node'. loadMoreMap_go E (Inl err) s ref = Some s'
         \<and> heap s' = (heap s)(ref \<mapsto> node')
         \<and> Children node' = Children node
         \<and> Len (Variable node') = int (length (Children node)) div 2
         \<and> even (length (Children node')) \<and> pairsAligned (Children node')))"
proof (intro conjI impI)
  assume "wf_raw v \<and> Kind v = reflectMap"
  then have a: "wf_raw v" "Kind v = reflectMap" by simp_all
  from a have wf: "list_all wf_raw (api_Children v)" "even (length (api_Children v))"
    using wf_raw_iff [of v] by blast+
  from wrap_total(1) [OF a(1)] obtain r where r: "wrapApiVariable E v name expr cf = Some r"
    by blast
  from wrapApiVariable_Some(9) [OF r] a(2) obtain vs' cs where
    w: "wrapApiVariables E (api_Children v) reflectMap 0 expr cf = Some (vs', cs)"
    and c: "Children r = cs" by auto
  from wrapMap_nodes [OF wf, of E 0 expr cf] w
  have n: "length cs = length (api_Children v) \<and> pairsAligned cs
     \<and> (\<forall>j. 2 * j + 1 < length (api_Children v) \<longrightarrow>
          cs ! (2 * j) \<noteq> None
          \<and> ((cs ! (2 * j + 1) = None) = foldableKey (api_Children v ! (2 * j)))
          \<and> (foldableKey (api_Children v ! (2 * j)) \<longrightarrow>
               (\<exists>n. cs ! (2 * j) = Some n \<and> standsFor (api_Children v ! (2 * j + 1)) n
                  \<and> DisplayName n = ''['' @ (if Kind (api_Children v ! (2 * j)) = reflectString
                        then Quote E (api_Value (api_Children v ! (2 * j)))
                        else api_Value (api_Children v ! (2 * j))) @ '']''))
          \<and> (\<not> foldableKey (api_Children v ! (2 * j)) \<longrightarrow>
               (\<exists>nk nv. cs ! (2 * j) = Some nk \<and> cs ! (2 * j + 1) = Some nv
                  \<and> standsFor (api_Children v ! (2 * j)) nk
                  \<and> standsFor (api_Children v ! (2 * j + 1)) nv)))"
    by simp
  from n have e: "even (length cs)" using pairsAligned_even by blast
  show "\<exists>r. wrapApiVariable E v name expr cf = Some r
         \<and> even (length (Children r)) \<and> pairsAligned (Children r)
         \<and> length (Children r) = length (api_Children v)
         \<and> (\<forall>j. 2 * j + 1 < length (api_Children v) \<longrightarrow>
               Children r ! (2 * j) \<noteq> None
               \<and> ((Children r ! (2 * j + 1) = None) = foldableKey (api_Children v ! (2 * j)))
               \<and> (foldableKey (api_Children v ! (2 * j)) \<longrightarrow>
                    (\<exists>n. Children r ! (2 * j) = Some n \<and> standsFor (api_Children v ! (2 * j + 1)) n
                       \<and> DisplayName n = ''['' @ (if Kind (api_Children v ! (2 * j)) = reflectString
                             then Quote E (api_Value (api_Children v ! (2 * j)))
                             else api_Value (api_Children v ! (2 * j))) @ '']''))
               \<and> (\<not> foldableKey (api_Children v ! (2 * j)) \<longrightarrow>
                    (\<exists>nk nv. Children r ! (2 * j) = Some nk \<and> Children r ! (2 * j + 1) = Some nv
                       \<and> standsFor (api_Children v ! (2 * j)) nk
                       \<and> standsFor (api_Children v ! (2 * j + 1)) nv)))"
    unfolding c [symmetric] using r n e unfolding c [symmetric]
    by (intro exI [where x = r] conjI) blast+
next
  assume "heap s ref = Some node \<and> pairsAligned (Children node)
       \<and> list_all wf_raw (api_Children lv) \<and> even (length (api_Children lv))"
  then have a: "heap s ref = Some node" "pairsAligned (Children node)"
    "list_all wf_raw (api_Children lv)" "even (length (api_Children lv))" by simp_all
  from wrapMap_nodes [OF a(3,4), of E "int (length (Children node))" "Expression node" True]
  obtain vs' cs where
    w: "wrapApiVariables E (api_Children lv) reflectMap (int (length (Children node)))
              (Expression node) True = Some (vs', cs)"
    and l: "length cs = length (api_Children lv)" and p: "pairsAligned cs"
    and n: "\<forall>j. 2 * j + 1 < length (api_Children lv) \<longrightarrow>
               cs ! (2 * j) \<noteq> None
               \<and> ((cs ! (2 * j + 1) = None) = foldableKey (api_Children lv ! (2 * j)))
               \<and> (foldableKey (api_Children lv ! (2 * j)) \<longrightarrow>
                    (\<exists>n. cs ! (2 * j) = Some n \<and> standsFor (api_Children lv ! (2 * j + 1)) n
                       \<and> DisplayName n = ''['' @ (if Kind (api_Children lv ! (2 * j)) = reflectString
                             then Quote E (api_Value (api_Children lv ! (2 * j)))
                             else api_Value (api_Children lv ! (2 * j))) @ '']''))
               \<and> (\<not> foldableKey (api_Children lv ! (2 * j)) \<longrightarrow>
                    (\<exists>nk nv. cs ! (2 * j) = Some nk \<and> cs ! (2 * j + 1) = Some nv
                       \<and> standsFor (api_Children lv ! (2 * j)) nk
                       \<and> standsFor (api_Children lv ! (2 * j + 1)) nv))"
    by (elim exE conjE)
  let ?node' = "set_Children (Children node @ cs) node"
  from loadMoreMap_go_ok [OF a(1) w] obtain s' where
    s': "loadMoreMap_go E (Inr lv) s ref = Some s'" "heap s' = (heap s)(ref \<mapsto> ?node')"
    by blast
  have al: "pairsAligned (Children ?node')" using pairsAligned_append [OF a(2) p] by simp
  have ev: "even (length (Children ?node'))" using pairsAligned_even [OF al] .
  have c: "Children ?node' = Children node @ cs" "Variable ?node' = Variable node" by simp_all
  show "\<exists>s' node' vs' cs. loadMoreMap_go E (Inr lv) s ref = Some s'
         \<and> heap s' = (heap s)(ref \<mapsto> node')
         \<and> wrapApiVariables E (api_Children lv) reflectMap (int (length (Children node)))
              (Expression node) True = Some (vs', cs)
         \<and> Children node' = Children node @ cs \<and> length cs = length (api_Children lv)
         \<and> Variable node' = Variable node
         \<and> even (length (Children node')) \<and> pairsAligned (Children node')
         \<and> (\<forall>j. 2 * j + 1 < length (api_Children lv) \<longrightarrow>
               cs ! (2 * j) \<noteq> None
               \<and> ((cs ! (2 * j + 1) = None) = foldableKey (api_Children lv ! (2 * j)))
               \<and> (foldableKey (api_Children lv ! (2 * j)) \<longrightarrow>
                    (\<exists>n. cs ! (2 * j) = Some n \<and> standsFor (api_Children lv ! (2 * j + 1)) n
                       \<and> DisplayName n = ''['' @ (if Kind (api_Children lv ! (2 * j)) = reflectString
                             then Quote E (api_Value (api_Children lv ! (2 * j)))
                             else api_Value (api_Children lv ! (2 * j))) @ '']''))
               \<and> (\<not> foldableKey (api_Children lv ! (2 * j)) \<longrightarrow>
                    (\<exists>nk nv. cs ! (2 * j) = Some nk \<and> cs ! (2 * j + 1) = Some nv
                       \<and> standsFor (api_Children lv ! (2 * j)) nk
                       \<and> standsFor (api_Children lv ! (2 * j + 1)) nv)))"
    using s' w c l ev al n
    by (intro exI [where x = s'] exI [where x = ?node'] exI [where x = vs'] exI [where x = cs] conjI)
next
  assume "heap s ref = Some node \<and> pairsAligned (Children node)"
  then have a: "heap s ref = Some node" "pairsAligned (Children node)" by simp_all
  let ?node' = "set_Variable (set_Len (int (length (Children node)) div 2) (Variable node)) node"
  from loadMoreMap_go_fail [OF a(1), of E err] obtain s' where
    s': "loadMoreMap_go E (Inl err) s ref = Some s'" "heap s' = (heap s)(ref \<mapsto> ?node')"
    by blast
  have c: "Children ?node' = Children node"
    "Len (Variable ?node') = int (length (Children node)) div 2" by simp_all
  have al: "pairsAligned (Children ?node')" using a(2) by simp
  have ev: "even (length (Children ?node'))" using pairsAligned_even [OF al] .
  show "\<exists>s' node'. loadMoreMap_go E (Inl err) s ref = Some s'
         \<and> heap s' = (heap s)(ref \<mapsto> node')
         \<and> Children node' = Children node
         \<and> Len (Variable node') = int (length (Children node)) div 2
         \<and> even (length (Children node')) \<and> pairsAligned (Children node')"
    using s' c ev al
    by (intro exI [where x = s'] exI [where x = ?node'] conjI)
qed

text \<open>
  The map with two loaded pairs has four children, of which only the second is \<^verbatim>\<open>nil\<close>. After
  the merge of two more pairs there are eight: the first four are as before, the fifth stands
  for the value \<^verbatim>\<open>true\<close> of the folded pair, the sixth is \<^verbatim>\<open>nil\<close>, the last two are the key and
  the value of the other pair. After a merge with an error the children are the four as before.
\<close>

theorem C3_map_children_aligned_witness:
  "(\<exists>r. wrapApiVariable exampleEnv exampleMap ''m'' ''m'' True = Some r
       \<and> length (Children r) = 4
       \<and> Children r ! 0 \<noteq> None \<and> Children r ! 1 = None
       \<and> Children r ! 2 \<noteq> None \<and> Children r ! 3 \<noteq> None)
   \<and> length (Children exampleMapLoaded) = 4
   \<and> (\<exists>s' node' n. loadMoreMap_go exampleEnv (Inr exampleMapReply) exampleMapState 0 = Some s'
       \<and> heap s' 0 = Some node' \<and> length (Children node') = 8
       \<and> take 4 (Children node') = Children exampleMapLoaded
       \<and> Children node' ! 4 = Some n \<and> api_Value (Variable n) = ''true''
       \<and> Children node' ! 5 = None
       \<and> Children node' ! 6 \<noteq> None \<and> Children node' ! 7 \<noteq> None)
   \<and> (\<exists>s' node'. loadMoreMap_go exampleEnv (Inl ''timeout'') exampleMapState 0 = Some s'
       \<and> heap s' 0 = Some node' \<and> Children node' = Children exampleMapLoaded
       \<and> Len (Variable node') = 2)"
proof -
  note f = exampleMapChildren_facts
  have m: "wf_raw exampleMap \<and> Kind exampleMap = reflectMap"
    "api_Children exampleMap = exampleMapChildren"
    using f(1,2) by (simp_all add: exampleMap_def)
  have h: "heap exampleMapState 0 = Some exampleMapLoaded" by (simp add: exampleMapState_def)
  have p: "pairsAligned (Children exampleMapLoaded)" by code_simp
  have l: "length (Children exampleMapLoaded) = 4" by code_simp
  have rp: "api_Children exampleMapReply = exampleMapChildren" by (simp add: exampleMapReply_def)
  have v1: "api_Value (exampleMapChildren ! 1) = ''true''"
    by (simp add: exampleMapChildren_def scalar_def)
  from C3_map_children_aligned [THEN conjunct1, THEN mp, OF m(1), of exampleEnv "''m''" "''m''" True]
  obtain r where r: "wrapApiVariable exampleEnv exampleMap ''m'' ''m'' True = Some r"
      "length (Children r) = length (api_Children exampleMap)"
      "\<forall>j. 2 * j + 1 < length (api_Children exampleMap) \<longrightarrow>
               Children r ! (2 * j) \<noteq> None
               \<and> ((Children r ! (2 * j + 1) = None) = foldableKey (api_Children exampleMap ! (2 * j)))
               \<and> (foldableKey (api_Children exampleMap ! (2 * j)) \<longrightarrow>
                    (\<exists>n. Children r ! (2 * j) = Some n \<and> standsFor (api_Children exampleMap ! (2 * j + 1)) n
                       \<and> DisplayName n = ''['' @ (if Kind (api_Children exampleMap ! (2 * j)) = reflectString
                             then Quote exampleEnv (api_Value (api_Children exampleMap ! (2 * j)))
                             else api_Value (api_Children exampleMap ! (2 * j))) @ '']''))
               \<and> (\<not> foldableKey (api_Children exampleMap ! (2 * j)) \<longrightarrow>
                    (\<exists>nk nv. Children r ! (2 * j) = Some nk \<and> Children r ! (2 * j + 1) = Some nv
                       \<and> standsFor (api_Children exampleMap ! (2 * j)) nk
                       \<and> standsFor (api_Children exampleMap ! (2 * j + 1)) nv))"
    by (elim exE conjE)
  have j0: "2 * 0 + 1 < length exampleMapChildren" and j1: "2 * 1 + 1 < length exampleMapChildren"
    by (simp_all add: f(3))
  from r(3) [THEN spec, of 0, unfolded m(2), THEN mp, OF j0]
  have r0: "Children r ! 0 \<noteq> None \<and> Children r ! 1 = None" by (simp add: f(4))
  from r(3) [THEN spec, of 1, unfolded m(2), THEN mp, OF j1]
  have r1: "Children r ! 2 \<noteq> None \<and> Children r ! 3 \<noteq> None" by (simp add: f(5))
  from r(1,2) r0 r1 have A: "\<exists>r. wrapApiVariable exampleEnv exampleMap ''m'' ''m'' True = Some r
       \<and> length (Children r) = 4
       \<and> Children r ! 0 \<noteq> None \<and> Children r ! 1 = None
       \<and> Children r ! 2 \<noteq> None \<and> Children r ! 3 \<noteq> None"
    by (intro exI [where x = r]) (simp add: m(2) f(3))
  have wfr: "list_all wf_raw (api_Children exampleMapReply)" "even (length (api_Children exampleMapReply))"
    by (simp_all add: rp f(1,2))
  from C3_map_children_aligned [THEN conjunct2, THEN conjunct1, THEN mp,
      OF conjI [OF h conjI [OF p conjI [OF wfr]]], of exampleEnv]
  obtain s1 node1 cs where b: "loadMoreMap_go exampleEnv (Inr exampleMapReply) exampleMapState 0 = Some s1"
      "heap s1 = (heap exampleMapState)(0 \<mapsto> node1)"
      "Children node1 = Children exampleMapLoaded @ cs"
      "length cs = length (api_Children exampleMapReply)"
      "\<forall>j. 2 * j + 1 < length (api_Children exampleMapReply) \<longrightarrow>
               cs ! (2 * j) \<noteq> None
               \<and> ((cs ! (2 * j + 1) = None) = foldableKey (api_Children exampleMapReply ! (2 * j)))
               \<and> (foldableKey (api_Children exampleMapReply ! (2 * j)) \<longrightarrow>
                    (\<exists>n. cs ! (2 * j) = Some n \<and> standsFor (api_Children exampleMapReply ! (2 * j + 1)) n
                       \<and> DisplayName n = ''['' @ (if Kind (api_Children exampleMapReply ! (2 * j)) = reflectString
                             then Quote exampleEnv (api_Value (api_Children exampleMapReply ! (2 * j)))
                             else api_Value (api_Children exampleMapReply ! (2 * j))) @ '']''))
               \<and> (\<not> foldableKey (api_Children exampleMapReply ! (2 * j)) \<longrightarrow>
                    (\<exists>nk nv. cs ! (2 * j) = Some nk \<and> cs ! (2 * j + 1) = Some nv
                       \<and> standsFor (api_Children exampleMapReply ! (2 * j)) nk
                       \<and> standsFor (api_Children exampleMapReply ! (2 * j + 1)) nv))"
    by (elim exE conjE)
  from b(5) [THEN spec, of 0, unfolded rp, THEN mp, OF j0]
  have c0': "cs ! 1 = None \<and> (\<exists>n. cs ! 0 = Some n \<and> standsFor (exampleMapChildren ! 1) n)"
    by (simp add: f(4)) blast
  then have c0: "cs ! 1 = None" "\<exists>n. cs ! 0 = Some n \<and> standsFor (exampleMapChildren ! 1) n"
    by (rule conjunct1, rule conjunct2)
  then obtain n0 where n0: "cs ! 0 = Some n0" "standsFor (exampleMapChildren ! 1) n0" by (elim exE conjE)
  from n0(2) v1 have v: "api_Value (Variable n0) = ''true''" by (simp add: standsFor_def)
  from b(5) [THEN spec, of 1, unfolded rp, THEN mp, OF j1]
  have c1: "cs ! 2 \<noteq> None" "cs ! 3 \<noteq> None" by (simp_all add: f(5))
  have lc: "length cs = 4" using b(4) by (simp add: rp f(3))
  have e: "Children node1 ! 4 = cs ! 0" "Children node1 ! 5 = cs ! 1" "Children node1 ! 6 = cs ! 2"
    "Children node1 ! 7 = cs ! 3" "take 4 (Children node1) = Children exampleMapLoaded"
    "length (Children node1) = 8"
    using b(3) l lc by (simp_all add: nth_append)
  from b(1,2) e n0(1) v c0(1) c1
  have B: "\<exists>s' node' n. loadMoreMap_go exampleEnv (Inr exampleMapReply) exampleMapState 0 = Some s'
       \<and> heap s' 0 = Some node' \<and> length (Children node') = 8
       \<and> take 4 (Children node') = Children exampleMapLoaded
       \<and> Children node' ! 4 = Some n \<and> api_Value (Variable n) = ''true''
       \<and> Children node' ! 5 = None
       \<and> Children node' ! 6 \<noteq> None \<and> Children node' ! 7 \<noteq> None"
    by (intro exI [where x = s1] exI [where x = node1] exI [where x = n0]) simp
  from C3_map_children_aligned [THEN conjunct2, THEN conjunct2, THEN mp,
      OF conjI [OF h p], of exampleEnv "''timeout''"]
  obtain s2 node2 where c: "loadMoreMap_go exampleEnv (Inl ''timeout'') exampleMapState 0 = Some s2"
      "heap s2 = (heap exampleMapState)(0 \<mapsto> node2)" "Children node2 = Children exampleMapLoaded"
      "Len (Variable node2) = int (length (Children exampleMapLoaded)) div 2"
    by (elim exE conjE)
  then have C: "\<exists>s' node'. loadMoreMap_go exampleEnv (Inl ''timeout'') exampleMapState 0 = Some s'
       \<and> heap s' 0 = Some node' \<and> Children node' = Children exampleMapLoaded
       \<and> Len (Variable node') = 2"
    by (intro exI [where x = s2] exI [where x = node2]) (simp add: l)
  from A l B C show ?thesis by (intro conjI)
qed

text \<open>
  The placeholder is not in the slot of the key: the first pair of the map has a foldable key,
  its first child is a node and its second child is \<^verbatim>\<open>nil\<close>.
\<close>

theorem C3_counterexample:
  "Kind exampleMap = reflectMap
   \<and> foldableKey (api_Children exampleMap ! 0)
   \<and> wrapApiVariable exampleEnv exampleMap ''m'' ''m'' True \<noteq> None
   \<and> Children (the (wrapApiVariable exampleEnv exampleMap ''m'' ''m'' True)) ! 0 \<noteq> None
   \<and> Children (the (wrapApiVariable exampleEnv exampleMap ''m'' ''m'' True)) ! 1 = None"
  by code_simp

end
